(* ===== verification/Go_Monad.thy ===== *)
theory Go_Monad
  imports Main "HOL-Library.Word"
begin

text \<open>
  The prelude of the development: how Go's control flow is written in HOL.

  A Go function that may panic and that changes state is a function of type
  \<open>('s, 'a) go\<close>: it takes the state and returns either the panic (\<open>Inl\<close>) or the
  result (\<open>Inr\<close>), together with the state it leaves behind. A panic does not undo
  what happened before it. \<open>go_defer\<close> is \<open>defer\<close> (the cleanup runs on both the
  normal and the panicking path), \<open>go_recover\<close> is a deferred \<open>recover()\<close>, and
  \<open>go_each\<close> is a \<open>for range\<close> loop over a slice.

  The second half holds the interface that several components of the program share: the
  locale \<open>key_store\<close> states what a keyed table promises (a lookup sees the last
  insertion under that key and no other); the codec registry, Go's \<open>context\<close> values
  and the attachment maps interpret it on their own definitions.
\<close>

named_theorems go_simps \<open>unfolding of the monad's operations\<close>
named_theorems run_simps \<open>what one operation of a component does to its state\<close>

type_synonym u32 = "32 word"
type_synonym i32 = "32 word"
type_synonym i64 = "64 word"
type_synonym bytes = "8 word list"

section \<open>Panics and stateful computations\<close>

datatype panic =
    NilDereference
  | BadTypeAssertion
  | IndexOutOfRange
  | ReflectZeroValue
  | ReflectBadKind
  | CloseOfClosedChannel
  | ExplicitPanic string
  | UserPanic nat

type_synonym ('s, 'a) go = "'s \<Rightarrow> (panic + 'a) \<times> 's"

definition go_return :: "'a \<Rightarrow> ('s, 'a) go" where
  "go_return x = (\<lambda>s. (Inr x, s))"

definition go_panic :: "panic \<Rightarrow> ('s, 'a) go" where
  "go_panic p = (\<lambda>s. (Inl p, s))"

definition go_bind :: "('s, 'a) go \<Rightarrow> ('a \<Rightarrow> ('s, 'b) go) \<Rightarrow> ('s, 'b) go" where
  "go_bind m f = (\<lambda>s. case m s of (Inl p, s') \<Rightarrow> (Inl p, s') | (Inr x, s') \<Rightarrow> f x s')"

definition go_then :: "('s, 'a) go \<Rightarrow> ('s, 'b) go \<Rightarrow> ('s, 'b) go" where
  "go_then m n = go_bind m (\<lambda>_. n)"

definition go_modify :: "('s \<Rightarrow> 's) \<Rightarrow> ('s, unit) go" where
  "go_modify f = (\<lambda>s. (Inr (), f s))"

definition go_gets :: "('s \<Rightarrow> 'a) \<Rightarrow> ('s, 'a) go" where
  "go_gets f = (\<lambda>s. (Inr (f s), s))"

definition go_when :: "bool \<Rightarrow> ('s, unit) go \<Rightarrow> ('s, unit) go" where
  "go_when b m = (if b then m else go_return ())"

definition go_defer :: "('s \<Rightarrow> 's) \<Rightarrow> ('s, 'a) go \<Rightarrow> ('s, 'a) go" where
  "go_defer cleanup m = (\<lambda>s. case m s of (r, s') \<Rightarrow> (r, cleanup s'))"

definition go_recover :: "(panic \<Rightarrow> 'a) \<Rightarrow> ('s, 'a) go \<Rightarrow> ('s, 'a) go" where
  "go_recover h m = (\<lambda>s. case m s of (Inl p, s') \<Rightarrow> (Inr (h p), s') | (Inr x, s') \<Rightarrow> (Inr x, s'))"

definition go_lift :: "panic + 'a \<Rightarrow> ('s, 'a) go" where
  "go_lift r = (\<lambda>s. (r, s))"

primrec go_each :: "('x \<Rightarrow> ('s, unit) go) \<Rightarrow> 'x list \<Rightarrow> ('s, unit) go" where
  "go_each f [] = go_return ()"
| "go_each f (x # xs) = go_then (f x) (go_each f xs)"

text \<open>Reading a pointer or an interface that may be nil.\<close>

definition go_deref :: "'a option \<Rightarrow> ('s, 'a) go" where
  "go_deref v = (case v of None \<Rightarrow> go_panic NilDereference | Some x \<Rightarrow> go_return x)"

lemma go_return_run [simp, go_simps]: "go_return x s = (Inr x, s)"
  by (simp add: go_return_def)

lemma go_panic_run [simp, go_simps]: "go_panic p s = (Inl p, s)"
  by (simp add: go_panic_def)

lemma go_modify_run [simp, go_simps]: "go_modify f s = (Inr (), f s)"
  by (simp add: go_modify_def)

lemma go_gets_run [simp, go_simps]: "go_gets f s = (Inr (f s), s)"
  by (simp add: go_gets_def)

lemma go_lift_run [simp, go_simps]: "go_lift r s = (r, s)"
  by (simp add: go_lift_def)

lemma go_bind_run [go_simps]:
  "go_bind m f s = (case m s of (Inl p, s') \<Rightarrow> (Inl p, s') | (Inr x, s') \<Rightarrow> f x s')"
  by (simp add: go_bind_def)

lemma go_bind_Inr [simp]: "m s = (Inr x, s') \<Longrightarrow> go_bind m f s = f x s'"
  by (simp add: go_bind_def)

lemma go_bind_Inl [simp]: "m s = (Inl p, s') \<Longrightarrow> go_bind m f s = (Inl p, s')"
  by (simp add: go_bind_def)

lemma go_then_Inr [simp]: "m s = (Inr x, s') \<Longrightarrow> go_then m n s = n s'"
  by (simp add: go_then_def)

lemma go_then_Inl [simp]: "m s = (Inl p, s') \<Longrightarrow> go_then m n s = (Inl p, s')"
  by (simp add: go_then_def)

lemma go_then_run [go_simps]:
  "go_then m n s = (case m s of (Inl p, s') \<Rightarrow> (Inl p, s') | (Inr x, s') \<Rightarrow> n s')"
  by (simp add: go_then_def go_bind_def)

lemma go_defer_run [go_simps]: "go_defer c m s = (fst (m s), c (snd (m s)))"
  by (simp add: go_defer_def case_prod_beta)

lemma go_when_run [simp, go_simps]: "go_when b m s = (if b then m s else (Inr (), s))"
  by (simp add: go_when_def)

lemma go_deref_Some [simp, go_simps]: "go_deref (Some x) s = (Inr x, s)"
  by (simp add: go_deref_def)

lemma go_deref_None [simp, go_simps]: "go_deref None s = (Inl NilDereference, s)"
  by (simp add: go_deref_def)

lemma go_recover_run [go_simps]:
  "go_recover h m s =
     (case m s of (Inl p, s') \<Rightarrow> (Inr (h p), s') | (Inr x, s') \<Rightarrow> (Inr x, s'))"
  by (simp add: go_recover_def)

text \<open>
  A loop whose body never panics and only folds the state is the fold of the body: the shape
  of the \<open>for range\<close> loops that register services.
\<close>

lemma go_each_fold_inv:
  assumes "\<And>x s. x \<in> set xs \<Longrightarrow> I s \<Longrightarrow> f x s = (Inr (), g x s) \<and> I (g x s)" and "I s"
  shows "go_each f xs s = (Inr (), fold g xs s) \<and> I (fold g xs s)"
  using assms
proof (induction xs arbitrary: s)
  case Nil
  then show ?case by simp
next
  case (Cons x xs)
  then have "f x s = (Inr (), g x s)" "I (g x s)" by auto
  with Cons show ?case by (simp add: go_then_run)
qed

section \<open>Computations whose result does not depend on the state\<close>

text \<open>\<open>yields m r\<close>: whatever the state, \<open>m\<close> ends with \<open>r\<close> (a result or a panic);
  its effects are left open. The rules compose such facts along the code.\<close>

definition yields :: "('s, 'a) go \<Rightarrow> panic + 'a \<Rightarrow> bool" where
  "yields m r \<longleftrightarrow> (\<forall>s. fst (m s) = r)"

lemma yieldsD: "yields m r \<Longrightarrow> fst (m s) = r"
  by (simp add: yields_def)

lemma yields_return: "yields (go_return x) (Inr x)"
  by (simp add: yields_def)

lemma yields_lift: "yields (go_lift r) r"
  by (simp add: yields_def)

lemma yields_bind: "yields m (Inr x) \<Longrightarrow> yields (f x) r \<Longrightarrow> yields (go_bind m f) r"
  by (auto simp: yields_def go_bind_def split: prod.split sum.split) (metis fst_conv sum.simps)+

lemma yields_then: "yields m (Inr x) \<Longrightarrow> yields n r \<Longrightarrow> yields (go_then m n) r"
  unfolding go_then_def by (rule yields_bind)

section \<open>Triples\<close>

text \<open>\<open>triple P m Q E\<close>: from a state in \<open>P\<close>, \<open>m\<close> either returns with \<open>Q\<close> of
  its result and the state, or panics in a state in \<open>E\<close>. The rules follow the code; the
  collection \<open>triple_rules\<close> is applied with \<open>intro\<close>.\<close>

named_theorems triple_rules \<open>one rule per operation of the monad\<close>

definition triple :: "('s \<Rightarrow> bool) \<Rightarrow> ('s, 'a) go \<Rightarrow> ('a \<Rightarrow> 's \<Rightarrow> bool) \<Rightarrow> ('s \<Rightarrow> bool) \<Rightarrow> bool" where
  "triple P m Q E \<longleftrightarrow>
     (\<forall>s. P s \<longrightarrow> (case m s of (Inl p, s') \<Rightarrow> E s' | (Inr x, s') \<Rightarrow> Q x s'))"

lemma triple_return [triple_rules]: "(\<And>s. P s \<Longrightarrow> Q x s) \<Longrightarrow> triple P (go_return x) Q E"
  by (simp add: triple_def)

lemma triple_panic [triple_rules]: "(\<And>s. P s \<Longrightarrow> E s) \<Longrightarrow> triple P (go_panic p) Q E"
  by (simp add: triple_def)

lemma triple_modify [triple_rules]: "(\<And>s. P s \<Longrightarrow> Q () (f s)) \<Longrightarrow> triple P (go_modify f) Q E"
  by (simp add: triple_def)

lemma triple_gets [triple_rules]: "(\<And>s. P s \<Longrightarrow> Q (f s) s) \<Longrightarrow> triple P (go_gets f) Q E"
  by (simp add: triple_def)

lemma triple_bind:
  "triple P m R E \<Longrightarrow> (\<And>x. triple (R x) (f x) Q E) \<Longrightarrow> triple P (go_bind m f) Q E"
  by (fastforce simp: triple_def go_bind_def split: prod.splits sum.splits)

lemma triple_then:
  "triple P m (\<lambda>_. R) E \<Longrightarrow> triple R n Q E \<Longrightarrow> triple P (go_then m n) Q E"
  unfolding go_then_def by (rule triple_bind)

lemma triple_cons:
  "triple P m Q E \<Longrightarrow> (\<And>s. P' s \<Longrightarrow> P s) \<Longrightarrow> (\<And>x s. Q x s \<Longrightarrow> Q' x s) \<Longrightarrow> (\<And>s. E s \<Longrightarrow> E' s) \<Longrightarrow>
     triple P' m Q' E'"
  by (fastforce simp: triple_def split: prod.splits sum.splits)

lemma triple_lift [triple_rules]:
  "(\<And>x s. r = Inr x \<Longrightarrow> P s \<Longrightarrow> Q x s) \<Longrightarrow> (\<And>s. P s \<Longrightarrow> E s) \<Longrightarrow> triple P (go_lift r) Q E"
  by (simp add: triple_def split: sum.split)

lemma triple_deref [triple_rules]:
  "(\<And>x s. v = Some x \<Longrightarrow> P s \<Longrightarrow> Q x s) \<Longrightarrow> (\<And>s. P s \<Longrightarrow> E s) \<Longrightarrow> triple P (go_deref v) Q E"
  by (cases v) (simp_all add: triple_def)

lemma triple_when [triple_rules]:
  "(b \<Longrightarrow> triple P m Q E) \<Longrightarrow> (\<And>s. \<not> b \<Longrightarrow> P s \<Longrightarrow> Q () s) \<Longrightarrow> triple P (go_when b m) Q E"
  by (cases b) (simp_all add: triple_def)

text \<open>A loop keeps what its body keeps.\<close>

lemma triple_each:
  assumes "\<And>x. x \<in> set xs \<Longrightarrow> triple I (f x) (\<lambda>_. I) E"
  shows "triple I (go_each f xs) (\<lambda>_. I) E"
  using assms
proof (induction xs)
  case Nil
  then show ?case by (simp add: triple_def)
next
  case (Cons x xs)
  then show ?case by (auto intro: triple_then)
qed

lemma tripleD: "triple P m (\<lambda>_. I) I \<Longrightarrow> P s \<Longrightarrow> I (snd (m s))"
  by (cases "m s") (auto simp: triple_def split: prod.splits sum.splits)

text \<open>The special case of an invariant that also survives panics.\<close>

named_theorems keeps_rules \<open>which operations keep an invariant\<close>

definition keeps :: "('s \<Rightarrow> bool) \<Rightarrow> ('s, 'a) go \<Rightarrow> bool" where
  "keeps I m \<longleftrightarrow> triple I m (\<lambda>_. I) I"

lemma keeps_bind [keeps_rules]: "keeps I m \<Longrightarrow> (\<And>x. keeps I (f x)) \<Longrightarrow> keeps I (go_bind m f)"
  unfolding keeps_def by (rule triple_bind)

lemma keeps_then [keeps_rules]: "keeps I m \<Longrightarrow> keeps I n \<Longrightarrow> keeps I (go_then m n)"
  unfolding keeps_def by (rule triple_then)

lemma keeps_simple [keeps_rules]:
  "keeps I (go_return x)" "keeps I (go_panic p)" "keeps I (go_gets f)" "keeps I (go_lift r)" "keeps I (go_deref v)"
  unfolding keeps_def by (auto intro: triple_rules)

lemma keeps_modify [keeps_rules]: "(\<And>s. I s \<Longrightarrow> I (f s)) \<Longrightarrow> keeps I (go_modify f)"
  unfolding keeps_def by (rule triple_modify)

lemma keeps_when [keeps_rules]: "(b \<Longrightarrow> keeps I m) \<Longrightarrow> keeps I (go_when b m)"
  unfolding keeps_def by (rule triple_when)

lemma keeps_each [keeps_rules]: "(\<And>x. x \<in> set xs \<Longrightarrow> keeps I (f x)) \<Longrightarrow> keeps I (go_each f xs)"
  unfolding keeps_def by (rule triple_each)

lemma keepsD: "keeps I m \<Longrightarrow> I s \<Longrightarrow> I (snd (m s))"
  unfolding keeps_def by (rule tripleD)

lemma triple_keeps_bind:
  assumes "keeps I m" "\<And>s. I s \<Longrightarrow> E s" "\<And>x. triple I (f x) Q E"
  shows "triple I (go_bind m f) Q E"
proof (rule triple_bind [where R = "\<lambda>_. I"])
  show "triple I m (\<lambda>_. I) E"
    by (rule triple_cons [OF assms(1) [unfolded keeps_def]]) (simp_all add: assms(2))
qed (rule assms(3))

lemma triple_keeps_then:
  "keeps I m \<Longrightarrow> (\<And>s. I s \<Longrightarrow> E s) \<Longrightarrow> triple I n Q E \<Longrightarrow> triple I (go_then m n) Q E"
  unfolding go_then_def by (rule triple_keeps_bind)

lemma triple_outcome:
  assumes "triple P m Q E" "P s"
  obtains (panics) p s' where "m s = (Inl p, s')" "E s'" | (returns) x s' where "m s = (Inr x, s')" "Q x s'"
  using assms by (cases "m s"; cases "fst (m s)") (auto simp: triple_def)

lemma keeps_True: "keeps (\<lambda>_. True) m"
  by (auto simp: keeps_def triple_def split: prod.split sum.split)

section \<open>Keyed tables\<close>

text \<open>
  The contract of a keyed table. The state may hold more than the table (the codec registry
  also logs the codecs handed to gRPC), so the laws are about lookups only.
\<close>

locale key_store =
  fixes lookup :: "'s \<Rightarrow> 'k \<Rightarrow> 'v option"
    and insert :: "'k \<Rightarrow> 'v \<Rightarrow> 's \<Rightarrow> 's"
  assumes lookup_insert_same: "lookup (insert k v s) k = Some v"
    and lookup_insert_other: "k \<noteq> k' \<Longrightarrow> lookup (insert k v s) k' = lookup s k'"
begin

lemma lookup_insert: "lookup (insert k v s) = (lookup s)(k \<mapsto> v)"
  by (rule ext) (simp add: lookup_insert_same lookup_insert_other)

text \<open>The table refines a finite sequence of map updates: the last entry of a key wins.\<close>

lemma lookup_fold:
  "lookup (fold (\<lambda>(k, v). insert k v) kvs s) = lookup s ++ map_of (rev kvs)"
  by (induction kvs arbitrary: s) (auto simp: lookup_insert map_add_def fun_eq_iff split: option.splits)

end

text \<open>A Go map itself is a keyed table.\<close>

definition map_store :: "'k \<Rightarrow> 'v \<Rightarrow> ('k \<rightharpoonup> 'v) \<Rightarrow> ('k \<rightharpoonup> 'v)" where
  "map_store k v m = m(k \<mapsto> v)"

interpretation gomap: key_store "\<lambda>m k. m k" map_store
  by unfold_locales (simp_all add: map_store_def)

end
