(* ===== verification/Go_Values.thy ===== *)
theory Go_Values
  imports Go_Monad
begin

text \<open>
  The values that cross the program's interfaces: Go's \<open>error\<close>, \<open>context.Context\<close>
  and \<open>interface{}\<close>, gRPC status codes, and the error-with-attachments struct of
  \<open>src/pkg/common/service.go\<close>.

  A context is the chain that \<open>context.WithValue\<close> and \<open>context.WithTimeout\<close> build;
  \<open>Value\<close> walks it from the newest entry, comparing keys with their dynamic type, and
  \<open>Deadline\<close> is the nearest timer. An interface value is one of the shapes the program
  inspects with a type assertion or with \<open>reflect\<close>; everything else is \<open>VObj\<close>.
\<close>

section \<open>Errors and status codes\<close>

text \<open>The status codes that \<open>src/pkg/tracing/server_interceptor.go\<close> names; a code is an
  unsigned 32-bit number, so there are others.\<close>

datatype Code =
    codes_OK | codes_Canceled | codes_Unknown | codes_InvalidArgument | codes_DeadlineExceeded
  | codes_NotFound | codes_AlreadyExists | codes_PermissionDenied | codes_ResourceExhausted
  | codes_FailedPrecondition | codes_Aborted | codes_OutOfRange | codes_Unimplemented
  | codes_Internal | codes_Unavailable | codes_DataLoss | codes_Unauthenticated
  | OtherCode u32

datatype goerror =
    PkgError string            \<comment> \<open>\<open>perrors.New\<close>, \<open>perrors.Errorf\<close>, \<open>errors.Errorf\<close>\<close>
  | StatusError Code string    \<comment> \<open>\<open>status.Errorf\<close>\<close>
  | EOF                        \<comment> \<open>\<open>io.EOF\<close>\<close>
  | ContextCanceled
  | ContextDeadlineExceeded
  | ForeignError nat           \<comment> \<open>any error made outside the repository\<close>

section \<open>Interface values and contexts\<close>

datatype ctxkey = TripleCtxKey string | StringKey string | ForeignKey nat

datatype goval =
    VNil
  | VString string
  | VBytes bytes
  | VStrings "string list"
  | VSlice "goval list"
  | VPtr nat
  | VObj nat
  | VMap "string \<Rightarrow> goval option"
  | VError goerror
  | VCtx Ctx
  | VErrAtt ErrorWithAttachment
and Ctx =
    Background
  | ValueCtx Ctx ctxkey goval
  | CancelCtx Ctx
  | TimerCtx Ctx int
and ErrorWithAttachment =
    ErrorWithAttachment (ewa_err: "goerror option") (ewa_attachments: "string \<Rightarrow> goval option")

type_synonym DubboAttachment = "string \<Rightarrow> goval option"

text \<open>What gRPC's \<open>StreamDesc\<close> says about a streaming method, to clients and to servers.\<close>

record StreamDesc =
  StreamName :: string
  ServerStreams :: bool
  ClientStreams :: bool

fun ctx_Value :: "Ctx \<Rightarrow> ctxkey \<Rightarrow> goval" where
  "ctx_Value Background k = VNil"
| "ctx_Value (ValueCtx c k' v) k = (if k' = k then v else ctx_Value c k)"
| "ctx_Value (CancelCtx c) k = ctx_Value c k"
| "ctx_Value (TimerCtx c _) k = ctx_Value c k"

fun ctx_Deadline :: "Ctx \<Rightarrow> int option" where
  "ctx_Deadline Background = None"
| "ctx_Deadline (ValueCtx c _ _) = ctx_Deadline c"
| "ctx_Deadline (CancelCtx c) = ctx_Deadline c"
| "ctx_Deadline (TimerCtx _ d) = Some d"

text \<open>
  \<open>context.WithTimeout(parent, d)\<close> at time \<open>now\<close> (nanoseconds): a parent whose own
  deadline is earlier is only wrapped in a cancellable context.
\<close>

definition WithTimeout :: "int \<Rightarrow> Ctx \<Rightarrow> i64 \<Rightarrow> Ctx" where
  "WithTimeout now parent d =
     (case ctx_Deadline parent of
        Some cur \<Rightarrow> if cur < now + sint d then CancelCtx parent
                    else TimerCtx parent (now + sint d)
      | None \<Rightarrow> TimerCtx parent (now + sint d))"

definition WithValue :: "ctxkey \<Rightarrow> goval \<Rightarrow> Ctx \<Rightarrow> Ctx" where
  "WithValue k v c = ValueCtx c k v"

text \<open>Type assertions: \<open>v.(string)\<close>, \<open>v.(context.Context)\<close>, \<open>v.(error)\<close>.\<close>

fun assert_string :: "goval \<Rightarrow> panic + string" where
  "assert_string (VString s) = Inr s"
| "assert_string _ = Inl BadTypeAssertion"

fun assert_context :: "goval \<Rightarrow> panic + Ctx" where
  "assert_context (VCtx c) = Inr c"
| "assert_context _ = Inl BadTypeAssertion"

fun assert_error :: "goval \<Rightarrow> panic + goerror" where
  "assert_error (VError e) = Inr e"
| "assert_error _ = Inl BadTypeAssertion"

text \<open>The two-result form \<open>v, ok := x.(T)\<close>.\<close>

fun as_bytes :: "goval \<Rightarrow> bytes option" where
  "as_bytes (VBytes b) = Some b"
| "as_bytes _ = None"

fun as_err_att :: "goval \<Rightarrow> ErrorWithAttachment option" where
  "as_err_att (VErrAtt e) = Some e"
| "as_err_att _ = None"

section \<open>\<open>common.ErrorWithAttachment\<close>\<close>

definition NewErrorWithAttachment :: "goerror option \<Rightarrow> DubboAttachment \<Rightarrow> ErrorWithAttachment" where
  "NewErrorWithAttachment err attachments = ErrorWithAttachment err attachments"

definition GetAttachments :: "ErrorWithAttachment \<Rightarrow> DubboAttachment" where
  "GetAttachments e = ewa_attachments e"

definition GetError :: "ErrorWithAttachment \<Rightarrow> goerror option" where
  "GetError e = ewa_err e"

text \<open>\<open>Error()\<close> calls the method of the wrapped error, whose text is the argument
  \<open>error_text\<close>; with no wrapped error the call panics.\<close>

definition ErrorWithAttachment_Error ::
    "(goerror \<Rightarrow> string) \<Rightarrow> ErrorWithAttachment \<Rightarrow> panic + string" where
  "ErrorWithAttachment_Error error_text e =
     (case ewa_err e of None \<Rightarrow> Inl NilDereference | Some err \<Rightarrow> Inr (error_text err))"

section \<open>Facts\<close>

lemma ewa_accessors [simp]:
  "GetError (NewErrorWithAttachment err att) = err"
  "GetAttachments (NewErrorWithAttachment err att) = att"
  by (simp_all add: GetError_def GetAttachments_def NewErrorWithAttachment_def)

lemma ctx_Value_WithTimeout [simp]: "ctx_Value (WithTimeout now c d) k = ctx_Value c k"
  by (simp add: WithTimeout_def split: option.split)

lemma ctx_Deadline_WithTimeout:
  "ctx_Deadline (WithTimeout now c d) =
     Some (case ctx_Deadline c of None \<Rightarrow> now + sint d | Some cur \<Rightarrow> min cur (now + sint d))"
  by (simp add: WithTimeout_def min_def split: option.split)

text \<open>The value of a key: an absent key reads as nil, so the table of non-nil entries is a
  keyed table.\<close>

definition ctx_string :: "ctxkey \<Rightarrow> string \<Rightarrow> Ctx \<Rightarrow> Ctx" where
  "ctx_string k v c = WithValue k (VString v) c"

definition ctx_lookup_string :: "Ctx \<Rightarrow> ctxkey \<Rightarrow> string option" where
  "ctx_lookup_string c k = (case ctx_Value c k of VString s \<Rightarrow> Some s | _ \<Rightarrow> None)"

interpretation ctxstore: key_store ctx_lookup_string ctx_string
  by unfold_locales (simp_all add: ctx_lookup_string_def ctx_string_def WithValue_def)

lemma ctx_lookup_string_iff:
  "ctx_lookup_string c k = Some s \<longleftrightarrow> ctx_Value c k = VString s"
  "ctx_lookup_string c k = None \<longleftrightarrow> (\<forall>s. ctx_Value c k \<noteq> VString s)"
  by (simp_all add: ctx_lookup_string_def split: goval.split)

end
