(* ===== verification/Constants.thy ===== *)
theory Constants
  imports Go_Values
begin

text \<open>
  The constants of \<open>src/pkg/common/constant/constant.go\<close>: protocol name, defaults, codec
  names, context keys and header names. A \<open>CodecType\<close> is a string type of its own in
  Go; the code converts it with \<open>string(...)\<close> wherever it is used as a map key.
\<close>

type_synonym CodecType = string

definition TRIPLE :: string where "TRIPLE = ''tri''"

definition DefaultHttp2ControllerReadBufferSize :: u32 where
  "DefaultHttp2ControllerReadBufferSize = 4096"

text \<open>\<open>time.Second * 3\<close>, in nanoseconds.\<close>

definition DefaultTimeout :: i64 where "DefaultTimeout = 3 * 1000000000"

definition DefaultListeningAddress :: string where
  "DefaultListeningAddress = ''127.0.0.1:20001''"

definition PBCodecName :: CodecType where "PBCodecName = ''protobuf''"
definition HessianCodecName :: CodecType where "HessianCodecName = ''hessian2''"
definition MsgPackCodecName :: CodecType where "MsgPackCodecName = ''msgpack''"
definition JSONMapStructCodec :: CodecType where "JSONMapStructCodec = ''jsonMapStruct''"

definition InterfaceKey :: ctxkey where "InterfaceKey = TripleCtxKey ''interface''"
definition CtxAttachmentKey :: ctxkey where "CtxAttachmentKey = TripleCtxKey ''attachment''"

definition TrailerKey :: string where "TrailerKey = ''Trailer''"

text \<open>Trailer fields.\<close>

definition TrailerKeyGrpcStatus :: string where "TrailerKeyGrpcStatus = ''grpc-status''"
definition TrailerKeyGrpcMessage :: string where "TrailerKeyGrpcMessage = ''grpc-message''"
definition TrailerKeyGrpcDetailsBin :: string where "TrailerKeyGrpcDetailsBin = ''grpc-status-details-bin''"
definition TrailerKeyTraceProtoBin :: string where "TrailerKeyTraceProtoBin = ''trace-proto-bin''"
definition TrailerKeyHttp2Status :: string where "TrailerKeyHttp2Status = ''http2-status''"
definition TrailerKeyHttp2Message :: string where "TrailerKeyHttp2Message = ''http2-message''"

text \<open>Header values and header fields.\<close>

definition TripleContentType :: string where "TripleContentType = ''application/grpc+proto''"
definition TripleUserAgent :: string where "TripleUserAgent = ''grpc-go/1.35.0-dev''"
definition TripleServiceVersion :: string where "TripleServiceVersion = ''tri-service-version''"
definition TripleAttachement :: string where "TripleAttachement = ''tri-attachment''"
definition TripleServiceGroup :: string where "TripleServiceGroup = ''tri-service-group''"
definition TripleRequestID :: string where "TripleRequestID = ''tri-req-id''"
definition TripleTraceID :: string where "TripleTraceID = ''tri-trace-traceid''"
definition TripleTraceRPCID :: string where "TripleTraceRPCID = ''tri-trace-rpcid''"
definition TripleTraceProtoBin :: string where "TripleTraceProtoBin = ''tri-trace-proto-bin''"
definition TripleUnitInfo :: string where "TripleUnitInfo = ''tri-unit-info''"

definition DefaultNumWorkers :: u32 where "DefaultNumWorkers = 720"

definition ProxyServiceKey :: string where "ProxyServiceKey = ''github.com.dubbogo.triple.proxy''"

lemmas codec_name_defs =
  PBCodecName_def HessianCodecName_def MsgPackCodecName_def JSONMapStructCodec_def

lemma codec_names_neq [simp]:
  "HessianCodecName \<noteq> PBCodecName" "MsgPackCodecName \<noteq> PBCodecName"
  "JSONMapStructCodec \<noteq> PBCodecName" "MsgPackCodecName \<noteq> HessianCodecName"
  "PBCodecName \<noteq> HessianCodecName" "PBCodecName \<noteq> MsgPackCodecName"
  "HessianCodecName \<noteq> MsgPackCodecName" "PBCodecName \<noteq> []"
  "JSONMapStructCodec \<noteq> HessianCodecName" "JSONMapStructCodec \<noteq> MsgPackCodecName"
  by (simp_all add: codec_name_defs)

text \<open>The names under which headers and trailers travel are pairwise different, so that none of
  them overwrites another in the metadata.\<close>

definition header_names :: "string list" where
  "header_names = [TripleServiceVersion, TripleAttachement, TripleServiceGroup, TripleRequestID, TripleTraceID,
     TripleTraceRPCID, TripleTraceProtoBin, TripleUnitInfo, TrailerKeyGrpcStatus, TrailerKeyGrpcMessage,
     TrailerKeyGrpcDetailsBin, TrailerKeyTraceProtoBin, TrailerKeyHttp2Status, TrailerKeyHttp2Message]"

lemmas header_name_defs =
  TripleServiceVersion_def TripleAttachement_def TripleServiceGroup_def TripleRequestID_def TripleTraceID_def
  TripleTraceRPCID_def TripleTraceProtoBin_def TripleUnitInfo_def TrailerKeyGrpcStatus_def
  TrailerKeyGrpcMessage_def TrailerKeyGrpcDetailsBin_def TrailerKeyTraceProtoBin_def TrailerKeyHttp2Status_def
  TrailerKeyHttp2Message_def

lemma header_names_distinct: "distinct header_names"
  by (simp add: header_names_def header_name_defs)

lemma default_nonzero [simp]:
  "DefaultTimeout \<noteq> 0" "DefaultHttp2ControllerReadBufferSize \<noteq> 0" "DefaultNumWorkers \<noteq> 0"
  "DefaultListeningAddress \<noteq> []" "TRIPLE \<noteq> []"
  by (simp_all add: DefaultTimeout_def DefaultHttp2ControllerReadBufferSize_def
      DefaultNumWorkers_def DefaultListeningAddress_def TRIPLE_def)

end
