(* ===== verification/Logger.thy ===== *)
theory Logger
  imports Constants
begin

text \<open>
  \<open>src/pkg/common/logger\<close>: the \<open>Logger\<close> interface, the \<open>LoggerWrapper\<close> that
  \<open>config.WithLogger\<close> puts around the user's logger, and the default logger's zap
  configuration.

  A logger is the zap logger built from a configuration, a logger of the user, or a wrapper
  around another logger, which may be nil. \<open>log_to\<close> dispatches one of the interface's
  eight methods: the logger that finally receives the call and the call it receives, or the
  panic of a method call on a nil interface. \<open>log_stmt\<close> is the statement
  \<open>opt.Logger.Debugf(...)\<close> of the other components; it appends what was received to the
  \<open>logs\<close> of the world.
\<close>

datatype log_call =
    Info "goval list" | Warn "goval list" | Error "goval list" | Debug "goval list"
  | Infof string "goval list" | Warnf string "goval list"
  | Errorf string "goval list" | Debugf string "goval list"

datatype zap_encoder =
  CapitalColorLevelEncoder | ISO8601TimeEncoder | SecondsDurationEncoder | ShortCallerEncoder

datatype zap_level = DebugLevel | InfoLevel | WarnLevel | ErrorLevel

record EncoderConfig =
  TimeKey :: string
  LevelKey :: string
  NameKey :: string
  CallerKey :: string
  MessageKey :: string
  StacktraceKey :: string
  EncodeLevel :: zap_encoder
  EncodeTime :: zap_encoder
  EncodeDuration :: zap_encoder
  EncodeCaller :: zap_encoder

record zap_Config =
  Level :: zap_level
  Development :: bool
  Encoding :: string
  EncoderCfg :: EncoderConfig
  OutputPaths :: "string list"
  ErrorOutputPaths :: "string list"

text \<open>\<open>ZapLogger cfg skip\<close> is \<open>cfg.Build(zap.AddCallerSkip(skip))\<close> followed by
  \<open>Sugar()\<close>.\<close>

datatype logger = ZapLogger zap_Config nat | UserLogger nat | LoggerWrapper "logger option"

definition NewLoggerWrapper :: "logger option \<Rightarrow> logger" where
  "NewLoggerWrapper l = LoggerWrapper l"

fun log_to :: "logger option \<Rightarrow> log_call \<Rightarrow> panic + (logger \<times> log_call)" where
  "log_to None c = Inl NilDereference"
| "log_to (Some (LoggerWrapper l)) c =
     (case c of
        Info args \<Rightarrow> log_to l (Info args)
      | Warn args \<Rightarrow> log_to l (Warn args)
      | Error args \<Rightarrow> log_to l (Error args)
      | Debug args \<Rightarrow> log_to l (Debug args)
      | Infof fmt args \<Rightarrow> log_to l (Infof fmt args)
      | Warnf fmt args \<Rightarrow> log_to l (Warnf fmt args)
      | Errorf fmt args \<Rightarrow> log_to l (Errorf fmt args)
      | Debugf fmt args \<Rightarrow> log_to l (Debugf fmt args))"
| "log_to (Some l) c = Inr (l, c)"

definition GetDefaultLogger :: logger where
  "GetDefaultLogger =
     ZapLogger
       \<lparr> Level = DebugLevel, Development = False, Encoding = ''console'',
         EncoderCfg =
           \<lparr> TimeKey = ''time'', LevelKey = ''level'', NameKey = ''logger'',
             CallerKey = ''caller'', MessageKey = ''message'', StacktraceKey = ''stacktrace'',
             EncodeLevel = CapitalColorLevelEncoder, EncodeTime = ISO8601TimeEncoder,
             EncodeDuration = SecondsDurationEncoder, EncodeCaller = ShortCallerEncoder \<rparr>,
         OutputPaths = [''stderr''], ErrorOutputPaths = [''stderr''] \<rparr>
       1"

text \<open>The part of the world every component shares: what the loggers received.\<close>

record world =
  logs :: "(logger \<times> log_call) list"

definition log_stmt :: "logger option \<Rightarrow> log_call \<Rightarrow> ('a world_scheme, unit) go" where
  "log_stmt l c =
     go_bind (go_lift (log_to l c)) (\<lambda>rc. go_modify (\<lambda>w. w\<lparr>logs := logs w @ [rc]\<rparr>))"

text \<open>A logger is usable when no wrapper in its chain ends in nil.\<close>

fun usable :: "logger option \<Rightarrow> bool" where
  "usable None = False"
| "usable (Some (LoggerWrapper l)) = usable l"
| "usable (Some _) = True"

text \<open>The logger at the end of the chain.\<close>

fun log_sink :: "logger option \<Rightarrow> logger option" where
  "log_sink None = None"
| "log_sink (Some (LoggerWrapper l)) = log_sink l"
| "log_sink (Some l) = Some l"

section \<open>Facts\<close>

lemma log_to_wrapper: "log_to (Some (LoggerWrapper l)) c = log_to l c"
  by (cases c) simp_all

declare log_to.simps(2) [simp del]
declare log_to_wrapper [simp]

lemma log_to_sink:
  "log_to l c = (case log_sink l of None \<Rightarrow> Inl NilDereference | Some k \<Rightarrow> Inr (k, c))"
  by (induction l rule: usable.induct) simp_all

lemma usable_sink: "usable l \<longleftrightarrow> (\<exists>k. log_sink l = Some k)"
  by (induction l rule: usable.induct) simp_all

lemma usable_default [simp]: "usable (Some GetDefaultLogger)"
  by (simp add: GetDefaultLogger_def)

lemma log_stmt_usable:
  "log_sink l = Some k \<Longrightarrow> log_stmt l c w = (Inr (), w\<lparr>logs := logs w @ [(k, c)]\<rparr>)"
  by (simp add: log_stmt_def log_to_sink go_simps)

lemma log_stmt_unusable:
  "log_sink l = None \<Longrightarrow> log_stmt l c w = (Inl NilDereference, w)"
  by (simp add: log_stmt_def log_to_sink go_simps)

text \<open>Every method of \<open>LoggerWrapper\<close> hands the call on unchanged: through any chain of
  wrappers, each of the eight logging methods reaches the innermost logger with the same
  method, format string and arguments, and the call panics exactly when the chain ends in a
  nil logger.\<close>

theorem log_to_reaches_innermost:
  "log_to l c = (if usable l then Inr (the (log_sink l), c) else Inl NilDereference)"
  by (auto simp: log_to_sink usable_sink split: option.split)

end
