(* ===== verification/Trace_Base.thy ===== *)
theory Trace_Base
  imports Logger "HOL-Library.AList" "HOL-Library.Multiset"
begin

text \<open>
  The parts of \<open>src/pkg/tracing\<close> that the interceptors share: the internal options, the
  metadata carrier, the classification of errors, the span tags, and the injection and
  extraction of span contexts.

  gRPC's \<open>metadata\<close> and \<open>status\<close> packages and the OpenTracing library are not part of
  the repository; they are the fields of the record \<open>tenv\<close>, an argument of every definition
  that calls them. What this code does to spans is recorded, call by call, in the
  \<open>trace\<close> of the state \<open>tw\<close>; a span is named by the number of the
  \<open>StartSpan\<close> call that made it. The rest of the process is the field \<open>ext\<close>, which
  handlers, invokers and decorators change in any way they like.
\<close>

section \<open>Outside the repository\<close>

text \<open>\<open>metadata.MD\<close> is a map from keys to lists of values. The list order of this
  association list is the order in which a \<open>range\<close> loop happens to visit the map; Go leaves
  it open, and the statements hold for every order.\<close>

type_synonym MD = "(string \<times> string list) list"

datatype spanctx = SpanContext nat

record tenv =
  FromError :: "goerror option \<Rightarrow> Code \<times> bool"
  error_text :: "goerror \<Rightarrow> string"
  FromIncomingContext :: "Ctx \<Rightarrow> MD option"
  FromOutgoingContext :: "Ctx \<Rightarrow> MD option"
  NewOutgoingContext :: "Ctx \<Rightarrow> MD \<Rightarrow> Ctx"
  SpanFromContext :: "Ctx \<Rightarrow> nat option"
  ContextWithSpan :: "Ctx \<Rightarrow> nat \<Rightarrow> Ctx"
  span_Context :: "nat \<Rightarrow> spanctx"
  tracer_Extract :: "(string \<times> string) list \<Rightarrow> spanctx option \<times> goerror option"
  tracer_Inject :: "spanctx \<Rightarrow> (string \<times> string) list \<times> goerror option"

text \<open>
  \<open>tracer_Extract\<close> is given the key-value pairs that \<open>ForeachKey\<close> hands to the tracer's
  callback, in that order; \<open>tracer_Inject\<close> returns the calls of \<open>Set\<close> that the tracer
  makes on the carrier, in order, and its error.

  The documented behaviour the properties below use, as named hypotheses:
\<close>

definition status_contract :: "tenv \<Rightarrow> bool" where
  "status_contract env \<longleftrightarrow>
     FromError env None = (codes_OK, True) \<and>
     (\<forall>c m. c \<noteq> codes_OK \<longrightarrow> FromError env (Some (StatusError c m)) = (c, True)) \<and>
     (\<forall>m. FromError env (Some (PkgError m)) = (codes_Unknown, False))"

definition outgoing_contract :: "tenv \<Rightarrow> bool" where
  "outgoing_contract env \<longleftrightarrow>
     (\<forall>c md. FromOutgoingContext env (NewOutgoingContext env c md) = Some md)"

section \<open>Spans\<close>

type_synonym Class = string

datatype tagval = TagCode Code | TagClass Class

datatype span_opt =
    RPCServerOption "spanctx option"
  | ChildOf "spanctx option"
  | SpanKindRPCClient
  | ComponentTag string

datatype log_field = LogObject string goval | LogString string string | LogError goerror

datatype span_event =
    StartSpan nat string "span_opt list"
  | SetTag nat string tagval
  | ExtErrorSet nat bool
  | LogFields nat "log_field list"
  | Decorate nat Ctx string goval goval "goerror option"
  | FinishSpan nat
  | CallNext Ctx goval

record 'w tw =
  trace :: "span_event list"
  next_span :: nat
  ext :: 'w

definition emit :: "span_event \<Rightarrow> ('w tw, unit) go" where
  "emit e = go_modify (\<lambda>s. s\<lparr>trace := trace s @ [e]\<rparr>)"

definition tracer_StartSpan :: "string \<Rightarrow> span_opt list \<Rightarrow> ('w tw, nat) go" where
  "tracer_StartSpan name opts =
     (\<lambda>s. (Inr (next_span s),
           s\<lparr>trace := trace s @ [StartSpan (next_span s) name opts],
             next_span := Suc (next_span s)\<rparr>))"

text \<open>Running code outside the interceptors: the call is an event, its effect is on
  \<open>ext\<close>.\<close>

definition run_ext :: "span_event \<Rightarrow> ('w, 'a) go \<Rightarrow> ('w tw, 'a) go" where
  "run_ext e m =
     (\<lambda>s. case m (ext s) of (r, w') \<Rightarrow> (r, s\<lparr>trace := trace s @ [e], ext := w'\<rparr>))"

definition finish_span :: "nat \<Rightarrow> 'w tw \<Rightarrow> 'w tw" where
  "finish_span sid s = s\<lparr>trace := trace s @ [FinishSpan sid]\<rparr>"

definition gRPCComponentTag :: span_opt where
  "gRPCComponentTag = ComponentTag ''gRPC''"

section \<open>Interceptor options\<close>

type_synonym SpanInclusionFunc = "spanctx option \<Rightarrow> string \<Rightarrow> goval \<Rightarrow> goval \<Rightarrow> bool"

type_synonym 'w SpanDecoratorFunc =
  "Ctx \<Rightarrow> nat \<Rightarrow> string \<Rightarrow> goval \<Rightarrow> goval \<Rightarrow> goerror option \<Rightarrow> ('w, unit) go"

record 'w options =
  logPayloads :: bool
  decorator :: "'w SpanDecoratorFunc option"
  inclusionFunc :: "SpanInclusionFunc option"

type_synonym 'w tOption = "'w options \<Rightarrow> 'w options"

definition newOptions :: "'w options" where
  "newOptions = \<lparr> logPayloads = False, decorator = None, inclusionFunc = None \<rparr>"

definition options_apply :: "'w tOption list \<Rightarrow> 'w options \<Rightarrow> 'w options" where
  "options_apply opts o0 = fold (\<lambda>opt acc. opt acc) opts o0"

definition LogPayloads :: "'w tOption" where
  "LogPayloads opts = opts\<lparr>logPayloads := True\<rparr>"

definition IncludingSpans :: "SpanInclusionFunc \<Rightarrow> 'w tOption" where
  "IncludingSpans f opts = opts\<lparr>inclusionFunc := Some f\<rparr>"

definition SpanDecorator :: "'w SpanDecoratorFunc \<Rightarrow> 'w tOption" where
  "SpanDecorator f opts = opts\<lparr>decorator := Some f\<rparr>"

text \<open>\<open>otgrpcOpts.inclusionFunc != nil \<and> !otgrpcOpts.inclusionFunc(...)\<close>\<close>

definition excluded :: "'w options \<Rightarrow> spanctx option \<Rightarrow> string \<Rightarrow> goval \<Rightarrow> goval \<Rightarrow> bool" where
  "excluded o0 parent method req resp \<longleftrightarrow>
     (case inclusionFunc o0 of None \<Rightarrow> False | Some f \<Rightarrow> \<not> f parent method req resp)"

definition run_decorator ::
    "'w options \<Rightarrow> Ctx \<Rightarrow> nat \<Rightarrow> string \<Rightarrow> goval \<Rightarrow> goval \<Rightarrow> goerror option \<Rightarrow> ('w tw, unit) go" where
  "run_decorator o0 ctx sid method req resp err =
     (case decorator o0 of
        None \<Rightarrow> go_return ()
      | Some d \<Rightarrow> run_ext (Decorate sid ctx method req resp err) (d ctx sid method req resp err))"

section \<open>The metadata carrier\<close>

text \<open>\<open>strings.ToLower\<close> on ASCII, which is what header keys are made of.\<close>

definition lower_char :: "char \<Rightarrow> char" where
  "lower_char c = (if 65 \<le> (of_char c :: nat) \<and> (of_char c :: nat) \<le> 90
     then char_of ((of_char c :: nat) + 32) else c)"

definition ToLower :: "string \<Rightarrow> string" where
  "ToLower s = map lower_char s"

definition md_get :: "MD \<Rightarrow> string \<Rightarrow> string list" where
  "md_get md k = (case map_of md k of None \<Rightarrow> [] | Some vs \<Rightarrow> vs)"

definition metadata_Set :: "string \<Rightarrow> string \<Rightarrow> MD \<Rightarrow> MD" where
  "metadata_Set key val md =
     (let k = ToLower key in AList.update k (md_get md k @ [val]) md)"

primrec foreach_val ::
    "(string \<Rightarrow> string \<Rightarrow> ('s, goerror option) go) \<Rightarrow> string \<Rightarrow> string list \<Rightarrow> ('s, goerror option) go" where
  "foreach_val handler k [] = go_return None"
| "foreach_val handler k (v # vs) =
     go_bind (handler k v) (\<lambda>err. if err \<noteq> None then go_return err else foreach_val handler k vs)"

primrec ForeachKey ::
    "(string \<Rightarrow> string \<Rightarrow> ('s, goerror option) go) \<Rightarrow> MD \<Rightarrow> ('s, goerror option) go" where
  "ForeachKey handler [] = go_return None"
| "ForeachKey handler (kvs # md) =
     go_bind (foreach_val handler (fst kvs) (snd kvs)) (\<lambda>err.
       if err \<noteq> None then go_return err else ForeachKey handler md)"

text \<open>What a callback that never fails sees.\<close>

definition carrier_pairs :: "MD \<Rightarrow> (string \<times> string) list" where
  "carrier_pairs md =
     snd (ForeachKey (\<lambda>k v. go_bind (go_modify (\<lambda>acc. acc @ [(k, v)])) (\<lambda>_. go_return None)) md [])"

definition extractSpanContext :: "tenv \<Rightarrow> Ctx \<Rightarrow> spanctx option \<times> goerror option" where
  "extractSpanContext env ctx =
     (let md = (case FromIncomingContext env ctx of None \<Rightarrow> [] | Some md \<Rightarrow> md)
      in tracer_Extract env (carrier_pairs md))"

definition injectSpanContext :: "tenv \<Rightarrow> Ctx \<Rightarrow> nat \<Rightarrow> ('w tw, Ctx) go" where
  "injectSpanContext env ctx clientSpan =
     (let md = (case FromOutgoingContext env ctx of None \<Rightarrow> [] | Some md \<Rightarrow> md);
          (sets, err) = tracer_Inject env (span_Context env clientSpan);
          md' = fold (\<lambda>(k, v). metadata_Set k v) sets md
      in go_then
           (case err of
              None \<Rightarrow> go_return ()
            | Some e \<Rightarrow> emit (LogFields clientSpan
                [LogString ''event'' ''Tracer.Inject() failed'', LogError e]))
           (go_return (NewOutgoingContext env ctx md')))"

section \<open>Classes of errors and span tags\<close>

definition Unknown :: Class where "Unknown = ''0xx''"
definition Success :: Class where "Success = ''2xx''"
definition ClientError :: Class where "ClientError = ''4xx''"
definition ServerError :: Class where "ServerError = ''5xx''"

definition ErrorClass :: "tenv \<Rightarrow> goerror option \<Rightarrow> Class" where
  "ErrorClass env err =
     (case FromError env err of (code, ok) \<Rightarrow>
        if ok then
          (case code of
             codes_OK \<Rightarrow> Success | codes_Canceled \<Rightarrow> Success
           | codes_InvalidArgument \<Rightarrow> ClientError | codes_NotFound \<Rightarrow> ClientError
           | codes_AlreadyExists \<Rightarrow> ClientError | codes_PermissionDenied \<Rightarrow> ClientError
           | codes_Unauthenticated \<Rightarrow> ClientError | codes_FailedPrecondition \<Rightarrow> ClientError
           | codes_OutOfRange \<Rightarrow> ClientError
           | codes_DeadlineExceeded \<Rightarrow> ServerError | codes_ResourceExhausted \<Rightarrow> ServerError
           | codes_Aborted \<Rightarrow> ServerError | codes_Unimplemented \<Rightarrow> ServerError
           | codes_Internal \<Rightarrow> ServerError | codes_Unavailable \<Rightarrow> ServerError
           | codes_DataLoss \<Rightarrow> ServerError
           | codes_Unknown \<Rightarrow> Unknown
           | _ \<Rightarrow> Unknown)
        else Unknown)"

definition SetSpanTags :: "tenv \<Rightarrow> nat \<Rightarrow> goerror option \<Rightarrow> bool \<Rightarrow> ('w tw, unit) go" where
  "SetSpanTags env sid err client =
     (let c = ErrorClass env err;
          code = (case FromError env err of (scode, ok) \<Rightarrow> if ok then scode else codes_Unknown)
      in go_then (emit (SetTag sid ''response_code'' (TagCode code)))
        (go_then (emit (SetTag sid ''response_class'' (TagClass c)))
        (if err = None then go_return ()
         else go_when (c \<noteq> Success \<and> (client \<or> c = ServerError)) (emit (ExtErrorSet sid True)))))"

text \<open>\<open>span.LogFields(log.String("event", "error"), log.String("message", err.Error()))\<close>\<close>

definition log_error_event :: "tenv \<Rightarrow> nat \<Rightarrow> goerror \<Rightarrow> ('w tw, unit) go" where
  "log_error_event env sid e =
     emit (LogFields sid [LogString ''event'' ''error'', LogString ''message'' (error_text env e)])"

section \<open>Facts: one call at a time\<close>

lemma emit_run [simp, run_simps]: "emit e s = (Inr (), s\<lparr>trace := trace s @ [e]\<rparr>)"
  by (simp add: emit_def)

lemma run_ext_run [run_simps]:
  "run_ext e m s = (fst (m (ext s)), s\<lparr>trace := trace s @ [e], ext := snd (m (ext s))\<rparr>)"
  by (simp add: run_ext_def case_prod_beta)

lemma tracer_StartSpan_run [simp, run_simps]:
  "tracer_StartSpan name opts s =
     (Inr (next_span s), s\<lparr>trace := trace s @ [StartSpan (next_span s) name opts],
       next_span := Suc (next_span s)\<rparr>)"
  by (simp add: tracer_StartSpan_def)

lemma finish_span_fields [simp]:
  "trace (finish_span sid s) = trace s @ [FinishSpan sid]"
  "ext (finish_span sid s) = ext s" "next_span (finish_span sid s) = next_span s"
  by (simp_all add: finish_span_def)

text \<open>The tags of an outcome, as the events they add.\<close>

definition tag_events :: "tenv \<Rightarrow> nat \<Rightarrow> goerror option \<Rightarrow> bool \<Rightarrow> span_event list" where
  "tag_events env sid err client =
     [SetTag sid ''response_code''
        (TagCode (if snd (FromError env err) then fst (FromError env err) else codes_Unknown)),
      SetTag sid ''response_class'' (TagClass (ErrorClass env err))] @
     (if err \<noteq> None \<and> ErrorClass env err \<noteq> Success \<and> (client \<or> ErrorClass env err = ServerError)
      then [ExtErrorSet sid True] else [])"

lemma SetSpanTags_run [simp, run_simps]:
  "SetSpanTags env sid err client s =
     (Inr (), s\<lparr>trace := trace s @ tag_events env sid err client\<rparr>)"
  by (simp add: SetSpanTags_def tag_events_def Let_def case_prod_beta go_then_run)

lemma log_error_event_run [simp, run_simps]:
  "log_error_event env sid e s = (Inr (), s\<lparr>trace := trace s @
     [LogFields sid [LogString ''event'' ''error'', LogString ''message'' (error_text env e)]]\<rparr>)"
  by (simp add: log_error_event_def)

lemma run_decorator_run [run_simps]:
  "run_decorator o0 ctx sid method req resp err s =
     (case decorator o0 of
        None \<Rightarrow> (Inr (), s)
      | Some d \<Rightarrow> (fst (d ctx sid method req resp err (ext s)),
          s\<lparr>trace := trace s @ [Decorate sid ctx method req resp err],
            ext := snd (d ctx sid method req resp err (ext s))\<rparr>))"
  by (simp add: run_decorator_def run_simps split: option.split)

lemma options_apply_Nil [simp]: "options_apply [] o0 = o0"
  by (simp add: options_apply_def)

lemma newOptions_fields [simp]:
  "logPayloads newOptions = False" "decorator newOptions = None" "inclusionFunc newOptions = None"
  by (simp_all add: newOptions_def)

lemma not_excluded_default [simp]: "\<not> excluded newOptions p m req resp"
  by (simp add: excluded_def)

text \<open>What the error path of an interceptor adds to a span.\<close>

definition failure_events :: "tenv \<Rightarrow> nat \<Rightarrow> goerror option \<Rightarrow> bool \<Rightarrow> span_event list" where
  "failure_events env sid err client =
     (case err of None \<Rightarrow> []
      | Some e \<Rightarrow> tag_events env sid err client @
          [LogFields sid [LogString ''event'' ''error'', LogString ''message'' (error_text env e)]])"

lemmas class_defs = Unknown_def Success_def ClientError_def ServerError_def

lemma classes_distinct [simp]:
  "Success \<noteq> Unknown" "Success \<noteq> ClientError" "Success \<noteq> ServerError"
  "Unknown \<noteq> Success" "ClientError \<noteq> Success" "ServerError \<noteq> Success"
  "Unknown \<noteq> ServerError" "ServerError \<noteq> Unknown" "ClientError \<noteq> ServerError"
  "ServerError \<noteq> ClientError" "Unknown \<noteq> ClientError" "ClientError \<noteq> Unknown"
  by (simp_all add: class_defs)

section \<open>Facts: the carrier\<close>

lemma lower_char_idem [simp]: "lower_char (lower_char c) = lower_char c"
proof (cases "65 \<le> (of_char c :: nat) \<and> (of_char c :: nat) \<le> 90")
  case True
  then have "(of_char c :: nat) + 32 < 256" by simp
  with True show ?thesis by (simp add: lower_char_def)
next
  case False
  then have "lower_char c = c" by (auto simp: lower_char_def)
  then show ?thesis by simp
qed

lemma ToLower_idem [simp]: "ToLower (ToLower s) = ToLower s"
  by (simp add: ToLower_def)

text \<open>The library's own header and trailer names are in lower case already, so the carrier stores them as
  they are.\<close>

lemma header_names_lower: "map ToLower header_names = header_names"
  by code_simp

text \<open>The nested loops visit the pairs one after the other and stop at the first error.\<close>

fun visit :: "(string \<Rightarrow> string \<Rightarrow> ('s, goerror option) go) \<Rightarrow> (string \<times> string) list \<Rightarrow> ('s, goerror option) go" where
  "visit h [] = go_return None"
| "visit h ((k, v) # ps) =
     go_bind (h k v) (\<lambda>err. if err \<noteq> None then go_return err else visit h ps)"

definition md_pairs :: "MD \<Rightarrow> (string \<times> string) list" where
  "md_pairs md = concat (map (\<lambda>(k, vs). map (Pair k) vs) md)"

lemma md_pairs_Nil [simp]: "md_pairs [] = []"
  by (simp add: md_pairs_def)

lemma md_pairs_Cons [simp]: "md_pairs ((k, vs) # md) = map (Pair k) vs @ md_pairs md"
  by (simp add: md_pairs_def)

lemma visit_append:
  "visit h (ps @ qs) = go_bind (visit h ps) (\<lambda>err. if err \<noteq> None then go_return err else visit h qs)"
proof (induction ps)
  case Nil
  then show ?case by (rule ext) (simp add: go_bind_run)
next
  case (Cons p ps)
  then show ?case
    by (cases p) (auto simp: fun_eq_iff go_bind_run split: prod.splits sum.splits)
qed

lemma foreach_val_visit: "foreach_val h k vs = visit h (map (Pair k) vs)"
  by (induction vs) (simp_all cong: if_cong)

lemma ForeachKey_visit: "ForeachKey h md = visit h (md_pairs md)"
proof (induction md)
  case Nil
  then show ?case by simp
next
  case (Cons kvs md)
  then show ?case
    by (cases kvs) (simp add: foreach_val_visit visit_append cong: if_cong)
qed

lemma carrier_pairs_eq: "carrier_pairs md = md_pairs md"
proof -
  have "visit (\<lambda>k v. go_bind (go_modify (\<lambda>acc. acc @ [(k, v)])) (\<lambda>_. go_return None)) ps acc =
      (Inr None, acc @ ps)" for ps acc
    by (induction ps arbitrary: acc) (auto simp: go_bind_run)
  then show ?thesis
    by (simp add: carrier_pairs_def ForeachKey_visit)
qed

lemma md_get_update: "md_get (AList.update k vs md) k' = (if k' = k then vs else md_get md k')"
  by (simp add: md_get_def AList.update_conv')

lemma md_get_metadata_Set:
  "md_get (metadata_Set key val md) k =
     (if k = ToLower key then md_get md k @ [val] else md_get md k)"
  by (simp add: metadata_Set_def Let_def md_get_update)

text \<open>The values the injected calls add under one key, in order.\<close>

definition added_values :: "(string \<times> string) list \<Rightarrow> string \<Rightarrow> string list" where
  "added_values sets k = map snd (filter (\<lambda>(key, v). ToLower key = k) sets)"

lemma md_get_fold_Set:
  "md_get (fold (\<lambda>(k, v). metadata_Set k v) sets md) k = md_get md k @ added_values sets k"
  by (induction sets arbitrary: md)
    (auto simp: md_get_metadata_Set added_values_def split: prod.splits)

definition md_wf :: "MD \<Rightarrow> bool" where
  "md_wf md \<longleftrightarrow> distinct (map fst md) \<and> (\<forall>k \<in> set (map fst md). ToLower k = k)"

lemma md_wf_Set: "md_wf md \<Longrightarrow> md_wf (metadata_Set k v md)"
  by (auto simp: md_wf_def metadata_Set_def Let_def AList.distinct_update dom_update)

lemma md_wf_fold_Set: "md_wf md \<Longrightarrow> md_wf (fold (\<lambda>(k, v). metadata_Set k v) sets md)"
  by (induction sets arbitrary: md) (auto simp: md_wf_Set)

lemma md_wf_Nil [simp]: "md_wf []"
  by (simp add: md_wf_def)

text \<open>With distinct keys, what the carrier shows under a key is what the map holds there,
  whatever the iteration order.\<close>

lemma values_of_pairs:
  assumes "distinct (map fst md)"
  shows "map snd (filter (\<lambda>(k', v). k' = k) (md_pairs md)) = md_get md k"
  using assms
proof (induction md)
  case Nil
  then show ?case by (simp add: md_get_def)
next
  case (Cons kvs md)
  obtain k0 vs where kvs: "kvs = (k0, vs)" by (cases kvs)
  have head: "map snd (filter (\<lambda>(k', v). k' = k) (map (Pair k0) vs)) = (if k0 = k then vs else [])"
    by (simp add: comp_def filter_map)
  have none: "md_get md k0 = []"
    using Cons.prems by (simp add: kvs md_get_def map_of_eq_None_iff [THEN iffD2])
  show ?case
    using Cons head none by (auto simp: kvs md_get_def split: option.splits)
qed

section \<open>The life of a span\<close>

fun on_span :: "span_event \<Rightarrow> nat option" where
  "on_span (StartSpan i _ _) = Some i"
| "on_span (SetTag i _ _) = Some i"
| "on_span (ExtErrorSet i _) = Some i"
| "on_span (LogFields i _) = Some i"
| "on_span (Decorate i _ _ _ _ _) = Some i"
| "on_span (FinishSpan i) = Some i"
| "on_span (CallNext _ _) = None"

fun is_start :: "span_event \<Rightarrow> bool" where
  "is_start (StartSpan _ _ _) = True"
| "is_start _ = False"

fun is_finish :: "span_event \<Rightarrow> bool" where
  "is_finish (FinishSpan _) = True"
| "is_finish _ = False"

text \<open>Events that may happen between the start and the finish of span \<open>sid\<close>.\<close>

definition within :: "nat \<Rightarrow> span_event \<Rightarrow> bool" where
  "within sid e \<longleftrightarrow> \<not> is_start e \<and> \<not> is_finish e \<and> (on_span e = None \<or> on_span e = Some sid)"

definition span_events :: "nat \<Rightarrow> span_event list \<Rightarrow> span_event list" where
  "span_events sid tr = filter (\<lambda>e. on_span e = Some sid) tr"

text \<open>Started once, finished once, and finished last.\<close>

definition complete_life :: "nat \<Rightarrow> span_event list \<Rightarrow> bool" where
  "complete_life sid tr \<longleftrightarrow>
     (case span_events sid tr of
        [] \<Rightarrow> False
      | e # es \<Rightarrow> is_start e \<and> es \<noteq> [] \<and> is_finish (last es) \<and>
          list_all (\<lambda>x. \<not> is_start x \<and> \<not> is_finish x) (butlast es))"

text \<open>Every span that was ever started has a complete life, and no event names another.\<close>

definition spans_complete :: "'w tw \<Rightarrow> bool" where
  "spans_complete s \<longleftrightarrow>
     list_all (\<lambda>sid. complete_life sid (trace s)) [0 ..< next_span s] \<and>
     list_all (\<lambda>e. case on_span e of None \<Rightarrow> True | Some sid \<Rightarrow> sid < next_span s) (trace s)"

text \<open>Code that runs inside one span: it appends events of that span only.\<close>

definition inside :: "nat \<Rightarrow> ('w tw, 'a) go \<Rightarrow> bool" where
  "inside sid m \<longleftrightarrow>
     (\<forall>s. \<exists>mid. trace (snd (m s)) = trace s @ mid \<and> list_all (within sid) mid \<and>
        next_span (snd (m s)) = next_span s)"

lemma insideD:
  "inside sid m \<Longrightarrow>
     \<exists>mid. trace (snd (m s)) = trace s @ mid \<and> list_all (within sid) mid \<and>
       next_span (snd (m s)) = next_span s"
  by (simp add: inside_def)

lemma inside_return [intro, simp]: "inside sid (go_return x)"
  by (simp add: inside_def)

lemma inside_emit [intro]: "within sid e \<Longrightarrow> inside sid (emit e)"
  by (simp add: inside_def)

lemma inside_run_ext [intro]: "within sid e \<Longrightarrow> inside sid (run_ext e m)"
  by (simp add: inside_def run_simps)

lemma inside_bind [intro]:
  assumes "inside sid m" and "\<And>x. inside sid (f x)"
  shows "inside sid (go_bind m f)"
  unfolding inside_def
proof
  fix s
  obtain r s1 where m: "m s = (r, s1)" by (cases "m s")
  obtain a where a: "trace s1 = trace s @ a" "list_all (within sid) a" "next_span s1 = next_span s"
    using insideD [OF assms(1), of s] m by auto
  show "\<exists>mid. trace (snd (go_bind m f s)) = trace s @ mid \<and> list_all (within sid) mid \<and>
      next_span (snd (go_bind m f s)) = next_span s"
  proof (cases r)
    case (Inl p)
    with m a show ?thesis by simp
  next
    case (Inr x)
    obtain b where "trace (snd (f x s1)) = trace s1 @ b" "list_all (within sid) b"
        "next_span (snd (f x s1)) = next_span s1"
      using insideD [OF assms(2), of x s1] by auto
    with m a Inr show ?thesis by (intro exI [of _ "a @ b"]) simp
  qed
qed

lemma inside_then [intro]: "inside sid m \<Longrightarrow> inside sid n \<Longrightarrow> inside sid (go_then m n)"
  unfolding go_then_def by (rule inside_bind)

lemma inside_when [intro]: "inside sid m \<Longrightarrow> inside sid (go_when b m)"
  by (simp add: go_when_def)

lemma inside_SetSpanTags [intro]: "inside sid (SetSpanTags env sid err client)"
  by (auto simp: inside_def tag_events_def within_def)

lemma inside_log_error_event [intro]: "inside sid (log_error_event env sid e)"
  by (auto simp: inside_def within_def)

lemma inside_run_decorator [intro]: "inside sid (run_decorator o0 ctx sid m req resp err)"
  by (auto simp: run_decorator_def within_def split: option.split intro!: inside_run_ext)

lemma inside_injectSpanContext [intro]: "inside sid (injectSpanContext env ctx sid)"
  by (auto simp: injectSpanContext_def Let_def within_def split: prod.split option.split
      intro!: inside_then inside_emit)

lemmas inside_intros =
  inside_return inside_emit inside_run_ext inside_bind inside_then inside_when
  inside_SetSpanTags inside_log_error_event inside_run_decorator inside_injectSpanContext

text \<open>
  What one instrumented call does: either it leaves the tracer alone, or it starts the next
  span, works inside it, and finishes it at the very end.
\<close>

definition one_span :: "('w tw, 'a) go \<Rightarrow> bool" where
  "one_span m \<longleftrightarrow>
     (\<forall>s. (\<exists>evs. trace (snd (m s)) = trace s @ evs \<and> list_all (\<lambda>e. on_span e = None) evs \<and>
             next_span (snd (m s)) = next_span s) \<or>
          (\<exists>name opts mid. trace (snd (m s)) =
               trace s @ StartSpan (next_span s) name opts # mid @ [FinishSpan (next_span s)] \<and>
             list_all (within (next_span s)) mid \<and> next_span (snd (m s)) = Suc (next_span s)))"

lemma one_span_untraced: "one_span (run_ext (CallNext ctx req) m)"
  by (simp add: one_span_def run_simps)

lemma one_span_traced:
  assumes "\<And>sid. inside sid (body sid)"
  shows "one_span (go_bind (tracer_StartSpan name opts) (\<lambda>sid. go_defer (finish_span sid) (body sid)))"
  unfolding one_span_def
proof (intro allI disjI2)
  fix s :: "'a tw"
  let ?s1 = "s\<lparr>trace := trace s @ [StartSpan (next_span s) name opts], next_span := Suc (next_span s)\<rparr>"
  obtain mid where mid: "trace (snd (body (next_span s) ?s1)) = trace ?s1 @ mid"
      "list_all (within (next_span s)) mid" "next_span (snd (body (next_span s) ?s1)) = next_span ?s1"
    using insideD [OF assms, of "next_span s" ?s1] by blast
  let ?m = "go_bind (tracer_StartSpan name opts) (\<lambda>sid. go_defer (finish_span sid) (body sid))"
  have "trace (snd (?m s)) =
      trace s @ StartSpan (next_span s) name opts # mid @ [FinishSpan (next_span s)]"
    using mid by (simp add: go_defer_run)
  moreover have "next_span (snd (?m s)) = Suc (next_span s)"
    using mid by (simp add: go_defer_run)
  ultimately show "\<exists>name opts mid. trace (snd (?m s)) =
      trace s @ StartSpan (next_span s) name opts # mid @ [FinishSpan (next_span s)] \<and>
      list_all (within (next_span s)) mid \<and> next_span (snd (?m s)) = Suc (next_span s)"
    using mid(2) by blast
qed

lemma span_events_append [simp]: "span_events sid (xs @ ys) = span_events sid xs @ span_events sid ys"
  by (simp add: span_events_def)

lemma span_events_other:
  "list_all (\<lambda>e. on_span e \<noteq> Some sid) evs \<Longrightarrow> span_events sid evs = []"
  by (induction evs) (simp_all add: span_events_def)

lemma spans_complete_start: "spans_complete \<lparr>trace = [], next_span = 0, ext = w\<rparr>"
  by (simp add: spans_complete_def)

lemma spans_complete_untraced:
  assumes "spans_complete s" and "trace s' = trace s @ evs" "list_all (\<lambda>e. on_span e = None) evs"
    and "next_span s' = next_span s"
  shows "spans_complete s'"
proof -
  have "span_events sid evs = []" for sid
    using assms(3) by (intro span_events_other) (auto simp: list_all_iff)
  then show ?thesis
    using assms by (auto simp: spans_complete_def complete_life_def list_all_iff split: option.splits)
qed

lemma spans_complete_traced:
  assumes ok: "spans_complete s"
    and tr: "trace s' = trace s @ StartSpan (next_span s) name opts # mid @ [FinishSpan (next_span s)]"
    and mid: "list_all (within (next_span s)) mid" and nx: "next_span s' = Suc (next_span s)"
  shows "spans_complete s'"
proof -
  have old: "span_events (next_span s) (trace s) = []"
    using ok by (intro span_events_other) (auto simp: spans_complete_def list_all_iff)
  have new: "span_events sid (StartSpan (next_span s) name opts # mid @ [FinishSpan (next_span s)]) = []"
    if "sid < next_span s" for sid
    using mid that by (intro span_events_other) (auto simp: list_all_iff within_def)
  have "complete_life sid (trace s')" if "sid < next_span s" for sid
    using ok that new [OF that] by (auto simp: spans_complete_def list_all_iff complete_life_def tr)
  moreover have "complete_life (next_span s) (trace s')"
    using mid old by (auto simp: complete_life_def tr span_events_def within_def list_all_iff butlast_append)
  moreover have "list_all (\<lambda>e. case on_span e of None \<Rightarrow> True | Some sid \<Rightarrow> sid < next_span s') (trace s')"
    using ok mid by (auto simp: spans_complete_def tr nx list_all_iff within_def split: option.splits)
  ultimately show ?thesis
    by (auto simp: spans_complete_def nx list_all_iff less_Suc_eq)
qed

text \<open>
  The contract between the gRPC runtime, which runs calls one after the other on a connection,
  and an interceptor: whatever a call does, it accounts for exactly the span it started. Every
  sequence of calls, panicking ones included, then leaves all its spans complete.
\<close>

locale instrumented =
  fixes run_call :: "'q \<Rightarrow> ('w tw, 'r) go"
  assumes run_one_span: "one_span (run_call q)"
begin

lemma call_complete: "spans_complete s \<Longrightarrow> spans_complete (snd (run_call q s))"
  using run_one_span [of q, unfolded one_span_def, rule_format, of s]
  by (auto intro: spans_complete_untraced spans_complete_traced)

lemma calls_complete: "spans_complete s \<Longrightarrow> spans_complete (fold (\<lambda>q s. snd (run_call q s)) qs s)"
  by (induction qs arbitrary: s) (simp_all add: call_complete)

end

section \<open>A concrete environment\<close>

text \<open>
  One way the libraries outside the repository may behave, for evaluating the model on concrete
  inputs: metadata and spans are stored under private context keys, and the tracer writes one
  header whose value encodes the span.
\<close>

definition md_value :: "MD \<Rightarrow> goval" where
  "md_value md = VSlice (map (\<lambda>(k, vs). VSlice [VString k, VStrings vs]) md)"

fun md_entry :: "goval \<Rightarrow> (string \<times> string list)" where
  "md_entry (VSlice [VString k, VStrings vs]) = (k, vs)"
| "md_entry _ = ([], [])"

fun value_md :: "goval \<Rightarrow> MD option" where
  "value_md (VSlice vs) = Some (map md_entry vs)"
| "value_md _ = None"

definition sample_env :: tenv where
  "sample_env =
     \<lparr> FromError = (\<lambda>err. case err of
          None \<Rightarrow> (codes_OK, True)
        | Some (StatusError c m) \<Rightarrow> (c, True)
        | Some _ \<Rightarrow> (codes_Unknown, False)),
       error_text = (\<lambda>err. ''rpc error''),
       FromIncomingContext = (\<lambda>c. value_md (ctx_Value c (ForeignKey 1))),
       FromOutgoingContext = (\<lambda>c. value_md (ctx_Value c (ForeignKey 0))),
       NewOutgoingContext = (\<lambda>c md. WithValue (ForeignKey 0) (md_value md) c),
       SpanFromContext = (\<lambda>c. case ctx_Value c (ForeignKey 2) of VObj n \<Rightarrow> Some n | _ \<Rightarrow> None),
       ContextWithSpan = (\<lambda>c n. WithValue (ForeignKey 2) (VObj n) c),
       span_Context = SpanContext,
       tracer_Extract = (\<lambda>ps. case filter (\<lambda>(k, v). k = ''uber-trace-id'') ps of
          [(k, v)] \<Rightarrow> (Some (SpanContext (length v)), None)
        | _ \<Rightarrow> (None, Some (ForeignError 404))),
       tracer_Inject = (\<lambda>sc. case sc of SpanContext n \<Rightarrow>
          ([(''Uber-Trace-Id'', replicate n CHR ''1'')], None)) \<rparr>"

lemma value_md_md_value [simp]: "value_md (md_value md) = Some md"
  by (induction md) (auto simp: md_value_def)

lemma sample_status_contract [simp]: "status_contract sample_env"
  by (simp add: status_contract_def sample_env_def)

lemma sample_outgoing_contract [simp]: "outgoing_contract sample_env"
  by (simp add: outgoing_contract_def sample_env_def WithValue_def)

section \<open>Properties\<close>

text \<open>C38: The carrier the tracer writes through is a multimap with lower-case keys: after any
  sequence of \<open>Set\<close> calls, \<open>ForeachKey\<close> shows under each key the values that were there
  before, followed by the values set under any capitalisation of that key in call order, and keys
  stay distinct and lower-case.\<close>

theorem carrier_is_multimap:
  assumes "md_wf md"
  shows "md_wf (fold (\<lambda>(k, v). metadata_Set k v) sets md) \<and>
    map snd (filter (\<lambda>(k', v). k' = k) (carrier_pairs (fold (\<lambda>(k, v). metadata_Set k v) sets md))) =
      map snd (filter (\<lambda>(k', v). k' = k) (carrier_pairs md)) @
      map snd (filter (\<lambda>(key, v). ToLower key = k) sets)"
proof -
  let ?md = "fold (\<lambda>(k, v). metadata_Set k v) sets md"
  have wf: "md_wf ?md" using assms by (rule md_wf_fold_Set)
  have "map snd (filter (\<lambda>(k', v). k' = k) (carrier_pairs m)) = md_get m k" if "md_wf m" for m
    using that by (simp add: carrier_pairs_eq values_of_pairs md_wf_def)
  from this [OF wf] this [OF assms] show ?thesis
    using wf by (simp add: md_get_fold_Set added_values_def)
qed

theorem carrier_is_multimap_witness:
  "md_wf (fold (\<lambda>(k, v). metadata_Set k v) [(''Trace-Id'', ''7''), (''TRACE-ID'', ''8'')] [(''a'', [''1''])]) \<and>
   map snd (filter (\<lambda>(k', v). k' = ''trace-id'')
     (carrier_pairs (fold (\<lambda>(k, v). metadata_Set k v) [(''Trace-Id'', ''7''), (''TRACE-ID'', ''8'')] [(''a'', [''1''])]))) =
     [''7'', ''8'']"
proof -
  have lower: "ToLower ''a'' = ''a''" "ToLower ''Trace-Id'' = ''trace-id''" "ToLower ''TRACE-ID'' = ''trace-id''"
    by code_simp+
  have wf: "md_wf [(''a'', [''1''])]" by (simp add: md_wf_def lower)
  show ?thesis
    using carrier_is_multimap [OF wf, of "[(''Trace-Id'', ''7''), (''TRACE-ID'', ''8'')]" "''trace-id''"]
    by (simp add: carrier_pairs_eq lower)
qed

text \<open>\<open>ForeachKey\<close> calls back for every value of every key, in the order in which Go walks
  the map, and stops with the first error the callback reports: pairs before it have been seen,
  pairs after it have not.\<close>

theorem foreach_stops_at_first_error:
  assumes "concat (map (\<lambda>(k, vs). map (Pair k) vs) md) = before @ (k0, v0) # after"
    and "\<And>k v acc. (k, v) \<in> set before \<Longrightarrow> h k v acc = (Inr None, acc @ [(k, v)])"
    and "\<And>acc. h k0 v0 acc = (Inr (Some e), acc @ [(k0, v0)])"
  shows "ForeachKey h md acc = (Inr (Some e), acc @ before @ [(k0, v0)])"
proof -
  have "visit h ps acc = (Inr None, acc @ ps)"
    if "\<And>k v acc. (k, v) \<in> set ps \<Longrightarrow> h k v acc = (Inr None, acc @ [(k, v)])" for ps acc
    using that by (induction ps arbitrary: acc) (auto simp: go_bind_run)
  from this [OF assms(2)] have "visit h before acc = (Inr None, acc @ before)" .
  moreover have "md_pairs md = before @ (k0, v0) # after"
    using assms(1) by (simp add: md_pairs_def)
  ultimately show ?thesis
    by (simp add: ForeachKey_visit visit_append go_bind_run assms(3))
qed

theorem foreach_stops_at_first_error_witness:
  "ForeachKey (\<lambda>k v acc. (Inr (if k = ''b'' then Some EOF else None), acc @ [(k, v)]))
     [(''a'', [''1'', ''2'']), (''b'', [''3'', ''4''])] [] =
   (Inr (Some EOF), [(''a'', ''1''), (''a'', ''2''), (''b'', ''3'')])"
  using foreach_stops_at_first_error [where h = "\<lambda>k v acc. (Inr (if k = ''b'' then Some EOF else None), acc @ [(k, v)])"
      and md = "[(''a'', [''1'', ''2'']), (''b'', [''3'', ''4''])]"
      and before = "[(''a'', ''1''), (''a'', ''2'')]" and ?k0.0 = "''b''" and ?v0.0 = "''3''"
      and after = "[(''b'', ''4'')]" and e = EOF and acc = "[]"]
  by auto

text \<open>The tags of a failed call follow the class of its status code. The span gets the code
  and its class; on the client every failure but \<open>Canceled\<close> is flagged as an error, on the
  server only the seven server-side codes are; an error that carries no status counts as
  \<open>Unknown\<close>, and a call without an error is tagged as a success and never flagged.\<close>

theorem span_tags_follow_status:
  assumes "status_contract env" and "c \<noteq> codes_OK"
  defines "server_codes \<equiv> [codes_DeadlineExceeded, codes_ResourceExhausted, codes_Aborted,
      codes_Unimplemented, codes_Internal, codes_Unavailable, codes_DataLoss]"
    and "client_codes \<equiv> [codes_InvalidArgument, codes_NotFound, codes_AlreadyExists,
      codes_PermissionDenied, codes_Unauthenticated, codes_FailedPrecondition, codes_OutOfRange]"
  shows "SetSpanTags env sid (Some (StatusError c m)) client s =
      (Inr (), s\<lparr>trace := trace s @
        [SetTag sid ''response_code'' (TagCode c),
         SetTag sid ''response_class'' (TagClass
           (if c = codes_Canceled then ''2xx'' else if c \<in> set client_codes then ''4xx''
            else if c \<in> set server_codes then ''5xx'' else ''0xx''))] @
        (if (if client then c \<noteq> codes_Canceled else c \<in> set server_codes)
         then [ExtErrorSet sid True] else [])\<rparr>)
    \<and> SetSpanTags env sid (Some (PkgError t)) client s =
      (Inr (), s\<lparr>trace := trace s @
        [SetTag sid ''response_code'' (TagCode codes_Unknown),
         SetTag sid ''response_class'' (TagClass ''0xx'')] @
        (if client then [ExtErrorSet sid True] else [])\<rparr>)
    \<and> SetSpanTags env sid None client s =
      (Inr (), s\<lparr>trace := trace s @
        [SetTag sid ''response_code'' (TagCode codes_OK),
         SetTag sid ''response_class'' (TagClass ''2xx'')]\<rparr>)"
proof -
  have st: "FromError env (Some (StatusError c m)) = (c, True)"
      "FromError env (Some (PkgError t)) = (codes_Unknown, False)" "FromError env None = (codes_OK, True)"
    using assms(1,2) by (simp_all add: status_contract_def)
  have "ErrorClass env (Some (StatusError c m)) =
      (if c = codes_Canceled then ''2xx'' else if c \<in> set client_codes then ''4xx''
       else if c \<in> set server_codes then ''5xx'' else ''0xx'')"
    unfolding ErrorClass_def st client_codes_def server_codes_def
    using assms(2) by (cases c) (simp_all add: class_defs)
  moreover have "c \<in> set client_codes \<Longrightarrow> c \<notin> set server_codes" and "codes_Canceled \<notin> set server_codes"
    by (auto simp: client_codes_def server_codes_def)
  ultimately show ?thesis
    by (auto simp: tag_events_def st ErrorClass_def class_defs)
qed

theorem span_tags_follow_status_witness:
  "SetSpanTags sample_env 0 (Some (StatusError codes_Internal ''boom'')) False
     \<lparr>trace = [], next_span = 1, ext = ()\<rparr> =
   (Inr (), \<lparr>trace = [SetTag 0 ''response_code'' (TagCode codes_Internal),
     SetTag 0 ''response_class'' (TagClass ''5xx''), ExtErrorSet 0 True], next_span = 1, ext = ()\<rparr>)"
  using span_tags_follow_status [OF sample_status_contract, of codes_Internal 0 "''boom''" False
      "\<lparr>trace = [], next_span = 1, ext = ()\<rparr>" "[]"]
  by simp

end
