(* ===== verification/Client_Interceptor.thy ===== *)
theory Client_Interceptor
  imports Trace_Base
begin

text \<open>
  \<open>src/pkg/tracing/client_interceptor.go\<close>, lines 19 to 131: the unary and the streaming
  client interceptor. The stream object that the streaming interceptor returns lives in the
  theory \<open>Client_Stream\<close>.

  The connection and the call options, which the interceptors only pass on, are one argument
  \<open>rest\<close> of any type. An invoker or streamer is code outside the tracer and may panic.
\<close>

type_synonym ('x, 'w) UnaryInvoker =
  "Ctx \<Rightarrow> string \<Rightarrow> goval \<Rightarrow> goval \<Rightarrow> 'x \<Rightarrow> ('w, MD \<times> goerror option) go"

definition parent_context :: "tenv \<Rightarrow> Ctx \<Rightarrow> spanctx option" where
  "parent_context env ctx =
     (case SpanFromContext env ctx of None \<Rightarrow> None | Some parent \<Rightarrow> Some (span_Context env parent))"

definition OpenTracingClientInterceptor ::
    "tenv \<Rightarrow> 'w tOption list \<Rightarrow> Ctx \<Rightarrow> string \<Rightarrow> goval \<Rightarrow> goval \<Rightarrow> 'x \<Rightarrow> ('x, 'w) UnaryInvoker
     \<Rightarrow> ('w tw, MD \<times> goerror option) go" where
  "OpenTracingClientInterceptor env optFuncs ctx method req resp rest invoker =
     (let otgrpcOpts = options_apply optFuncs newOptions;
          parentCtx = parent_context env ctx
      in if excluded otgrpcOpts parentCtx method req resp
         then run_ext (CallNext ctx req) (invoker ctx method req resp rest)
         else go_bind (tracer_StartSpan method [ChildOf parentCtx, SpanKindRPCClient, gRPCComponentTag])
           (\<lambda>clientSpan. go_defer (finish_span clientSpan)
             (go_bind (injectSpanContext env ctx clientSpan) (\<lambda>ctx'.
                go_then (go_when (logPayloads otgrpcOpts)
                  (emit (LogFields clientSpan [LogObject ''gRPC request'' req])))
                (go_bind (run_ext (CallNext ctx' req) (invoker ctx' method req resp rest))
                  (\<lambda>(trailer, err).
                   go_then
                     (case err of
                        None \<Rightarrow> go_when (logPayloads otgrpcOpts)
                          (emit (LogFields clientSpan [LogObject ''gRPC response'' resp]))
                      | Some e \<Rightarrow> go_then (SetSpanTags env clientSpan err True)
                          (log_error_event env clientSpan e))
                   (go_then (run_decorator otgrpcOpts ctx' clientSpan method req resp err)
                     (go_return (trailer, err)))))))))"

text \<open>What the streaming interceptor returns: the stream it was given, or that stream wrapped
  with the span that follows it.\<close>

datatype 'cs client_stream =
    PlainStream "'cs option"
  | TracedStream "'cs option" string StreamDesc nat

type_synonym ('x, 'cs, 'w) Streamer =
  "Ctx \<Rightarrow> StreamDesc \<Rightarrow> 'x \<Rightarrow> string \<Rightarrow> ('w, 'cs option \<times> goerror option) go"

text \<open>There is no \<open>defer\<close> here: on success the span is left to the stream.\<close>

definition OpenTracingStreamClientInterceptor ::
    "tenv \<Rightarrow> 'w tOption list \<Rightarrow> Ctx \<Rightarrow> StreamDesc \<Rightarrow> 'x \<Rightarrow> string \<Rightarrow> ('x, 'cs, 'w) Streamer
     \<Rightarrow> ('w tw, 'cs client_stream \<times> goerror option) go" where
  "OpenTracingStreamClientInterceptor env optFuncs ctx desc rest method streamer =
     (let otgrpcOpts = options_apply optFuncs newOptions;
          parentCtx = parent_context env ctx
      in if excluded otgrpcOpts parentCtx method VNil VNil
         then go_bind (run_ext (CallNext ctx VNil) (streamer ctx desc rest method))
           (\<lambda>(cs, err). go_return (PlainStream cs, err))
         else go_bind (tracer_StartSpan method [ChildOf parentCtx, SpanKindRPCClient, gRPCComponentTag])
           (\<lambda>clientSpan. go_bind (injectSpanContext env ctx clientSpan) (\<lambda>ctx'.
              go_bind (run_ext (CallNext ctx' VNil) (streamer ctx' desc rest method)) (\<lambda>(cs, err).
                case err of
                  Some e \<Rightarrow>
                    go_then (log_error_event env clientSpan e)
                   (go_then (SetSpanTags env clientSpan err True)
                   (go_then (go_modify (finish_span clientSpan))
                     (go_return (PlainStream cs, err))))
                | None \<Rightarrow> go_return (TracedStream cs method desc clientSpan, None)))))"

section \<open>Facts\<close>

lemma one_span_client_unary:
  "one_span (OpenTracingClientInterceptor env fs ctx method req resp rest invoker)"
  unfolding OpenTracingClientInterceptor_def Let_def
  by (auto simp: within_def split: option.split
      intro!: one_span_untraced one_span_traced inside_intros)

interpretation client_unary: instrumented
  "\<lambda>(ctx, method, req, resp, rest, invoker).
     OpenTracingClientInterceptor env fs ctx method req resp rest invoker" for env fs
  by unfold_locales (simp add: one_span_client_unary split: prod.split)

text \<open>The context and the events of the injection.\<close>

definition injected_md :: "tenv \<Rightarrow> Ctx \<Rightarrow> nat \<Rightarrow> MD" where
  "injected_md env ctx sid =
     fold (\<lambda>(k, v). metadata_Set k v) (fst (tracer_Inject env (span_Context env sid)))
       (case FromOutgoingContext env ctx of None \<Rightarrow> [] | Some md \<Rightarrow> md)"

definition inject_events :: "tenv \<Rightarrow> nat \<Rightarrow> span_event list" where
  "inject_events env sid =
     (case snd (tracer_Inject env (span_Context env sid)) of
        None \<Rightarrow> []
      | Some e \<Rightarrow> [LogFields sid [LogString ''event'' ''Tracer.Inject() failed'', LogError e]])"

lemma injectSpanContext_run [run_simps]:
  "injectSpanContext env ctx sid s =
     (Inr (NewOutgoingContext env ctx (injected_md env ctx sid)),
      s\<lparr>trace := trace s @ inject_events env sid\<rparr>)"
  by (simp add: injectSpanContext_def injected_md_def inject_events_def Let_def case_prod_beta
      go_simps split: option.split)

text \<open>The unary client interceptor, as the client installs it, is transparent: the RPC is
  invoked exactly once with the caller's method, messages and call options, under a context that
  differs only in its outgoing metadata, which is the caller's plus what the tracer injects for the
  new span; trailer, error, panic and effects come back unchanged, and one span brackets the call,
  tagged and logged exactly when the RPC failed.\<close>

theorem client_interceptor_transparent:
  "OpenTracingClientInterceptor env [] ctx method req resp rest invoker s =
     (let sid = next_span s;
          ctx' = NewOutgoingContext env ctx (injected_md env ctx sid);
          (result, w') = invoker ctx' method req resp rest (ext s)
      in (result, s\<lparr>trace := trace s @
             [StartSpan sid method [ChildOf (parent_context env ctx), SpanKindRPCClient, gRPCComponentTag]] @
             inject_events env sid @ [CallNext ctx' req] @
             (case result of Inl p \<Rightarrow> [] | Inr (trailer, err) \<Rightarrow> failure_events env sid err True) @
             [FinishSpan sid],
           next_span := Suc sid, ext := w'\<rparr>))"
  unfolding OpenTracingClientInterceptor_def
  by (simp add: Let_def go_simps run_simps failure_events_def finish_span_def
      split: prod.split sum.split option.split)

text \<open>The streaming client interceptor starts one span per stream. When the stream cannot be
  opened the span is logged, tagged and finished and the error is returned with the stream as it
  came; when it opens, the span stays open and is handed to the returned stream; but when the
  streamer panics nothing finishes the span, unlike in the unary interceptor.\<close>

theorem stream_client_interceptor_cases:
  "OpenTracingStreamClientInterceptor env [] ctx desc rest method streamer s =
     (let sid = next_span s;
          ctx' = NewOutgoingContext env ctx (injected_md env ctx sid);
          (result, w') = streamer ctx' desc rest method (ext s);
          started = [StartSpan sid method
              [ChildOf (parent_context env ctx), SpanKindRPCClient, gRPCComponentTag]] @
            inject_events env sid @ [CallNext ctx' VNil]
      in case result of
           Inl p \<Rightarrow> (Inl p, s\<lparr>trace := trace s @ started, next_span := Suc sid, ext := w'\<rparr>)
         | Inr (cs, None) \<Rightarrow> (Inr (TracedStream cs method desc sid, None),
             s\<lparr>trace := trace s @ started, next_span := Suc sid, ext := w'\<rparr>)
         | Inr (cs, Some e) \<Rightarrow> (Inr (PlainStream cs, Some e),
             s\<lparr>trace := trace s @ started @
                 [LogFields sid [LogString ''event'' ''error'', LogString ''message'' (error_text env e)]] @
                 tag_events env sid (Some e) True @ [FinishSpan sid],
               next_span := Suc sid, ext := w'\<rparr>))"
  unfolding OpenTracingStreamClientInterceptor_def
  by (simp add: Let_def go_simps run_simps finish_span_def
      split: prod.split sum.split option.split)

text \<open>Any sequence of unary calls through the client interceptor, with any options and with
  invokers or decorators that panic, leaves every span it started finished exactly once and last.\<close>

theorem client_spans_complete:
  "spans_complete (fold (\<lambda>(ctx, method, req, resp, rest, invoker) s.
     snd (OpenTracingClientInterceptor env fs ctx method req resp rest invoker s)) calls
     \<lparr>trace = [], next_span = 0, ext = w\<rparr>)"
  using client_unary.calls_complete [OF spans_complete_start, of env fs calls w]
  by (simp add: case_prod_unfold)

end
