(* ===== verification/Client_Stream.thy ===== *)
theory Client_Stream
  imports Client_Interceptor "HOL-Library.Sublist"
begin

text \<open>
  \<open>src/pkg/tracing/client_interceptor.go\<close>, lines 133 to 226: the instrumented client
  stream, whose span may be finished by any of several goroutines at once: a caller of
  \<open>Header\<close>, \<open>SendMsg\<close>, \<open>RecvMsg\<close> or \<open>CloseSend\<close>, the goroutine that
  waits for the stream's context, and the finalizer.

  The model is a transition system. Goroutine 0 is the watcher started by
  \<open>newOpenTracingClientStream\<close>, goroutine 1 the finalizer, every other number a
  goroutine of the user. Each has a program counter; one step is one atomic action
  (the compare-and-swap, closing the channel, one call on the span), so every
  interleaving of the source's statements is a run. \<open>finish_step\<close> is the body of
  \<open>finishFunc\<close>, one action at a time.
\<close>

section \<open>The stream and its goroutines\<close>

datatype stream_op = Header | SendMsg goval | RecvMsg goval | CloseSend

text \<open>
  The calls of \<open>finishFunc\<close> that the methods make once the underlying method has returned
  \<open>err\<close>: none, or one with the given argument. Each method then returns \<open>err\<close>.
\<close>

definition Header_after :: "goerror option \<Rightarrow> goerror option option" where
  "Header_after err = (if err \<noteq> None then Some err else None)"

definition SendMsg_after :: "goerror option \<Rightarrow> goerror option option" where
  "SendMsg_after err = (if err \<noteq> None then Some err else None)"

definition RecvMsg_after :: "bool \<Rightarrow> goerror option \<Rightarrow> goerror option option" where
  "RecvMsg_after serverStreams err =
     (if err = Some EOF then Some None
      else if err \<noteq> None then Some err
      else if \<not> serverStreams then Some None
      else None)"

definition CloseSend_after :: "goerror option \<Rightarrow> goerror option option" where
  "CloseSend_after err = (if err \<noteq> None then Some err else None)"

fun finish_request :: "bool \<Rightarrow> stream_op \<Rightarrow> goerror option \<Rightarrow> goerror option option" where
  "finish_request serverStreams Header err = Header_after err"
| "finish_request serverStreams (SendMsg m) err = SendMsg_after err"
| "finish_request serverStreams (RecvMsg m) err = RecvMsg_after serverStreams err"
| "finish_request serverStreams CloseSend err = CloseSend_after err"

text \<open>Where a goroutine goes when \<open>finishFunc\<close> returns.\<close>

datatype cont = ToCaller stream_op "goerror option" | ToEnd

datatype pc =
    Ready
  | InCall stream_op
  | Returned stream_op "goerror option"
  | FinCAS "goerror option" cont
  | FinClose "goerror option" cont
  | FinLog goerror cont
  | FinTags goerror cont
  | FinDecorate "goerror option" cont
  | FinSpan "panic option" cont
  | Watching
  | Ended
  | Crashed panic     \<comment> \<open>a run-time panic of this code\<close>
  | Unwound panic     \<comment> \<open>the decorator's panic, after the deferred finish\<close>

text \<open>The constants captured by the closures: the span, the method, the descriptor, the stream's
  context, and the decorator (given by whether it panics).\<close>

record stream_cfg =
  cfg_span :: nat
  cfg_method :: string
  cfg_desc :: StreamDesc
  cfg_ctx :: Ctx
  cfg_decorator :: "(goerror option \<Rightarrow> panic option) option"

text \<open>\<open>cas_log\<close> is a history: the arguments of the \<open>finishFunc\<close> calls in the order in
  which they reached the compare-and-swap.\<close>

record sys =
  pcs :: "nat \<Rightarrow> pc"
  isFinished :: i32
  finishChan_closed :: bool
  ctx_err :: "goerror option"
  events :: "span_event list"
  cas_log :: "goerror option list"

fun resume :: "cont \<Rightarrow> pc" where
  "resume (ToCaller op err) = Returned op err"
| "resume ToEnd = Ended"

text \<open>One action of \<open>finishFunc\<close>: the goroutine's next program counter and the new shared
  state; \<open>None\<close> when the goroutine is not inside it.\<close>

fun finish_step :: "tenv \<Rightarrow> stream_cfg \<Rightarrow> pc \<Rightarrow> sys \<Rightarrow> (pc \<times> sys) option" where
  "finish_step env cfg (FinCAS err k) s =
     (if isFinished s = 0
      then Some (FinClose err k, s\<lparr>isFinished := 1, cas_log := cas_log s @ [err]\<rparr>)
      else Some (resume k, s\<lparr>cas_log := cas_log s @ [err]\<rparr>))"
| "finish_step env cfg (FinClose err k) s =
     (if finishChan_closed s then Some (Crashed CloseOfClosedChannel, s)
      else Some (case err of Some e \<Rightarrow> FinLog e k | None \<Rightarrow> FinDecorate None k,
                 s\<lparr>finishChan_closed := True\<rparr>))"
| "finish_step env cfg (FinLog e k) s =
     Some (FinTags e k, s\<lparr>events := events s @
       [LogFields (cfg_span cfg) [LogString ''event'' ''error'', LogString ''message'' (error_text env e)]]\<rparr>)"
| "finish_step env cfg (FinTags e k) s =
     Some (FinDecorate (Some e) k,
       s\<lparr>events := events s @ tag_events env (cfg_span cfg) (Some e) True\<rparr>)"
| "finish_step env cfg (FinDecorate err k) s =
     (case cfg_decorator cfg of
        None \<Rightarrow> Some (FinSpan None k, s)
      | Some d \<Rightarrow> Some (FinSpan (d err) k, s\<lparr>events := events s @
          [Decorate (cfg_span cfg) (cfg_ctx cfg) (cfg_method cfg) VNil VNil err]\<rparr>))"
| "finish_step env cfg (FinSpan p k) s =
     Some (case p of None \<Rightarrow> resume k | Some p' \<Rightarrow> Unwound p',
       s\<lparr>events := events s @ [FinishSpan (cfg_span cfg)]\<rparr>)"
| "finish_step env cfg _ s = None"

definition set_pc :: "nat \<Rightarrow> pc \<Rightarrow> sys \<Rightarrow> sys" where
  "set_pc t p s = s\<lparr>pcs := (pcs s)(t := p)\<rparr>"

text \<open>The state \<open>newOpenTracingClientStream\<close> leaves behind.\<close>

definition newOpenTracingClientStream :: sys where
  "newOpenTracingClientStream =
     \<lparr> pcs = (\<lambda>t. if t = 0 then Watching else Ready), isFinished = 0, finishChan_closed = False,
       ctx_err = None, events = [], cas_log = [] \<rparr>"

inductive stream_step :: "tenv \<Rightarrow> stream_cfg \<Rightarrow> sys \<Rightarrow> sys \<Rightarrow> bool" for env cfg where
  call_begins: "2 \<le> t \<Longrightarrow> pcs s t = Ready \<or> pcs s t = Returned op' err' \<Longrightarrow>
    stream_step env cfg s (set_pc t (InCall op) s)"
| call_returns: "pcs s t = InCall op \<Longrightarrow>
    stream_step env cfg s (set_pc t
      (case finish_request (ServerStreams (cfg_desc cfg)) op err of
         None \<Rightarrow> Returned op err
       | Some arg \<Rightarrow> FinCAS arg (ToCaller op err)) s)"
| finish_acts: "finish_step env cfg (pcs s t) s = Some (p, s') \<Longrightarrow>
    stream_step env cfg s (set_pc t p s')"
| context_done: "ctx_err s = None \<Longrightarrow> stream_step env cfg s (s\<lparr>ctx_err := Some e\<rparr>)"
| watcher_sees_finish: "pcs s 0 = Watching \<Longrightarrow> finishChan_closed s \<Longrightarrow>
    stream_step env cfg s (set_pc 0 Ended s)"
| watcher_sees_context: "pcs s 0 = Watching \<Longrightarrow> ctx_err s = Some e \<Longrightarrow>
    stream_step env cfg s (set_pc 0 (FinCAS (Some e) ToEnd) s)"
| finalizer_runs: "pcs s 1 = Ready \<Longrightarrow> stream_step env cfg s (set_pc 1 (FinCAS None ToEnd) s)"

inductive stream_reachable :: "tenv \<Rightarrow> stream_cfg \<Rightarrow> sys \<Rightarrow> bool" for env cfg where
  stream_start: "stream_reachable env cfg newOpenTracingClientStream"
| stream_more: "stream_reachable env cfg s \<Longrightarrow> stream_step env cfg s s' \<Longrightarrow>
    stream_reachable env cfg s'"

section \<open>The invariant\<close>

text \<open>What the winner of the compare-and-swap, called with \<open>err\<close>, does to the span.\<close>

definition report_events :: "tenv \<Rightarrow> stream_cfg \<Rightarrow> goerror option \<Rightarrow> span_event list" where
  "report_events env cfg err =
     (case err of None \<Rightarrow> []
      | Some e \<Rightarrow> LogFields (cfg_span cfg)
            [LogString ''event'' ''error'', LogString ''message'' (error_text env e)] #
          tag_events env (cfg_span cfg) (Some e) True)"

definition decorate_events :: "stream_cfg \<Rightarrow> goerror option \<Rightarrow> span_event list" where
  "decorate_events cfg err =
     (case cfg_decorator cfg of None \<Rightarrow> []
      | Some d \<Rightarrow> [Decorate (cfg_span cfg) (cfg_ctx cfg) (cfg_method cfg) VNil VNil err])"

definition final_events :: "tenv \<Rightarrow> stream_cfg \<Rightarrow> goerror option \<Rightarrow> span_event list" where
  "final_events env cfg err =
     report_events env cfg err @ decorate_events cfg err @ [FinishSpan (cfg_span cfg)]"

text \<open>The program counters between the won compare-and-swap and the finish.\<close>

fun winning :: "pc \<Rightarrow> bool" where
  "winning (FinClose _ _) = True"
| "winning (FinLog _ _) = True"
| "winning (FinTags _ _) = True"
| "winning (FinDecorate _ _) = True"
| "winning (FinSpan _ _) = True"
| "winning _ = False"

text \<open>What a winner with program counter \<open>p\<close> has done so far, when \<open>err\<close> was its
  argument: whether the channel is closed, and which events the span has.\<close>

fun progress :: "tenv \<Rightarrow> stream_cfg \<Rightarrow> goerror option \<Rightarrow> pc \<Rightarrow> bool \<Rightarrow> span_event list \<Rightarrow> bool" where
  "progress env cfg err (FinClose e k) closed evs \<longleftrightarrow> e = err \<and> \<not> closed \<and> evs = []"
| "progress env cfg err (FinLog e k) closed evs \<longleftrightarrow> err = Some e \<and> closed \<and> evs = []"
| "progress env cfg err (FinTags e k) closed evs \<longleftrightarrow> err = Some e \<and> closed \<and>
     evs = [LogFields (cfg_span cfg) [LogString ''event'' ''error'', LogString ''message'' (error_text env e)]]"
| "progress env cfg err (FinDecorate e k) closed evs \<longleftrightarrow>
     e = err \<and> closed \<and> evs = report_events env cfg err"
| "progress env cfg err (FinSpan p k) closed evs \<longleftrightarrow>
     closed \<and> evs = report_events env cfg err @ decorate_events cfg err"
| "progress env cfg err _ closed evs \<longleftrightarrow> True"

text \<open>The three phases of the stream: nobody has asked to finish, one goroutine is finishing, the
  span is finished.\<close>

definition open_phase :: "sys \<Rightarrow> bool" where
  "open_phase s \<longleftrightarrow> isFinished s = 0 \<and> cas_log s = [] \<and> events s = [] \<and>
     \<not> finishChan_closed s \<and> (\<forall>t. \<not> winning (pcs s t))"

definition finishing_phase :: "tenv \<Rightarrow> stream_cfg \<Rightarrow> nat \<Rightarrow> sys \<Rightarrow> bool" where
  "finishing_phase env cfg t s \<longleftrightarrow> isFinished s = 1 \<and> cas_log s \<noteq> [] \<and>
     winning (pcs s t) \<and> (\<forall>u. u \<noteq> t \<longrightarrow> \<not> winning (pcs s u)) \<and>
     progress env cfg (hd (cas_log s)) (pcs s t) (finishChan_closed s) (events s)"

definition finished_phase :: "tenv \<Rightarrow> stream_cfg \<Rightarrow> sys \<Rightarrow> bool" where
  "finished_phase env cfg s \<longleftrightarrow> isFinished s = 1 \<and> cas_log s \<noteq> [] \<and> finishChan_closed s \<and>
     events s = final_events env cfg (hd (cas_log s)) \<and> (\<forall>t. \<not> winning (pcs s t))"

definition no_crash :: "sys \<Rightarrow> bool" where
  "no_crash s \<longleftrightarrow> (\<forall>t p. pcs s t \<noteq> Crashed p)"

definition stream_inv :: "tenv \<Rightarrow> stream_cfg \<Rightarrow> sys \<Rightarrow> bool" where
  "stream_inv env cfg s \<longleftrightarrow> no_crash s \<and>
     (open_phase s \<or> (\<exists>t. finishing_phase env cfg t s) \<or> finished_phase env cfg s)"

lemmas phase_defs = open_phase_def finishing_phase_def finished_phase_def

lemma set_pc_fields [simp]:
  "pcs (set_pc t p s) = (pcs s)(t := p)" "isFinished (set_pc t p s) = isFinished s"
  "finishChan_closed (set_pc t p s) = finishChan_closed s" "ctx_err (set_pc t p s) = ctx_err s"
  "events (set_pc t p s) = events s" "cas_log (set_pc t p s) = cas_log s"
  by (simp_all add: set_pc_def)

lemma not_winning_resume [simp]: "\<not> winning (resume k)" "resume k \<noteq> Crashed p"
  by (cases k; simp)+

lemma stream_inv_start: "stream_inv env cfg newOpenTracingClientStream"
  by (simp add: stream_inv_def open_phase_def no_crash_def newOpenTracingClientStream_def)

lemma no_crash_set_pc: "no_crash s \<Longrightarrow> (\<And>q. p \<noteq> Crashed q) \<Longrightarrow> no_crash (set_pc t p s)"
  by (simp add: no_crash_def)

lemma no_crash_same: "no_crash s \<Longrightarrow> pcs s' = pcs s \<Longrightarrow> no_crash s'"
  by (simp add: no_crash_def)

text \<open>Steps of goroutines that are not winning, and stay so, keep the phase.\<close>

lemma phase_quiet:
  assumes "\<not> winning (pcs s t)" "\<not> winning p"
  shows "open_phase s \<Longrightarrow> open_phase (set_pc t p s)"
    and "finishing_phase env cfg u s \<Longrightarrow> finishing_phase env cfg u (set_pc t p s)"
    and "finished_phase env cfg s \<Longrightarrow> finished_phase env cfg (set_pc t p s)"
  using assms by (auto simp: phase_defs)

lemma stream_inv_quiet:
  assumes "stream_inv env cfg s" and "\<not> winning (pcs s t)" "\<not> winning p" "\<And>q. p \<noteq> Crashed q"
  shows "stream_inv env cfg (set_pc t p s)"
  using assms phase_quiet [OF assms(2,3)] no_crash_set_pc unfolding stream_inv_def by blast

text \<open>The compare-and-swap: at most one goroutine gets past it.\<close>

lemma stream_inv_cas_won:
  assumes "stream_inv env cfg s" and "isFinished s = 0"
  shows "stream_inv env cfg (set_pc t (FinClose err k) (s\<lparr>isFinished := 1, cas_log := cas_log s @ [err]\<rparr>))"
proof -
  from assms have "open_phase s" "no_crash s"
    by (auto simp: stream_inv_def phase_defs)
  then have "finishing_phase env cfg t
      (set_pc t (FinClose err k) (s\<lparr>isFinished := 1, cas_log := cas_log s @ [err]\<rparr>))"
    by (simp add: phase_defs)
  with \<open>no_crash s\<close> show ?thesis
    by (auto simp: stream_inv_def no_crash_def)
qed

lemma stream_inv_cas_lost:
  assumes "stream_inv env cfg s" and "isFinished s \<noteq> 0"
  shows "stream_inv env cfg (s\<lparr>cas_log := cas_log s @ [err]\<rparr>)"
proof -
  from assms have "(\<exists>t. finishing_phase env cfg t s) \<or> finished_phase env cfg s" "no_crash s"
    by (auto simp: stream_inv_def open_phase_def)
  then show ?thesis
    by (auto simp: stream_inv_def no_crash_def finishing_phase_def finished_phase_def)
qed

text \<open>The winner's own steps: its progress advances until the span is finished.\<close>

lemma progress_step:
  assumes "winning p" and "progress env cfg err p (finishChan_closed s) (events s)"
    and "finish_step env cfg p s = Some (p', s')"
  shows "if winning p' then progress env cfg err p' (finishChan_closed s') (events s')
     else finishChan_closed s' \<and> events s' = final_events env cfg err"
  using assms
  by (cases p) (auto simp: report_events_def decorate_events_def final_events_def split: option.splits)

lemma winner_frame:
  assumes "winning p" and "finish_step env cfg p s = Some (p', s')"
  shows "pcs s' = pcs s \<and> isFinished s' = isFinished s \<and> cas_log s' = cas_log s"
  using assms by (cases p) (auto split: option.splits if_splits)

lemma winner_no_crash:
  assumes "winning p" and "progress env cfg err p (finishChan_closed s) (events s)"
    and "finish_step env cfg p s = Some (p', s')"
  shows "p' \<noteq> Crashed q"
  using assms by (cases p) (auto split: option.splits)

lemma stream_inv_win:
  assumes inv: "stream_inv env cfg s" and win: "winning (pcs s t)"
    and st: "finish_step env cfg (pcs s t) s = Some (p, s')"
  shows "stream_inv env cfg (set_pc t p s')"
proof -
  obtain u where u: "finishing_phase env cfg u s" and nc: "no_crash s"
    using inv win by (auto simp: stream_inv_def open_phase_def finished_phase_def)
  with win have "u = t" by (auto simp: finishing_phase_def)
  with u have ph: "finishing_phase env cfg t s" by simp
  from ph have prog: "progress env cfg (hd (cas_log s)) (pcs s t) (finishChan_closed s) (events s)"
    by (simp add: finishing_phase_def)
  note frame = winner_frame [OF win st] and adv = progress_step [OF win prog st]
  have "no_crash (set_pc t p s')"
    using nc winner_no_crash [OF win prog st] frame
    by (intro no_crash_set_pc) (auto intro: no_crash_same)
  moreover have "finishing_phase env cfg t (set_pc t p s') \<or> finished_phase env cfg (set_pc t p s')"
    using ph frame adv by (cases "winning p") (simp_all add: finishing_phase_def finished_phase_def)
  ultimately show ?thesis by (auto simp: stream_inv_def)
qed

lemma stream_inv_finish:
  assumes "stream_inv env cfg s" and "finish_step env cfg (pcs s t) s = Some (p, s')"
  shows "stream_inv env cfg (set_pc t p s')"
proof (cases "winning (pcs s t)")
  case True
  with assms show ?thesis by (blast intro: stream_inv_win)
next
  case False
  with assms(2) obtain err k where pc: "pcs s t = FinCAS err k"
    by (cases "pcs s t") auto
  show ?thesis
  proof (cases "isFinished s = 0")
    case True
    with assms pc show ?thesis by (auto intro: stream_inv_cas_won)
  next
    case False
    then have "stream_inv env cfg (s\<lparr>cas_log := cas_log s @ [err]\<rparr>)"
      using assms(1) by (rule stream_inv_cas_lost [rotated])
    with False assms(2) pc show ?thesis by (auto intro!: stream_inv_quiet)
  qed
qed

lemma stream_inv_step:
  assumes inv: "stream_inv env cfg s" and st: "stream_step env cfg s s'"
  shows "stream_inv env cfg s'"
  using st
proof (cases rule: stream_step.cases)
  case (finish_acts t p s'')
  with inv show ?thesis by (auto intro: stream_inv_finish)
next
  case (context_done e)
  with inv show ?thesis by (simp add: stream_inv_def no_crash_def phase_defs)
qed (auto split: option.split intro!: stream_inv_quiet [OF inv])

lemma stream_reachable_inv: "stream_reachable env cfg s \<Longrightarrow> stream_inv env cfg s"
  by (induction rule: stream_reachable.induct) (auto intro: stream_inv_start stream_inv_step)

section \<open>Running one goroutine through \<open>finishFunc\<close>\<close>

fun run_finish :: "tenv \<Rightarrow> stream_cfg \<Rightarrow> nat \<Rightarrow> nat \<Rightarrow> sys \<Rightarrow> sys" where
  "run_finish env cfg 0 t s = s"
| "run_finish env cfg (Suc n) t s =
     (case finish_step env cfg (pcs s t) s of
        None \<Rightarrow> s
      | Some (p, s') \<Rightarrow> run_finish env cfg n t (set_pc t p s'))"

lemma run_finish_reachable:
  "stream_reachable env cfg s \<Longrightarrow> stream_reachable env cfg (run_finish env cfg n t s)"
proof (induction n arbitrary: s)
  case 0
  then show ?case by simp
next
  case (Suc n)
  then show ?case
    by (auto split: option.split intro: stream_more finish_acts)
qed

lemma run_finish_won:
  assumes "pcs s t = FinCAS err k" "isFinished s = 0" "\<not> finishChan_closed s"
  shows "run_finish env cfg 6 t s =
     s\<lparr>pcs := (pcs s)(t := (case cfg_decorator cfg of
             None \<Rightarrow> resume k
           | Some d \<Rightarrow> (case d err of None \<Rightarrow> resume k | Some p \<Rightarrow> Unwound p))),
       isFinished := 1, finishChan_closed := True,
       events := events s @ final_events env cfg err, cas_log := cas_log s @ [err]\<rparr>"
proof -
  have stop: "finish_step env cfg (resume k) s' = None" for s'
    by (cases k) simp_all
  show ?thesis
    using assms
    by (simp add: eval_nat_numeral set_pc_def stop final_events_def report_events_def
        decorate_events_def split: option.split)
qed

lemma run_finish_lost:
  assumes "pcs s t = FinCAS err k" "isFinished s \<noteq> 0"
  shows "run_finish env cfg 6 t s =
     s\<lparr>pcs := (pcs s)(t := resume k), cas_log := cas_log s @ [err]\<rparr>"
proof -
  have stop: "finish_step env cfg (resume k) s' = None" for s'
    by (cases k) simp_all
  show ?thesis
    using assms by (simp add: eval_nat_numeral set_pc_def stop)
qed

lemma reachable_not_closed:
  "stream_reachable env cfg s \<Longrightarrow> isFinished s = 0 \<Longrightarrow> open_phase s"
  by (drule stream_reachable_inv) (auto simp: stream_inv_def phase_defs)

text \<open>One method of the stream, run by goroutine \<open>t\<close> to its return, when the underlying
  method returns \<open>err\<close>.\<close>

definition call_method :: "tenv \<Rightarrow> stream_cfg \<Rightarrow> nat \<Rightarrow> stream_op \<Rightarrow> goerror option \<Rightarrow> sys \<Rightarrow> sys" where
  "call_method env cfg t op err s =
     run_finish env cfg 6 t (set_pc t
       (case finish_request (ServerStreams (cfg_desc cfg)) op err of
          None \<Rightarrow> Returned op err
        | Some arg \<Rightarrow> FinCAS arg (ToCaller op err)) (set_pc t (InCall op) s))"

lemma call_method_reachable:
  assumes "stream_reachable env cfg s" "2 \<le> t" "pcs s t = Ready \<or> pcs s t = Returned op' err'"
  shows "stream_reachable env cfg (call_method env cfg t op err s)"
  unfolding call_method_def
proof (intro run_finish_reachable stream_more [OF _ call_returns])
  show "stream_reachable env cfg (set_pc t (InCall op) s)"
    using assms by (blast intro: stream_more call_begins)
qed simp

section \<open>A latch\<close>

text \<open>
  The contract the stream's methods rely on: \<open>fire\<close> acts at its first use only, whatever
  follows. \<open>finishFunc\<close> provides it.
\<close>

locale one_shot =
  fixes fire :: "'a \<Rightarrow> 's \<Rightarrow> 's" and fired :: "'s \<Rightarrow> bool" and out :: "'s \<Rightarrow> 'e list"
    and effect :: "'a \<Rightarrow> 'e list" and invar :: "'s \<Rightarrow> bool"
  assumes first_use: "invar s \<Longrightarrow> \<not> fired s \<Longrightarrow> out (fire a s) = out s @ effect a"
    and later_use: "invar s \<Longrightarrow> fired s \<Longrightarrow> out (fire a s) = out s"
    and is_fired: "invar s \<Longrightarrow> fired (fire a s)"
    and invar_fire: "invar s \<Longrightarrow> invar (fire a s)"
begin

lemma fired_sequence: "invar s \<Longrightarrow> fired s \<Longrightarrow> out (fold fire as s) = out s"
  by (induction as arbitrary: s) (simp_all add: later_use is_fired invar_fire)

lemma first_decides:
  "invar s \<Longrightarrow> \<not> fired s \<Longrightarrow>
     out (fold fire as s) = out s @ (case as of [] \<Rightarrow> [] | a # _ \<Rightarrow> effect a)"
  by (cases as) (simp_all add: fired_sequence first_use is_fired invar_fire)

end

text \<open>\<open>finishFunc\<close>, called to completion by goroutine \<open>t\<close>.\<close>

definition finishFunc :: "tenv \<Rightarrow> stream_cfg \<Rightarrow> nat \<Rightarrow> goerror option \<Rightarrow> sys \<Rightarrow> sys" where
  "finishFunc env cfg t err s = run_finish env cfg 6 t (set_pc t (FinCAS err ToEnd) s)"

definition latch_invar :: "sys \<Rightarrow> bool" where
  "latch_invar s \<longleftrightarrow> (isFinished s = 0 \<longrightarrow> \<not> finishChan_closed s)"

lemma finishFunc_run:
  "latch_invar s \<Longrightarrow>
     events (finishFunc env cfg t err s) =
       (if isFinished s = 0 then events s @ final_events env cfg err else events s) \<and>
     isFinished (finishFunc env cfg t err s) = (if isFinished s = 0 then 1 else isFinished s) \<and>
     latch_invar (finishFunc env cfg t err s)"
  by (cases "isFinished s = 0")
    (simp_all add: finishFunc_def run_finish_won run_finish_lost latch_invar_def)

interpretation finish_latch: one_shot "\<lambda>(t, err). finishFunc env cfg t err"
  "\<lambda>s. isFinished s \<noteq> 0" events "\<lambda>(t, err). final_events env cfg err" latch_invar for env cfg
  by unfold_locales (auto simp: finishFunc_run split: if_splits)

section \<open>Properties\<close>

lemma final_events_finish_count [simp]:
  "length (filter is_finish (final_events env cfg err)) = 1"
  "last (final_events env cfg err) = FinishSpan (cfg_span cfg)"
  by (auto simp: final_events_def report_events_def decorate_events_def tag_events_def
      split: option.split)

lemma progress_prefix:
  "winning p \<Longrightarrow> progress env cfg err p closed evs \<Longrightarrow>
     strict_prefix evs (final_events env cfg err) \<and> length (filter is_finish evs) = 0"
  by (cases p) (auto simp: final_events_def report_events_def decorate_events_def tag_events_def
      strict_prefix_def split: option.splits)

lemma stream_events_prefix:
  assumes "stream_reachable env cfg s"
  shows "prefix (events s) (case cas_log s of [] \<Rightarrow> [] | first # _ \<Rightarrow> final_events env cfg first) \<and>
    length (filter is_finish (events s)) \<le> 1"
proof -
  note inv = stream_reachable_inv [OF assms, unfolded stream_inv_def]
  then consider "open_phase s" | t where "finishing_phase env cfg t s" | "finished_phase env cfg s"
    by auto
  then show ?thesis
  proof cases
    case 1
    then show ?thesis by (simp add: open_phase_def)
  next
    case 2
    then show ?thesis
      by (cases "cas_log s") (auto simp: finishing_phase_def dest: progress_prefix)
  next
    case 3
    then show ?thesis by (cases "cas_log s") (auto simp: finished_phase_def)
  qed
qed

text \<open>The same when nobody is inside \<open>finishFunc\<close>.\<close>

lemma quiet_stream:
  assumes "stream_reachable env cfg s" "\<forall>t. finish_step env cfg (pcs s t) s = None"
  shows "open_phase s \<or> finished_phase env cfg s"
proof -
  have quiet: "\<not> winning (pcs s t)" for t
    using spec [OF assms(2), of t] by (cases "pcs s t") (auto split: if_splits option.splits)
  then show ?thesis
    using stream_reachable_inv [OF assms(1)] by (auto simp: stream_inv_def finishing_phase_def)
qed

lemma quiet_stream_events:
  assumes "stream_reachable env cfg s" "\<forall>t. finish_step env cfg (pcs s t) s = None"
  shows "events s = (case cas_log s of [] \<Rightarrow> [] | first # _ \<Rightarrow> final_events env cfg first)"
  using quiet_stream [OF assms] by (cases "cas_log s") (auto simp: open_phase_def finished_phase_def)

text \<open>C1: However many goroutines use the stream and however they interleave with the context
  watcher and the finalizer, the span is finished at most once: what happens to the span is always
  a prefix of what the first goroutine to reach the compare-and-swap does (log and tag its error,
  decorate, finish), so an error that arrives later is never recorded and nothing happens after
  the finish; and closing the channel never panics.\<close>

theorem stream_span_finished_at_most_once:
  assumes "stream_reachable env cfg s"
  shows "(case cas_log s of
       [] \<Rightarrow> events s = []
     | first # _ \<Rightarrow> prefix (events s) (final_events env cfg first)) \<and>
    length (filter is_finish (events s)) \<le> 1 \<and> (\<forall>t. pcs s t \<noteq> Crashed CloseOfClosedChannel)"
  using stream_events_prefix [OF assms] stream_reachable_inv [OF assms]
  by (cases "cas_log s") (auto simp: stream_inv_def no_crash_def)

text \<open>C2: Whenever no goroutine is inside \<open>finishFunc\<close>, the span is finished exactly once if
  any path ever asked for it and not at all otherwise, the error recorded is the one of the first
  caller, and the channel that releases the watcher is closed in exactly the same cases.\<close>

theorem stream_span_finished_exactly_once:
  assumes "stream_reachable env cfg s" and "\<forall>t. finish_step env cfg (pcs s t) s = None"
  shows "events s = (case cas_log s of [] \<Rightarrow> [] | first # _ \<Rightarrow> final_events env cfg first) \<and>
    length (filter is_finish (events s)) = (if cas_log s = [] then 0 else 1) \<and>
    (finishChan_closed s \<longleftrightarrow> cas_log s \<noteq> [])"
  using quiet_stream [OF assms] by (cases "cas_log s") (auto simp: open_phase_def finished_phase_def)

text \<open>C36: \<open>finishFunc\<close> always returns, after at most six actions and without waiting for any
  other goroutine; the caller that wins the compare-and-swap has then finished the span, every
  other caller has changed nothing on it, and unless the decorator panics the goroutine continues
  where it called.\<close>

theorem finishFunc_returns:
  assumes "stream_reachable env cfg s" and "pcs s t = FinCAS err k"
  shows "events (run_finish env cfg 6 t s) =
      (if isFinished s = 0 then final_events env cfg err else events s) \<and>
    (pcs (run_finish env cfg 6 t s) t = resume k \<or>
     (\<exists>d p. cfg_decorator cfg = Some d \<and> d err = Some p \<and> pcs (run_finish env cfg 6 t s) t = Unwound p)) \<and>
    (\<forall>u. u \<noteq> t \<longrightarrow> pcs (run_finish env cfg 6 t s) u = pcs s u)"
proof (cases "isFinished s = 0")
  case True
  with assms(1) have "open_phase s" by (rule reachable_not_closed)
  with True assms(2) show ?thesis
    by (auto simp: run_finish_won open_phase_def split: option.split)
next
  case False
  with assms(2) show ?thesis by (simp add: run_finish_lost)
qed

text \<open>The methods of the instrumented stream return exactly the error of the underlying method.
  On a fresh stream, end of stream on \<open>RecvMsg\<close> and a successful \<open>RecvMsg\<close> of an RPC with
  a single response finish the span as a success; any other error of any method finishes it with
  that error; other successful calls leave it open.\<close>

theorem stream_method_outcome:
  assumes "stream_reachable env cfg s" "isFinished s = 0" "cfg_decorator cfg = None"
  shows "pcs (call_method env cfg t op err s) t = Returned op err \<and>
    events (call_method env cfg t op err s) =
      (case op of
         RecvMsg m \<Rightarrow>
           (if err = Some EOF \<or> err = None \<and> \<not> ServerStreams (cfg_desc cfg)
            then [FinishSpan (cfg_span cfg)]
            else case err of None \<Rightarrow> [] | Some e \<Rightarrow> report_events env cfg (Some e) @ [FinishSpan (cfg_span cfg)])
       | _ \<Rightarrow> (case err of None \<Rightarrow> [] | Some e \<Rightarrow> report_events env cfg (Some e) @ [FinishSpan (cfg_span cfg)]))"
proof -
  have op: "open_phase s" using assms(1,2) by (rule reachable_not_closed)
  have arg: "events (call_method env cfg t op err s) = final_events env cfg a \<and>
      pcs (call_method env cfg t op err s) t = Returned op err"
    if "finish_request (ServerStreams (cfg_desc cfg)) op err = Some a" for a
    using that op assms(2,3)
    by (simp add: call_method_def open_phase_def run_finish_won [where err = a and k = "ToCaller op err"])
  have skip: "events (call_method env cfg t op err s) = [] \<and>
      pcs (call_method env cfg t op err s) t = Returned op err"
    if "finish_request (ServerStreams (cfg_desc cfg)) op err = None"
    using that op by (simp add: call_method_def open_phase_def eval_nat_numeral)
  show ?thesis
    using arg skip assms(3)
    by (cases op) (auto simp: Header_after_def SendMsg_after_def RecvMsg_after_def CloseSend_after_def
        final_events_def report_events_def decorate_events_def split: option.split)
qed

text \<open>The two ways in which the watcher can stop waiting.\<close>

lemma watcher_leaves:
  assumes "stream_step env cfg s s'" "pcs s 0 = Watching" "pcs s' 0 \<noteq> Watching"
  shows "pcs s' 0 = Ended \<or> (\<exists>e'. ctx_err s = Some e' \<and> s' = set_pc 0 (FinCAS (Some e') ToEnd) s)"
  using assms(1)
proof (cases rule: stream_step.cases)
  case (finish_acts t p s'')
  have frame: "pcs s'' = pcs s"
    using finish_acts(2) by (cases "pcs s t") (auto split: if_splits option.splits)
  have "t \<noteq> 0" using finish_acts(2) assms(2) by (intro notI) simp
  with finish_acts frame assms(2,3) show ?thesis by simp
qed (use assms(2,3) in \<open>auto split: if_splits\<close>)

text \<open>C37: The goroutine that watches the stream's context does not leak: once the span is being
  finished or the context is done, a waiting watcher can always take a step, which either ends it
  or sends it through \<open>finishFunc\<close>, after which it ends (unless the decorator panics); a watcher that finds both at once
  and takes the context's side still changes nothing on a finished span.\<close>

theorem watcher_does_not_leak:
  assumes "stream_reachable env cfg s" and "pcs s 0 = Watching"
    and "finishChan_closed s \<or> ctx_err s = Some e"
  shows "(\<exists>s'. stream_step env cfg s s' \<and> pcs s' 0 \<noteq> Watching) \<and>
    (\<forall>s'. stream_step env cfg s s' \<longrightarrow> pcs s' 0 \<noteq> Watching \<longrightarrow>
       pcs s' 0 = Ended \<or>
       (\<exists>e'. ctx_err s = Some e' \<and> pcs s' 0 = FinCAS (Some e') ToEnd \<and>
          (pcs (run_finish env cfg 6 0 s') 0 = Ended \<or>
             (\<exists>d p. cfg_decorator cfg = Some d \<and> d (Some e') = Some p \<and>
                pcs (run_finish env cfg 6 0 s') 0 = Unwound p)) \<and>
          (isFinished s \<noteq> 0 \<longrightarrow> events (run_finish env cfg 6 0 s') = events s)))"
proof
  show "\<exists>s'. stream_step env cfg s s' \<and> pcs s' 0 \<noteq> Watching"
  proof (cases "finishChan_closed s")
    case True
    with assms(2) have "stream_step env cfg s (set_pc 0 Ended s)"
      by (blast intro: watcher_sees_finish)
    then show ?thesis by (intro exI [of _ "set_pc 0 Ended s"] conjI) simp_all
  next
    case False
    with assms(2,3) have "stream_step env cfg s (set_pc 0 (FinCAS (Some e) ToEnd) s)"
      by (blast intro: watcher_sees_context)
    then show ?thesis by (intro exI [of _ "set_pc 0 (FinCAS (Some e) ToEnd) s"] conjI) simp_all
  qed
next
  let ?through = "\<lambda>s' e'. (pcs (run_finish env cfg 6 0 s') 0 = Ended \<or>
      (\<exists>d p. cfg_decorator cfg = Some d \<and> d (Some e') = Some p \<and> pcs (run_finish env cfg 6 0 s') 0 = Unwound p)) \<and>
      (isFinished s \<noteq> 0 \<longrightarrow> events (run_finish env cfg 6 0 s') = events s)"
  have through: "?through (set_pc 0 (FinCAS (Some e') ToEnd) s) e'" for e'
  proof (cases "isFinished s = 0")
    case True
    with assms(1) have "open_phase s" by (rule reachable_not_closed)
    with True show ?thesis
      by (auto simp: run_finish_won [where err = "Some e'" and k = ToEnd] open_phase_def split: option.split)
  next
    case False
    then show ?thesis by (simp add: run_finish_lost [where err = "Some e'" and k = ToEnd])
  qed
  show "\<forall>s'. stream_step env cfg s s' \<longrightarrow> pcs s' 0 \<noteq> Watching \<longrightarrow> pcs s' 0 = Ended \<or>
      (\<exists>e'. ctx_err s = Some e' \<and> pcs s' 0 = FinCAS (Some e') ToEnd \<and> ?through s' e')"
  proof (intro allI impI)
    fix s' assume "stream_step env cfg s s'" "pcs s' 0 \<noteq> Watching"
    from watcher_leaves [OF this(1) assms(2) this(2)] consider "pcs s' 0 = Ended"
      | e' where "ctx_err s = Some e'" "s' = set_pc 0 (FinCAS (Some e') ToEnd) s" by blast
    then show "pcs s' 0 = Ended \<or>
        (\<exists>e'. ctx_err s = Some e' \<and> pcs s' 0 = FinCAS (Some e') ToEnd \<and> ?through s' e')"
      by cases (use through in simp_all)
  qed
qed

text \<open>As a latch, \<open>finishFunc\<close> acts once: in any sequence of complete calls, from any
  goroutines, the first argument alone decides what the span records.\<close>

theorem finishFunc_first_call_decides:
  "events (fold (\<lambda>(t, err). finishFunc env cfg t err) ((t0, first) # later) newOpenTracingClientStream) =
     final_events env cfg first"
  using finish_latch.first_decides [of newOpenTracingClientStream env cfg "(t0, first) # later"]
  by (simp add: newOpenTracingClientStream_def latch_invar_def)

section \<open>A concrete stream\<close>

definition sample_cfg :: stream_cfg where
  "sample_cfg = \<lparr> cfg_span = 0, cfg_method = ''/g/Talk'',
     cfg_desc = \<lparr> StreamName = ''Talk'', ServerStreams = True, ClientStreams = True \<rparr>,
     cfg_ctx = Background, cfg_decorator = None \<rparr>"

text \<open>One goroutine's \<open>SendMsg\<close> fails and finishes the span; another one's \<open>RecvMsg\<close>
  then sees the end of the stream.\<close>

definition sample_failed :: sys where
  "sample_failed = call_method sample_env sample_cfg 2 (SendMsg VNil)
     (Some (StatusError codes_Internal ''boom'')) newOpenTracingClientStream"

definition sample_late :: sys where
  "sample_late = call_method sample_env sample_cfg 3 (RecvMsg VNil) (Some EOF) sample_failed"

lemma sample_failed_reachable: "stream_reachable sample_env sample_cfg sample_failed"
  unfolding sample_failed_def
  by (rule call_method_reachable [OF stream_start]) (simp_all add: newOpenTracingClientStream_def)

lemma sample_failed_eq: "sample_failed =
  newOpenTracingClientStream\<lparr>pcs := (pcs newOpenTracingClientStream)
      (2 := Returned (SendMsg VNil) (Some (StatusError codes_Internal ''boom''))),
    isFinished := 1, finishChan_closed := True,
    events := final_events sample_env sample_cfg (Some (StatusError codes_Internal ''boom'')),
    cas_log := [Some (StatusError codes_Internal ''boom'')]\<rparr>"
  by (simp add: sample_failed_def call_method_def SendMsg_after_def newOpenTracingClientStream_def
      run_finish_won sample_cfg_def)

lemma sample_late_reachable: "stream_reachable sample_env sample_cfg sample_late"
  unfolding sample_late_def
  by (rule call_method_reachable [OF sample_failed_reachable])
    (simp_all add: sample_failed_eq newOpenTracingClientStream_def)

lemma sample_late_eq: "sample_late =
  sample_failed\<lparr>pcs := (pcs sample_failed)(3 := Returned (RecvMsg VNil) (Some EOF)),
    cas_log := [Some (StatusError codes_Internal ''boom''), None]\<rparr>"
  by (simp add: sample_late_def call_method_def RecvMsg_after_def run_finish_lost sample_failed_eq
      newOpenTracingClientStream_def)

theorem stream_span_finished_at_most_once_witness:
  "(case cas_log sample_late of
       [] \<Rightarrow> events sample_late = []
     | first # _ \<Rightarrow> prefix (events sample_late) (final_events sample_env sample_cfg first)) \<and>
    length (filter is_finish (events sample_late)) \<le> 1 \<and>
    (\<forall>t. pcs sample_late t \<noteq> Crashed CloseOfClosedChannel)"
  by (rule stream_span_finished_at_most_once [OF sample_late_reachable])

theorem stream_span_finished_exactly_once_witness:
  "length (filter is_finish (events sample_late)) = 1 \<and> finishChan_closed sample_late"
proof -
  have "\<forall>t. finish_step sample_env sample_cfg (pcs sample_late t) sample_late = None"
    by (simp add: sample_late_eq sample_failed_eq newOpenTracingClientStream_def)
  from stream_span_finished_exactly_once [OF sample_late_reachable this]
  show ?thesis by (simp add: sample_late_eq)
qed

theorem finishFunc_returns_witness:
  "events (run_finish sample_env sample_cfg 6 1 (set_pc 1 (FinCAS None ToEnd) newOpenTracingClientStream)) =
     [FinishSpan 0]"
proof -
  have "stream_reachable sample_env sample_cfg (set_pc 1 (FinCAS None ToEnd) newOpenTracingClientStream)"
    by (rule stream_more [OF stream_start finalizer_runs]) (simp add: newOpenTracingClientStream_def)
  from finishFunc_returns [OF this, of 1 None ToEnd] show ?thesis
    by (simp add: newOpenTracingClientStream_def final_events_def report_events_def decorate_events_def
        sample_cfg_def)
qed

theorem stream_method_outcome_witness:
  "pcs (call_method sample_env sample_cfg 2 (RecvMsg VNil) (Some EOF) newOpenTracingClientStream) 2 =
     Returned (RecvMsg VNil) (Some EOF) \<and>
   events (call_method sample_env sample_cfg 2 (RecvMsg VNil) (Some EOF) newOpenTracingClientStream) =
     [FinishSpan 0]"
  using stream_method_outcome [OF stream_start [of sample_env sample_cfg], of 2 "RecvMsg VNil" "Some EOF"]
  by (simp add: newOpenTracingClientStream_def sample_cfg_def)

theorem watcher_does_not_leak_witness:
  "\<exists>s'. stream_step sample_env sample_cfg sample_late s' \<and> pcs s' 0 \<noteq> Watching"
proof -
  have "pcs sample_late 0 = Watching" "finishChan_closed sample_late"
    by (simp_all add: sample_late_eq sample_failed_eq newOpenTracingClientStream_def)
  with watcher_does_not_leak [OF sample_late_reachable] show ?thesis by blast
qed

end
