(* ===== verification/Server_Interceptor.thy ===== *)
theory Server_Interceptor
  imports Trace_Base
begin

text \<open>
  \<open>src/pkg/tracing/server_interceptor.go\<close>: the unary and the streaming server interceptor.

  A handler is code of the service: it maps its arguments to a state transformer on the world
  outside the tracer and may panic. The interceptor's \<open>defer serverSpan.Finish()\<close> runs on
  that path too.
\<close>

type_synonym 'w UnaryHandler = "Ctx \<Rightarrow> goval \<Rightarrow> ('w, goval \<times> goerror option) go"

definition OpenTracingServerInterceptor ::
    "tenv \<Rightarrow> 'w tOption list \<Rightarrow> Ctx \<Rightarrow> goval \<Rightarrow> string \<Rightarrow> 'w UnaryHandler
     \<Rightarrow> ('w tw, goval \<times> goerror option) go" where
  "OpenTracingServerInterceptor env optFuncs ctx req fullMethod handler =
     (let otgrpcOpts = options_apply optFuncs newOptions;
          spanContext = fst (extractSpanContext env ctx)
      in if excluded otgrpcOpts spanContext fullMethod req VNil
         then run_ext (CallNext ctx req) (handler ctx req)
         else go_bind (tracer_StartSpan fullMethod [RPCServerOption spanContext, gRPCComponentTag])
           (\<lambda>serverSpan. go_defer (finish_span serverSpan)
             (let ctx' = ContextWithSpan env ctx serverSpan
              in go_then (go_when (logPayloads otgrpcOpts)
                   (emit (LogFields serverSpan [LogObject ''gRPC request'' req])))
                (go_bind (run_ext (CallNext ctx' req) (handler ctx' req)) (\<lambda>(resp, err).
                   go_then
                     (case err of
                        None \<Rightarrow> go_when (logPayloads otgrpcOpts)
                          (emit (LogFields serverSpan [LogObject ''gRPC response'' resp]))
                      | Some e \<Rightarrow> go_then (SetSpanTags env serverSpan err False)
                          (log_error_event env serverSpan e))
                   (go_then (run_decorator otgrpcOpts ctx' serverSpan fullMethod req resp err)
                     (go_return (resp, err))))))))"

text \<open>A server stream carries its context; the interceptor's wrapper overrides it.\<close>

datatype ServerStream =
    RawServerStream nat Ctx
  | openTracingServerStream ServerStream Ctx

fun stream_Context :: "ServerStream \<Rightarrow> Ctx" where
  "stream_Context (RawServerStream _ ctx) = ctx"
| "stream_Context (openTracingServerStream _ ctx) = ctx"

type_synonym 'w StreamHandler = "goval \<Rightarrow> ServerStream \<Rightarrow> ('w, goerror option) go"

definition OpenTracingStreamServerInterceptor ::
    "tenv \<Rightarrow> 'w tOption list \<Rightarrow> goval \<Rightarrow> ServerStream \<Rightarrow> string \<Rightarrow> 'w StreamHandler
     \<Rightarrow> ('w tw, goerror option) go" where
  "OpenTracingStreamServerInterceptor env optFuncs srv ss fullMethod handler =
     (let otgrpcOpts = options_apply optFuncs newOptions;
          spanContext = fst (extractSpanContext env (stream_Context ss))
      in if excluded otgrpcOpts spanContext fullMethod VNil VNil
         then run_ext (CallNext (stream_Context ss) srv) (handler srv ss)
         else go_bind (tracer_StartSpan fullMethod [RPCServerOption spanContext, gRPCComponentTag])
           (\<lambda>serverSpan. go_defer (finish_span serverSpan)
             (let ss' = openTracingServerStream ss (ContextWithSpan env (stream_Context ss) serverSpan)
              in go_bind (run_ext (CallNext (stream_Context ss') srv) (handler srv ss')) (\<lambda>e.
                   go_then
                     (case e of
                        None \<Rightarrow> go_return ()
                      | Some err \<Rightarrow> go_then (SetSpanTags env serverSpan e False)
                          (log_error_event env serverSpan err))
                   (go_then (run_decorator otgrpcOpts (stream_Context ss') serverSpan fullMethod VNil VNil e)
                     (go_return e))))))"

section \<open>Every started span is finished\<close>

lemma one_span_server_unary:
  "one_span (OpenTracingServerInterceptor env fs ctx req fullMethod handler)"
  unfolding OpenTracingServerInterceptor_def Let_def
  by (auto simp: within_def split: option.split
      intro!: one_span_untraced one_span_traced inside_intros)

lemma one_span_server_stream:
  "one_span (OpenTracingStreamServerInterceptor env fs srv ss fullMethod handler)"
  unfolding OpenTracingStreamServerInterceptor_def Let_def
  by (auto simp: within_def split: option.split
      intro!: one_span_untraced one_span_traced inside_intros)

interpretation server_unary: instrumented
  "\<lambda>(ctx, req, fullMethod, handler). OpenTracingServerInterceptor env fs ctx req fullMethod handler"
  for env fs
  by unfold_locales (simp add: one_span_server_unary split: prod.split)

interpretation server_stream: instrumented
  "\<lambda>(srv, ss, fullMethod, handler). OpenTracingStreamServerInterceptor env fs srv ss fullMethod handler"
  for env fs
  by unfold_locales (simp add: one_span_server_stream split: prod.split)

text \<open>However many RPCs a server handles, unary or streaming and with any interceptor options,
  and even when handlers or decorators panic: every span that was started is finished exactly
  once, the finish is the last thing that happens to it, and no span is touched before its start.\<close>

theorem server_spans_complete:
  "spans_complete (fold (\<lambda>(ctx, req, fullMethod, handler) s.
       snd (OpenTracingServerInterceptor env fs ctx req fullMethod handler s)) unary_calls
     (fold (\<lambda>(srv, ss, fullMethod, handler) s.
       snd (OpenTracingStreamServerInterceptor env fs srv ss fullMethod handler s)) stream_calls
       \<lparr>trace = [], next_span = 0, ext = w\<rparr>))"
proof -
  have "spans_complete (fold (\<lambda>q s. snd ((\<lambda>(srv, ss, fullMethod, handler).
      OpenTracingStreamServerInterceptor env fs srv ss fullMethod handler) q s)) stream_calls
      \<lparr>trace = [], next_span = 0, ext = w\<rparr>)"
    by (rule server_stream.calls_complete [OF spans_complete_start])
  from server_unary.calls_complete [OF this, of env fs unary_calls]
  show ?thesis by (simp add: case_prod_unfold)
qed

section \<open>The interceptors are transparent\<close>

text \<open>The unary server interceptor in the configuration the server installs (no options) is
  transparent: the handler runs exactly once, under a context that carries the new server span,
  and its response, error, panic and effects are passed through unchanged; around it the
  interceptor starts one span named after the method with the extracted parent, tags and logs it
  exactly when the handler returned an error, and finishes it on every path.\<close>

theorem server_interceptor_transparent:
  "OpenTracingServerInterceptor env [] ctx req fullMethod handler s =
     (let sid = next_span s;
          ctx' = ContextWithSpan env ctx sid;
          (result, w') = handler ctx' req (ext s)
      in (result, s\<lparr>trace := trace s @
             [StartSpan sid fullMethod [RPCServerOption (fst (extractSpanContext env ctx)), gRPCComponentTag],
              CallNext ctx' req] @
             (case result of Inl p \<Rightarrow> [] | Inr (resp, err) \<Rightarrow> failure_events env sid err False) @
             [FinishSpan sid],
           next_span := Suc sid, ext := w'\<rparr>))"
  unfolding OpenTracingServerInterceptor_def
  by (simp add: Let_def go_simps run_simps failure_events_def finish_span_def
      split: prod.split sum.split option.split)

text \<open>The streaming server interceptor hands the handler a stream whose context carries the
  new span and whose messages are those of the original stream, passes the handler's error and
  panic through, and brackets the call with one span.\<close>

theorem stream_interceptor_transparent:
  "OpenTracingStreamServerInterceptor env [] srv ss fullMethod handler s =
     (let sid = next_span s;
          ss' = openTracingServerStream ss (ContextWithSpan env (stream_Context ss) sid);
          (result, w') = handler srv ss' (ext s)
      in (result, s\<lparr>trace := trace s @
             [StartSpan sid fullMethod
                [RPCServerOption (fst (extractSpanContext env (stream_Context ss))), gRPCComponentTag],
              CallNext (stream_Context ss') srv] @
             (case result of Inl p \<Rightarrow> [] | Inr err \<Rightarrow> failure_events env sid err False) @
             [FinishSpan sid],
           next_span := Suc sid, ext := w'\<rparr>))"
  unfolding OpenTracingStreamServerInterceptor_def
  by (simp add: Let_def go_simps run_simps failure_events_def finish_span_def
      split: prod.split sum.split option.split)

text \<open>Options of the server interceptor. A call that the inclusion function rejects is not
  traced at all: the handler runs under the caller's own context and no span is touched. Otherwise
  payloads are logged (the request before, the response after a successful handler) exactly when
  \<open>LogPayloads\<close> was given, and a decorator that panics turns the handler's result into that
  panic, with the span still finished.\<close>

theorem server_interceptor_options:
  assumes "inclusion ctxparent fullMethod req VNil = False"
    and "fst (extractSpanContext env ctx) = ctxparent"
    and "handler (ContextWithSpan env ctx (next_span s)) req (ext s) = (Inr (resp, None), w1)"
    and "dec (ContextWithSpan env ctx (next_span s)) (next_span s) fullMethod req resp None w1 = (Inl p, w2)"
  shows "OpenTracingServerInterceptor env (fs @ [IncludingSpans inclusion]) ctx req fullMethod handler s =
      (fst (handler ctx req (ext s)),
       s\<lparr>trace := trace s @ [CallNext ctx req], ext := snd (handler ctx req (ext s))\<rparr>)
    \<and> OpenTracingServerInterceptor env [LogPayloads, SpanDecorator dec] ctx req fullMethod handler s =
      (Inl p, s\<lparr>trace := trace s @
          [StartSpan (next_span s) fullMethod [RPCServerOption ctxparent, gRPCComponentTag],
           LogFields (next_span s) [LogObject ''gRPC request'' req],
           CallNext (ContextWithSpan env ctx (next_span s)) req,
           LogFields (next_span s) [LogObject ''gRPC response'' resp],
           Decorate (next_span s) (ContextWithSpan env ctx (next_span s)) fullMethod req resp None,
           FinishSpan (next_span s)],
         next_span := Suc (next_span s), ext := w2\<rparr>)"
proof
  have ex: "excluded (options_apply (fs @ [IncludingSpans inclusion]) newOptions) ctxparent fullMethod req VNil"
    by (simp add: options_apply_def excluded_def IncludingSpans_def assms(1))
  then show "OpenTracingServerInterceptor env (fs @ [IncludingSpans inclusion]) ctx req fullMethod handler s =
      (fst (handler ctx req (ext s)),
       s\<lparr>trace := trace s @ [CallNext ctx req], ext := snd (handler ctx req (ext s))\<rparr>)"
    by (simp add: OpenTracingServerInterceptor_def Let_def assms(2) run_simps)
next
  have "decorator (options_apply [LogPayloads, SpanDecorator dec] newOptions) = Some dec"
      "logPayloads (options_apply [LogPayloads, SpanDecorator dec] newOptions)"
      "\<not> excluded (options_apply [LogPayloads, SpanDecorator dec] newOptions) ctxparent fullMethod req VNil"
    by (simp_all add: options_apply_def LogPayloads_def SpanDecorator_def excluded_def)
  then show "OpenTracingServerInterceptor env [LogPayloads, SpanDecorator dec] ctx req fullMethod handler s =
      (Inl p, s\<lparr>trace := trace s @
          [StartSpan (next_span s) fullMethod [RPCServerOption ctxparent, gRPCComponentTag],
           LogFields (next_span s) [LogObject ''gRPC request'' req],
           CallNext (ContextWithSpan env ctx (next_span s)) req,
           LogFields (next_span s) [LogObject ''gRPC response'' resp],
           Decorate (next_span s) (ContextWithSpan env ctx (next_span s)) fullMethod req resp None,
           FinishSpan (next_span s)],
         next_span := Suc (next_span s), ext := w2\<rparr>)"
    by (simp add: OpenTracingServerInterceptor_def Let_def assms go_simps run_simps finish_span_def)
qed

theorem server_interceptor_options_witness:
  "OpenTracingServerInterceptor sample_env ([] @ [IncludingSpans (\<lambda>_ m _ _. m \<noteq> ''/h/Check'')])
      Background VNil ''/h/Check'' (\<lambda>c r w. (Inr (VString ''ok'', None), w + 1))
      \<lparr>trace = [], next_span = 0, ext = 0 :: nat\<rparr> =
     (Inr (VString ''ok'', None), \<lparr>trace = [CallNext Background VNil], next_span = 0, ext = 1\<rparr>)
   \<and> fst (OpenTracingServerInterceptor sample_env [LogPayloads, SpanDecorator (\<lambda>_ _ _ _ _ _ w. (Inl (UserPanic 3), w))]
      Background VNil ''/h/Check'' (\<lambda>c r w. (Inr (VString ''ok'', None), w + 1))
      \<lparr>trace = [], next_span = 0, ext = 0 :: nat\<rparr>) = Inl (UserPanic 3)"
proof -
  have parent: "fst (extractSpanContext sample_env Background) = None"
    by (simp add: extractSpanContext_def sample_env_def carrier_pairs_eq)
  show ?thesis
    using server_interceptor_options [where inclusion = "\<lambda>_ m _ _. m \<noteq> ''/h/Check''" and ctxparent = None
        and fullMethod = "''/h/Check''" and req = VNil and env = sample_env and ctx = Background
        and handler = "\<lambda>c r w. (Inr (VString ''ok'', None), w + 1)" and resp = "VString ''ok''"
        and s = "\<lparr>trace = [], next_span = 0, ext = 0 :: nat\<rparr>" and ?w1.0 = 1
        and dec = "\<lambda>_ _ _ _ _ _ w. (Inl (UserPanic 3), w)" and p = "UserPanic 3" and ?w2.0 = 1
        and fs = "[]", OF _ parent]
    by simp
qed

end
