(* ===== verification/Concurrent_Tracing.thy ===== *)
theory Concurrent_Tracing
  imports Client_Stream Server_Interceptor
begin

text \<open>
  The interceptors of \<open>src/pkg/tracing\<close> in a process with many goroutines. Each call runs in a goroutine of its
  own and all share one tracer, so what they report about their spans arrives interleaved, call by call on the
  tracer; a client stream goes on reporting after the interceptor has returned it (\<open>Client_Stream\<close>).

  A process is the record of what the tracer was told and a list of activities: a call with the reports it still
  has to make, or an open stream. What a call reports, and what it does to the world outside the tracer, is given
  by the interceptors of \<open>Client_Interceptor\<close> and \<open>Server_Interceptor\<close>; the world may change at any time.

  Shown, for client and server processes: every span is started first, finished at most once, and untouched
  afterwards; once everybody has come to rest, exactly the spans that the code leaves open are open.
\<close>

section \<open>Processes\<close>

text \<open>What becomes of a call when the interceptor is done: nothing more happens, or a traced stream was opened, or
  the streamer panicked.\<close>

datatype fate = Over | Opens stream_cfg | Lost

datatype activity =
    Emitting "nat option" "span_event list" fate
  | Streaming stream_cfg sys

record 'w proc =
  plog :: "span_event list"
  pnext :: nat
  pext :: 'w
  acts :: "activity list"

definition new_span :: "'w proc \<Rightarrow> 'w tw \<Rightarrow> nat option" where
  "new_span p t = (if next_span t = pnext p then None else Some (pnext p))"

text \<open>\<open>begins s f t\<close>: on the tracer and the world of \<open>s\<close> a call may begin that leads to \<open>t\<close> and has the fate \<open>f\<close>.\<close>

inductive act_step ::
    "tenv \<Rightarrow> ('w tw \<Rightarrow> fate \<Rightarrow> 'w tw \<Rightarrow> bool) \<Rightarrow> 'w proc \<Rightarrow> 'w proc \<Rightarrow> bool" for env begins where
  begin_call: "begins \<lparr>trace = [], next_span = pnext p, ext = pext p\<rparr> f t \<Longrightarrow>
    act_step env begins p (p\<lparr>pnext := next_span t, pext := ext t,
      acts := acts p @ [Emitting (new_span p t) (trace t) f]\<rparr>)"
| report: "acts p = xs @ Emitting sp (e # es) f # ys \<Longrightarrow>
    act_step env begins p (p\<lparr>plog := plog p @ [e], acts := xs @ Emitting sp es f # ys\<rparr>)"
| open_stream: "acts p = xs @ Emitting sp [] (Opens cfg) # ys \<Longrightarrow>
    act_step env begins p (p\<lparr>acts := xs @ Streaming cfg newOpenTracingClientStream # ys\<rparr>)"
| use_stream: "acts p = xs @ Streaming cfg s # ys \<Longrightarrow> stream_step env cfg s s' \<Longrightarrow>
    events s' = events s @ new \<Longrightarrow>
    act_step env begins p (p\<lparr>plog := plog p @ new, acts := xs @ Streaming cfg s' # ys\<rparr>)"
| outside: "act_step env begins p (p\<lparr>pext := w\<rparr>)"

inductive proc_reach ::
    "tenv \<Rightarrow> ('w tw \<Rightarrow> fate \<Rightarrow> 'w tw \<Rightarrow> bool) \<Rightarrow> 'w proc \<Rightarrow> bool" for env begins where
  fresh: "proc_reach env begins \<lparr>plog = [], pnext = 0, pext = w, acts = []\<rparr>"
| more: "proc_reach env begins p \<Longrightarrow> act_step env begins p p' \<Longrightarrow> proc_reach env begins p'"

section \<open>Client and server processes\<close>

text \<open>A stream that the client interceptor returns. Its context, and whether a decorator panics, are up to gRPC
  and the user.\<close>

fun stream_fate :: "'w tOption list \<Rightarrow> Ctx \<Rightarrow> (goerror option \<Rightarrow> panic option)
    \<Rightarrow> panic + 'cs client_stream \<times> goerror option \<Rightarrow> fate" where
  "stream_fate fs cctx d (Inl p) = Lost"
| "stream_fate fs cctx d (Inr (PlainStream cs, err)) = Over"
| "stream_fate fs cctx d (Inr (TracedStream cs method desc sid, err)) =
     Opens \<lparr> cfg_span = sid, cfg_method = method, cfg_desc = desc, cfg_ctx = cctx,
       cfg_decorator = (if decorator (options_apply fs newOptions) = None then None else Some d) \<rparr>"

text \<open>A client process makes unary calls and opens streams through the interceptors with the options \<open>fs\<close>; gRPC's
  own invoker and streamer are arbitrary.\<close>

inductive client_begins ::
    "tenv \<Rightarrow> 'w tOption list \<Rightarrow> ('x, 'w) UnaryInvoker \<Rightarrow> ('x, 'cs, 'w) Streamer \<Rightarrow> 'w tw \<Rightarrow> fate \<Rightarrow> 'w tw \<Rightarrow> bool"
    for env fs invoker streamer where
  unary_call: "client_begins env fs invoker streamer s Over
    (snd (OpenTracingClientInterceptor env fs ctx method req resp rest invoker s))"
| stream_call: "OpenTracingStreamClientInterceptor env fs ctx desc rest method streamer s = (r, t) \<Longrightarrow>
    client_begins env fs invoker streamer s (stream_fate fs cctx d r) t"

text \<open>A server process handles unary calls and streams, with any handler.\<close>

inductive server_begins :: "tenv \<Rightarrow> 'w tOption list \<Rightarrow> 'w tw \<Rightarrow> fate \<Rightarrow> 'w tw \<Rightarrow> bool" for env fs where
  unary_served: "server_begins env fs s Over
    (snd (OpenTracingServerInterceptor env fs ctx req fullMethod handler s))"
| stream_served: "server_begins env fs s Over
    (snd (OpenTracingStreamServerInterceptor env fs srv ss fullMethod handler s))"

section \<open>Lives of spans\<close>

text \<open>Started and not finished; started and finished.\<close>

definition open_life :: "nat \<Rightarrow> span_event list \<Rightarrow> bool" where
  "open_life n evs \<longleftrightarrow> (\<exists>name opts mid. evs = StartSpan n name opts # mid \<and>
     list_all (\<lambda>e. \<not> is_start e \<and> \<not> is_finish e) mid)"

definition whole_life :: "nat \<Rightarrow> span_event list \<Rightarrow> bool" where
  "whole_life n evs \<longleftrightarrow> (\<exists>b. open_life n b \<and> evs = b @ [FinishSpan n])"

text \<open>As far as it goes: the start comes first and only there, the finish last.\<close>

definition orderly :: "span_event list \<Rightarrow> bool" where
  "orderly evs \<longleftrightarrow> evs = [] \<or> is_start (hd evs) \<and> list_all (\<lambda>e. \<not> is_start e) (tl evs) \<and>
     list_all (\<lambda>e. \<not> is_finish e) (butlast evs)"

lemma orderly_nil [simp]: "orderly []"
  by (simp add: orderly_def)

lemma orderly_Cons:
  "orderly (e # es) \<longleftrightarrow> is_start e \<and> list_all (\<lambda>x. \<not> is_start x) es \<and> list_all (\<lambda>x. \<not> is_finish x) (butlast (e # es))"
  by (simp add: orderly_def)

lemma list_all_butlast: "list_all P xs \<Longrightarrow> list_all P (butlast xs)"
  by (auto simp: list_all_iff dest: in_set_butlastD)

lemma open_life_orderly: "open_life n evs \<Longrightarrow> orderly evs"
  by (auto simp: open_life_def orderly_Cons list_all_iff dest!: in_set_butlastD)

lemma whole_life_orderly: "whole_life n evs \<Longrightarrow> orderly evs"
  by (auto simp: whole_life_def open_life_def orderly_Cons list_all_iff butlast_append)

lemma orderly_prefix: "orderly (xs @ ys) \<Longrightarrow> orderly xs"
  by (cases xs; cases ys) (auto simp: orderly_Cons butlast_append list_all_iff dest!: in_set_butlastD split: if_splits)

lemma whole_life_complete: "whole_life n (span_events n tr) \<Longrightarrow> complete_life n tr"
  by (auto simp: whole_life_def open_life_def complete_life_def)

lemma open_life_incomplete: "open_life n (span_events n tr) \<Longrightarrow> \<not> complete_life n tr"
  by (auto simp: open_life_def complete_life_def list_all_iff dest: last_in_set)

lemma open_life_stream:
  assumes "open_life n b" "\<And>e. e \<in> set evs \<Longrightarrow> \<not> is_start e \<and> \<not> is_finish e"
  shows "open_life n (b @ evs)"
  using assms by (auto simp: open_life_def list_all_iff)


section \<open>The invariant\<close>

fun act_span :: "activity \<Rightarrow> nat option" where
  "act_span (Emitting sp es f) = sp"
| "act_span (Streaming cfg s) = Some (cfg_span cfg)"

text \<open>What is on record about the span of an activity, with what it still has to report.\<close>

fun act_inv :: "tenv \<Rightarrow> span_event list \<Rightarrow> activity \<Rightarrow> bool" where
  "act_inv env tr (Emitting None es f) \<longleftrightarrow> list_all (\<lambda>e. on_span e = None) es \<and> (\<forall>cfg. f \<noteq> Opens cfg)"
| "act_inv env tr (Emitting (Some n) es f) \<longleftrightarrow> list_all (\<lambda>e. on_span e = None \<or> on_span e = Some n) es \<and>
     (if f = Over then whole_life else open_life) n (span_events n tr @ span_events n es) \<and>
     (\<forall>cfg. f = Opens cfg \<longrightarrow> cfg_span cfg = n)"
| "act_inv env tr (Streaming cfg s) \<longleftrightarrow> stream_reachable env cfg s \<and>
     (\<exists>b. open_life (cfg_span cfg) b \<and> span_events (cfg_span cfg) tr = b @ events s)"

text \<open>The spans belong to the activities, one by one and in the order in which they began.\<close>

definition proc_inv :: "tenv \<Rightarrow> 'w proc \<Rightarrow> bool" where
  "proc_inv env p \<longleftrightarrow> List.map_filter act_span (acts p) = [0..<pnext p] \<and>
     list_all (act_inv env (plog p)) (acts p) \<and> (\<forall>e n. e \<in> set (plog p) \<longrightarrow> on_span e = Some n \<longrightarrow> n < pnext p)"

lemma map_filter_append: "List.map_filter f (xs @ ys) = List.map_filter f xs @ List.map_filter f ys"
  by (simp add: List.map_filter_def)

lemma map_filter_Some: "f x = Some n \<Longrightarrow> List.map_filter f (x # xs) = n # List.map_filter f xs"
  by (simp add: List.map_filter_def)

lemma in_map_filter: "x \<in> set xs \<Longrightarrow> f x = Some n \<Longrightarrow> n \<in> set (List.map_filter f xs)"
  by (force simp: List.map_filter_def)

lemma act_inv_frame:
  assumes "act_inv env tr a" "\<And>e n. e \<in> set new \<Longrightarrow> on_span e = Some n \<Longrightarrow> act_span a \<noteq> Some n"
  shows "act_inv env (tr @ new) a"
proof -
  have "span_events n new = []" if "act_span a = Some n" for n
    using assms(2) that by (intro span_events_other) (auto simp: list_all_iff)
  with assms(1) show ?thesis by (cases "(env, tr, a)" rule: act_inv.cases) (auto split: if_splits)
qed

lemma proc_inv_act:
  assumes inv: "proc_inv env p" and "acts p = xs @ a # ys" "act_span b = act_span a"
    and new: "\<And>e. e \<in> set new \<Longrightarrow> on_span e = None \<or> on_span e = act_span a"
    and b: "act_inv env (plog p @ new) b"
  shows "proc_inv env (p\<lparr>plog := plog p @ new, acts := xs @ b # ys\<rparr>)"
proof -
  have spans: "List.map_filter act_span xs @ List.map_filter act_span (a # ys) = [0..<pnext p]"
    using inv assms(2) by (simp add: proc_inv_def map_filter_append)
  then have d: "distinct (List.map_filter act_span xs @ List.map_filter act_span (a # ys))" by simp
  have other: "act_span c \<noteq> Some n" if "c \<in> set xs \<union> set ys" "act_span a = Some n" for c n
    using d that in_map_filter [of c _ act_span n] by (auto simp: map_filter_Some)
  have bound: "n < pnext p" if "act_span a = Some n" for n
  proof -
    have "n \<in> set [0..<pnext p]" unfolding spans [symmetric] using that by (simp add: map_filter_Some)
    then show ?thesis by simp
  qed
  have frame: "act_inv env (plog p @ new) c" if c: "c \<in> set xs \<union> set ys" for c
  proof (rule act_inv_frame)
    show "act_inv env (plog p) c" using inv assms(2) c by (auto simp: proc_inv_def list_all_iff)
    show "act_span c \<noteq> Some n" if "e \<in> set new" "on_span e = Some n" for e n
      using new [OF that(1)] other [OF c, of n] that(2) by fastforce
  qed
  have "list_all (act_inv env (plog p @ new)) (xs @ b # ys)" using frame b by (auto simp: list_all_iff)
  moreover have "n < pnext p" if "e \<in> set new" "on_span e = Some n" for e n
    using new [OF that(1)] bound that(2) by auto
  moreover have "List.map_filter act_span (xs @ b # ys) = [0..<pnext p]"
    using spans assms(3) by (cases "act_span a") (simp_all add: map_filter_append List.map_filter_def)
  ultimately show ?thesis using inv by (auto simp: proc_inv_def)
qed

lemma stream_step_reports:
  assumes "stream_step env cfg s s'"
  shows "\<exists>new. events s' = events s @ new \<and> list_all (\<lambda>e. on_span e = Some (cfg_span cfg)) new"
  using assms
proof (cases rule: stream_step.cases)
  case (finish_acts t p s'')
  then show ?thesis
    by (cases "(env, cfg, pcs s t, s)" rule: finish_step.cases)
      (auto simp: tag_events_def split: if_splits option.splits)
qed auto


section \<open>Sources of calls\<close>

text \<open>What the reports of a call look like when it began on a tracer whose next span is \<open>n\<close>.\<close>

definition span_shape :: "nat \<Rightarrow> fate \<Rightarrow> span_event list \<Rightarrow> nat \<Rightarrow> bool" where
  "span_shape n f evs n' \<longleftrightarrow>
     n' = n \<and> list_all (\<lambda>e. on_span e = None) evs \<and> (\<forall>cfg. f \<noteq> Opens cfg) \<or>
     n' = Suc n \<and> (\<forall>cfg. f = Opens cfg \<longrightarrow> cfg_span cfg = n) \<and>
       (\<exists>name opts mid. list_all (within n) mid \<and>
         evs = StartSpan n name opts # mid @ (if f = Over then [FinishSpan n] else []))"

lemma within_events:
  "list_all (within n) mid \<Longrightarrow> list_all (\<lambda>e. \<not> is_start e \<and> \<not> is_finish e) (span_events n mid)"
  "list_all (within n) mid \<Longrightarrow> list_all (\<lambda>e. on_span e = None \<or> on_span e = Some n) mid"
  by (auto simp: list_all_iff within_def span_events_def)

lemma span_shape_inv:
  assumes "span_shape n f evs n'" "\<And>e. e \<in> set tr \<Longrightarrow> on_span e \<noteq> Some n"
  shows "act_inv env tr (Emitting (if n' = n then None else Some n) evs f)"
proof -
  have tr: "span_events n tr = []" using assms(2) by (intro span_events_other) (auto simp: list_all_iff)
  have "(if f = Over then whole_life else open_life) n (span_events n evs)"
    if "list_all (within n) mid" "evs = StartSpan n name opts # mid @ (if f = Over then [FinishSpan n] else [])" for name opts mid
    using within_events(1) [OF that(1)] that(2)
    by (auto simp: open_life_def whole_life_def span_events_def)
  moreover have "list_all (\<lambda>e. on_span e = None \<or> on_span e = Some n) evs"
    if "list_all (within n) mid" "evs = StartSpan n name opts # mid @ (if f = Over then [FinishSpan n] else [])" for name opts mid
    using within_events(2) [OF that(1)] that(2) by simp
  ultimately show ?thesis using assms(1) tr by (auto simp: span_shape_def)
qed

text \<open>The contract of the interceptors with the process around them: a call accounts for exactly the span it
  started, or leaves it to a stream. In a closed source it never leaves it.\<close>

locale span_source =
  fixes begins :: "'w tw \<Rightarrow> fate \<Rightarrow> 'w tw \<Rightarrow> bool"
  assumes shape: "begins s f t \<Longrightarrow> trace s = [] \<Longrightarrow> span_shape (next_span s) f (trace t) (next_span t)"
begin

lemma step_inv:
  assumes "act_step env begins p p'" "proc_inv env p"
  shows "proc_inv env p'"
  using assms(1)
proof (cases rule: act_step.cases)
  case (begin_call f t)
  note shape = shape [OF begin_call(2), simplified]
  have fresh: "on_span e \<noteq> Some (pnext p)" if "e \<in> set (plog p)" for e
    using assms(2) that by (auto simp: proc_inv_def)
  have "act_inv env (plog p) (Emitting (new_span p t) (trace t) f)"
    using span_shape_inv [OF shape fresh] by (simp add: new_span_def)
  then show ?thesis
    using assms(2) shape unfolding begin_call(1)
    by (auto simp: proc_inv_def map_filter_append new_span_def List.map_filter_def span_shape_def)
next
  case (report xs sp e es f ys)
  have "act_inv env (plog p) (Emitting sp (e # es) f)"
    using assms(2) report(2) by (simp add: proc_inv_def)
  then show ?thesis
    unfolding report(1)
    by (intro proc_inv_act [OF assms(2) report(2)]; cases sp) (auto simp: span_events_def)
next
  case (open_stream xs sp cfg ys)
  have "act_inv env (plog p) (Emitting sp [] (Opens cfg))"
    using assms(2) open_stream(2) by (simp add: proc_inv_def)
  then have "act_span (Streaming cfg newOpenTracingClientStream) = sp"
      "act_inv env (plog p) (Streaming cfg newOpenTracingClientStream)"
    by (cases sp; auto simp: newOpenTracingClientStream_def span_events_def intro: stream_start [unfolded newOpenTracingClientStream_def])+
  then show ?thesis
    using proc_inv_act [OF assms(2) open_stream(2), of _ "[]"] by (simp add: open_stream(1))
next
  case (use_stream xs cfg s ys s' new)
  have "list_all (\<lambda>e. on_span e = Some (cfg_span cfg)) new"
    using stream_step_reports [OF use_stream(3)] use_stream(4) by auto
  moreover have "span_events (cfg_span cfg) new = new"
    using calculation by (simp add: span_events_def list_all_iff)
  moreover have "act_inv env (plog p) (Streaming cfg s)"
    using assms(2) use_stream(2) by (simp add: proc_inv_def)
  ultimately show ?thesis
    unfolding use_stream(1)
    by (intro proc_inv_act [OF assms(2) use_stream(2)]) (auto simp: list_all_iff use_stream(4) intro: stream_more use_stream(3))
next
  case (outside w)
  with assms(2) show ?thesis by (simp add: proc_inv_def)
qed

lemma reach_inv: "proc_reach env begins p \<Longrightarrow> proc_inv env p"
proof (induction rule: proc_reach.induct)
  case (fresh w)
  then show ?case by (simp add: proc_inv_def List.map_filter_def)
next
  case (more p p')
  then show ?case by (blast intro: step_inv)
qed

end


lemma one_span_shape:
  assumes "one_span m" "trace s = []"
  shows "span_shape (next_span s) Over (trace (snd (m s))) (next_span (snd (m s)))"
  using assms(1) [unfolded one_span_def, rule_format, of s] assms(2) by (auto simp: span_shape_def)

lemma stream_client_shape:
  assumes run: "OpenTracingStreamClientInterceptor env fs ctx desc rest method streamer s = (r, t)" and "trace s = []"
  shows "span_shape (next_span s) (stream_fate fs cctx d r) (trace t) (next_span t)"
proof (cases "excluded (options_apply fs newOptions) (parent_context env ctx) method VNil VNil")
  case True
  with run assms(2) show ?thesis
    unfolding OpenTracingStreamClientInterceptor_def
    by (auto simp: Let_def go_simps run_simps span_shape_def split: prod.splits sum.splits)
next
  case False
  let ?n = "next_span s"
  have "\<exists>name opts mid. list_all (within ?n) mid \<and> next_span t = Suc ?n \<and>
      (\<forall>cfg. stream_fate fs cctx d r = Opens cfg \<longrightarrow> cfg_span cfg = ?n) \<and>
      trace t = StartSpan ?n name opts # mid @ (if stream_fate fs cctx d r = Over then [FinishSpan ?n] else [])"
    using run assms(2) False unfolding OpenTracingStreamClientInterceptor_def
    by (auto simp: Let_def go_simps run_simps finish_span_def inject_events_def tag_events_def within_def
        split: prod.splits sum.splits option.splits if_splits)
  then show ?thesis by (auto simp: span_shape_def)
qed


section \<open>Processes at rest\<close>

text \<open>Nobody has anything to report, and nobody is inside \<open>finishFunc\<close>.\<close>

fun at_rest :: "tenv \<Rightarrow> activity \<Rightarrow> bool" where
  "at_rest env (Emitting sp es f) \<longleftrightarrow> es = [] \<and> (\<forall>cfg. f \<noteq> Opens cfg)"
| "at_rest env (Streaming cfg s) \<longleftrightarrow> (\<forall>t. finish_step env cfg (pcs s t) s = None)"

text \<open>The spans that the code leaves open: those of streams that nobody has asked to finish, and those of calls
  whose streamer panicked.\<close>

fun left_open :: "activity \<Rightarrow> nat set" where
  "left_open (Emitting (Some n) es Lost) = {n}"
| "left_open (Emitting sp es f) = {}"
| "left_open (Streaming cfg s) = (if cas_log s = [] then {cfg_span cfg} else {})"

lemma final_events_cases:
  "\<exists>evs. final_events env cfg err = evs @ [FinishSpan (cfg_span cfg)] \<and> (\<forall>e \<in> set evs. \<not> is_start e \<and> \<not> is_finish e)"
  by (auto simp: final_events_def report_events_def decorate_events_def tag_events_def split: option.split)

lemma stream_life:
  assumes "open_life (cfg_span cfg) b" "stream_reachable env cfg s"
  shows "orderly (b @ events s)"
proof -
  have "prefix (events s) (case cas_log s of [] \<Rightarrow> [] | first # _ \<Rightarrow> final_events env cfg first)"
    by (rule stream_events_prefix [OF assms(2), THEN conjunct1])
  moreover have "orderly (b @ (case cas_log s of [] \<Rightarrow> [] | first # _ \<Rightarrow> final_events env cfg first))"
  proof (cases "cas_log s")
    case Nil
    with assms(1) show ?thesis by (simp add: open_life_orderly)
  next
    case (Cons first rest)
    obtain evs where "final_events env cfg first = evs @ [FinishSpan (cfg_span cfg)]"
        "\<And>e. e \<in> set evs \<Longrightarrow> \<not> is_start e \<and> \<not> is_finish e"
      using final_events_cases by blast
    then have "whole_life (cfg_span cfg) (b @ final_events env cfg first)"
      using open_life_stream [OF assms(1)] by (auto simp: whole_life_def)
    with Cons show ?thesis by (simp add: whole_life_orderly)
  qed
  ultimately show ?thesis by (metis append.assoc orderly_prefix prefix_def)
qed

lemma act_orderly:
  assumes "act_inv env tr a" "act_span a = Some n"
  shows "orderly (span_events n tr)"
  using assms
proof (cases "(env, tr, a)" rule: act_inv.cases)
  case (2 env' tr' m es f)
  then have "orderly (span_events n tr @ span_events n es)"
    using assms by (auto intro: whole_life_orderly open_life_orderly split: if_splits)
  then show ?thesis by (rule orderly_prefix)
next
  case (3 env' tr' cfg s)
  with assms show ?thesis by (auto intro: stream_life)
qed simp

lemma act_complete:
  assumes "act_inv env tr a" "act_span a = Some n" "at_rest env a"
  shows "complete_life n tr \<longleftrightarrow> n \<notin> left_open a"
  using assms
proof (cases "(env, tr, a)" rule: act_inv.cases)
  case (2 env' tr' m es f)
  with assms have "(if f = Over then whole_life else open_life) n (span_events n tr)" "f = Over \<or> f = Lost"
    by (auto simp: span_events_def) (cases f; simp)
  with 2 assms show ?thesis
    by (auto dest: whole_life_complete open_life_incomplete)
next
  case (3 env' tr' cfg s)
  with assms obtain b where b: "open_life n b" "span_events n tr = b @ events s" and s: "stream_reachable env cfg s"
      "cfg_span cfg = n" by auto
  have ev: "events s = (case cas_log s of [] \<Rightarrow> [] | first # _ \<Rightarrow> final_events env cfg first)"
    using assms(3) 3 s(1) by (auto intro!: quiet_stream_events)
  show ?thesis
  proof (cases "cas_log s")
    case Nil
    with b ev 3 s(2) show ?thesis using open_life_incomplete [of n tr] by simp
  next
    case (Cons first rest)
    obtain evs where "final_events env cfg first = evs @ [FinishSpan n]" "\<And>e. e \<in> set evs \<Longrightarrow> \<not> is_start e \<and> \<not> is_finish e"
      using final_events_cases [of env cfg first] s(2) by blast
    then have "whole_life n (span_events n tr)"
      using open_life_stream [OF b(1)] b(2) ev Cons by (auto simp: whole_life_def)
    with 3 Cons show ?thesis by (simp add: whole_life_complete)
  qed
qed simp


lemma map_filter_same:
  assumes "distinct (List.map_filter f xs)" "x \<in> set xs" "y \<in> set xs" "f x = Some n" "f y = Some n"
  shows "x = y"
  using assms
proof (induction xs)
  case (Cons z zs)
  then show ?case using in_map_filter [of x zs f n] in_map_filter [of y zs f n]
    by (cases "f z") (auto simp: map_filter_Some List.map_filter_def)
qed simp

lemma left_open_span: "n \<in> left_open a \<Longrightarrow> act_span a = Some n"
  by (cases a rule: left_open.cases) (auto split: if_splits)

text \<open>What follows for any source, and more for closed ones.\<close>

locale closed_source = span_source +
  assumes over: "begins s f t \<Longrightarrow> f = Over"
begin

lemma reach_over:
  "proc_reach env begins p \<Longrightarrow> \<forall>a \<in> set (acts p). \<exists>sp es. a = Emitting sp es Over"
proof (induction rule: proc_reach.induct)
  case (more p p')
  from more(2) show ?case
  proof (cases rule: act_step.cases)
    case (begin_call f t)
    then show ?thesis using more.IH over [OF begin_call(2)] by simp
  qed (use more.IH in auto)
qed simp

end

context span_source
begin

lemma reach_orderly:
  assumes "proc_reach env begins p"
  shows "orderly (span_events n (plog p))" "pnext p \<le> n \<Longrightarrow> span_events n (plog p) = []"
proof -
  note inv = reach_inv [OF assms, unfolded proc_inv_def]
  show later: "span_events n (plog p) = []" if "pnext p \<le> n" using inv that by (intro span_events_other) (force simp: list_all_iff)
  show "orderly (span_events n (plog p))"
  proof (cases "n < pnext p")
    case True
    then have "n \<in> set (List.map_filter act_span (acts p))" using inv by simp
    then obtain a where "a \<in> set (acts p)" "act_span a = Some n" by (auto simp: List.map_filter_def)
    with inv show ?thesis by (auto simp: list_all_iff intro: act_orderly)
  next
    case False
    with later show ?thesis by simp
  qed
qed

lemma reach_at_rest:
  assumes "proc_reach env begins p" "\<forall>a \<in> set (acts p). at_rest env a" "n < pnext p"
  shows "complete_life n (plog p) \<longleftrightarrow> n \<notin> \<Union> (left_open ` set (acts p))"
proof -
  note inv = reach_inv [OF assms(1), unfolded proc_inv_def]
  have "n \<in> set (List.map_filter act_span (acts p))" using inv assms(3) by simp
  then obtain a where a: "a \<in> set (acts p)" "act_span a = Some n" by (auto simp: List.map_filter_def)
  have "n \<notin> left_open b" if "b \<in> set (acts p)" "b \<noteq> a" for b
    using map_filter_same [of act_span "acts p" a b n] inv a that left_open_span [of n b] by auto
  moreover have "complete_life n (plog p) \<longleftrightarrow> n \<notin> left_open a"
    using inv a assms(2) by (intro act_complete) (auto simp: list_all_iff)
  ultimately show ?thesis using a(1) by blast
qed

text \<open>An activity that is not at rest can go on.\<close>

lemma can_go_on:
  assumes "a \<in> set (acts p)" "\<not> at_rest env a"
  shows "\<exists>p'. act_step env begins p p' \<and> length (acts p') = length (acts p)"
proof -
  obtain xs ys where p: "acts p = xs @ a # ys" using assms(1) by (meson split_list)
  show ?thesis
  proof (cases a)
    case (Emitting sp es f)
    then consider e es' where "es = e # es'" | cfg where "es = []" "f = Opens cfg"
      using assms(2) by (cases es) auto
    then show ?thesis
    proof cases
      case 1
      with Emitting p report [of p xs sp e es' f ys env begins] show ?thesis by force
    next
      case 2
      with Emitting p open_stream [of p xs sp cfg ys env begins] show ?thesis by force
    qed
  next
    case (Streaming cfg s)
    then obtain t q s' where "finish_step env cfg (pcs s t) s = Some (q, s')" using assms(2) by auto
    then have step: "stream_step env cfg s (set_pc t q s')" by (rule finish_acts)
    obtain new where "events (set_pc t q s') = events s @ new" using stream_step_reports [OF step] by blast
    from use_stream [OF p [unfolded Streaming] step this, of begins] show ?thesis
      using p Streaming by force
  qed
qed

end

interpretation client_process: span_source "client_begins env fs invoker streamer" for env fs invoker streamer
proof
  fix s t :: "'a tw" and f
  assume "client_begins env fs invoker streamer s f t" "trace s = []"
  then show "span_shape (next_span s) f (trace t) (next_span t)"
    by (cases rule: client_begins.cases) (auto intro: one_span_shape one_span_client_unary stream_client_shape)
qed

interpretation server_process: closed_source "server_begins env fs" for env fs
proof
  fix s t :: "'a tw" and f
  assume begins: "server_begins env fs s f t"
  show "span_shape (next_span s) f (trace t) (next_span t)" if "trace s = []"
    using begins that
    by (cases rule: server_begins.cases) (auto intro: one_span_shape one_span_server_unary one_span_server_stream)
  show "f = Over" using begins by (cases rule: server_begins.cases) simp_all
qed

section \<open>Properties\<close>

text \<open>C20: Tracing in a concurrent client. Any number of goroutines make unary calls and open streams through the
  interceptors that share a tracer, with any options and whatever invokers, streamers and decorators do (panics
  included), and their reports and those of the open streams, with their users, watchers and finalizers,
  interleave in any way. Then every span is started before anything else happens to it, started and finished at
  most once, and not touched after its finish. Whoever is not at rest can go on; and once
  all are at rest, a span is complete unless its stream was never asked to finish or its streamer panicked.\<close>

theorem client_spans_interleaved:
  assumes "proc_reach env (client_begins env fs invoker streamer) p"
  shows "(\<forall>n. orderly (span_events n (plog p))) \<and> (\<forall>n. pnext p \<le> n \<longrightarrow> span_events n (plog p) = []) \<and>
    (\<forall>a \<in> set (acts p). \<not> at_rest env a \<longrightarrow>
      (\<exists>p'. act_step env (client_begins env fs invoker streamer) p p' \<and> length (acts p') = length (acts p))) \<and>
    ((\<forall>a \<in> set (acts p). at_rest env a) \<longrightarrow>
      (\<forall>n < pnext p. complete_life n (plog p) \<longleftrightarrow> n \<notin> \<Union> (left_open ` set (acts p))))"
proof (intro conjI allI ballI impI, goal_cases)
  case (3 a)
  then show ?case by (rule client_process.can_go_on)
qed (simp_all only: client_process.reach_orderly [OF assms] client_process.reach_at_rest [OF assms])

text \<open>C3: Tracing in a concurrent server. However the reports of any number of unary calls and streams
  interleave, with any interceptor options and handlers or decorators that panic: every span is started first,
  started and finished at most once and not touched after its finish, and when all handlers have returned or
  panicked every span is complete.\<close>

theorem server_spans_interleaved:
  assumes "proc_reach env (server_begins env fs) p"
  shows "(\<forall>n. orderly (span_events n (plog p))) \<and> (\<forall>n. pnext p \<le> n \<longrightarrow> span_events n (plog p) = []) \<and>
    (\<forall>a \<in> set (acts p). \<not> at_rest env a \<longrightarrow>
      (\<exists>p'. act_step env (server_begins env fs) p p' \<and> length (acts p') = length (acts p))) \<and>
    ((\<forall>a \<in> set (acts p). at_rest env a) \<longrightarrow> (\<forall>n < pnext p. complete_life n (plog p)))"
proof (intro conjI allI ballI impI, goal_cases)
  case (3 a)
  then show ?case by (rule server_process.can_go_on)
next
  case (4 n)
  have "left_open a = {}" if "a \<in> set (acts p)" for a
    using server_process.reach_over [OF assms] that by (cases a rule: left_open.cases) auto
  with server_process.reach_at_rest [OF assms 4] show ?case by simp
qed (simp_all only: server_process.reach_orderly [OF assms])


section \<open>Concrete processes\<close>

definition sample_invoker :: "(unit, unit) UnaryInvoker" where
  "sample_invoker ctx method req resp rest = go_return ([], None)"

definition sample_streamer :: "(unit, nat, unit) Streamer" where
  "sample_streamer ctx desc rest method = go_return (Some 7, None)"

definition talk :: StreamDesc where
  "talk = \<lparr> StreamName = ''Talk'', ServerStreams = True, ClientStreams = True \<rparr>"

lemma reach_begin:
  assumes "proc_reach env begins \<lparr>plog = l, pnext = n, pext = w, acts = as\<rparr>"
    and "begins \<lparr>trace = [], next_span = n, ext = w\<rparr> f \<lparr>trace = evs, next_span = Suc n, ext = w'\<rparr>"
  shows "proc_reach env begins \<lparr>plog = l, pnext = Suc n, pext = w', acts = as @ [Emitting (Some n) evs f]\<rparr>"
  using more [OF assms(1) begin_call, of f] assms(2) by (force simp: new_span_def)

lemma reach_report:
  assumes "proc_reach env begins \<lparr>plog = l, pnext = n, pext = w, acts = xs @ Emitting sp (e # es) f # ys\<rparr>"
  shows "proc_reach env begins \<lparr>plog = l @ [e], pnext = n, pext = w, acts = xs @ Emitting sp es f # ys\<rparr>"
  using more [OF assms(1) report] by simp

lemma reach_open:
  assumes "proc_reach env begins \<lparr>plog = l, pnext = n, pext = w, acts = xs @ Emitting sp [] (Opens cfg) # ys\<rparr>"
  shows "proc_reach env begins \<lparr>plog = l, pnext = n, pext = w, acts = xs @ Streaming cfg newOpenTracingClientStream # ys\<rparr>"
  using more [OF assms(1) open_stream] by simp

lemmas reach_first = reach_report [where xs = "[]", simplified]
lemmas reach_second = reach_report [where xs = "[a]" for a, simplified]

text \<open>A unary call and a stream, begun in this order. Their reports interleave; the stream stays open.\<close>

theorem client_spans_interleaved_witness:
  "\<exists>p. proc_reach sample_env (client_begins sample_env [] sample_invoker sample_streamer) p \<and> pnext p = 2 \<and>
     (\<forall>a \<in> set (acts p). at_rest sample_env a) \<and> complete_life 0 (plog p) \<and> \<not> complete_life 1 (plog p)"
proof -
  let ?R = "proc_reach sample_env (client_begins sample_env [] sample_invoker sample_streamer)"
  define cfg where "cfg = \<lparr> cfg_span = 1, cfg_method = ''/g/Talk'', cfg_desc = talk, cfg_ctx = Background, cfg_decorator = None \<rparr>"
  note run = sample_invoker_def sample_streamer_def Let_def go_simps run_simps finish_span_def
  let ?s = "\<lambda>n. \<lparr>trace = [], next_span = n, ext = ()\<rparr>"
  obtain a0 b0 where unary: "snd (OpenTracingClientInterceptor sample_env [] Background ''/g/M'' VNil VNil () sample_invoker (?s 0)) =
      \<lparr>trace = [a0, b0, FinishSpan 0], next_span = 1, ext = ()\<rparr>"
    unfolding OpenTracingClientInterceptor_def by (simp add: run inject_events_def sample_env_def)
  obtain a1 b1 where stream: "OpenTracingStreamClientInterceptor sample_env [] Background talk () ''/g/Talk'' sample_streamer (?s 1) =
      (Inr (TracedStream (Some 7) ''/g/Talk'' talk 1, None), \<lparr>trace = [a1, b1], next_span = 2, ext = ()\<rparr>)"
    unfolding OpenTracingStreamClientInterceptor_def by (simp add: run inject_events_def sample_env_def)
  have fate: "stream_fate ([] :: unit tOption list) Background (\<lambda>_. None) (Inr (TracedStream (Some (7 :: nat)) ''/g/Talk'' talk 1, None)) = Opens cfg"
    by (simp add: cfg_def options_apply_def newOptions_def)
  let ?call = "\<lambda>es. Emitting (Some 0) es Over" and ?stream = "\<lambda>es. Emitting (Some 1) es (Opens cfg)"
  have "?R \<lparr>plog = [], pnext = 1, pext = (), acts = [?call [a0, b0, FinishSpan 0]]\<rparr>"
    using reach_begin [OF fresh, of "client_begins sample_env [] sample_invoker sample_streamer" "()" Over] unary
      unary_call [of sample_env "[]" sample_invoker sample_streamer "?s 0"] by (metis One_nat_def append_Nil)
  from reach_begin [OF this, of "Opens cfg" "[a1, b1]" "()"]
  have "?R \<lparr>plog = [], pnext = 2, pext = (), acts = [?call [a0, b0, FinishSpan 0], ?stream [a1, b1]]\<rparr>"
    using stream_call [OF stream, of sample_invoker Background "\<lambda>_. None"] unfolding fate by (simp add: numeral_2_eq_2)
  from reach_first [OF reach_first [OF reach_second [OF reach_second [OF reach_first [OF this]]]]]
  have opened: "?R \<lparr>plog = [a0, a1, b1, b0, FinishSpan 0], pnext = 2, pext = (), acts = [?call [], ?stream []]\<rparr>" by simp
  let ?p = "\<lparr>plog = [a0, a1, b1, b0, FinishSpan 0], pnext = 2, pext = (),
      acts = [?call [], Streaming cfg newOpenTracingClientStream]\<rparr>"
  from reach_open [where xs = "[?call []]" and ys = "[]", simplified, OF opened] have r: "?R ?p" .
  have rest: "\<forall>a \<in> set [?call [], Streaming cfg newOpenTracingClientStream]. at_rest sample_env a"
    by (simp add: newOpenTracingClientStream_def)
  with client_spans_interleaved [OF r] have "\<forall>n < 2. complete_life n [a0, a1, b1, b0, FinishSpan 0] \<longleftrightarrow>
      n \<notin> \<Union> (left_open ` set [?call [], Streaming cfg newOpenTracingClientStream])" by simp
  then have "complete_life 0 [a0, a1, b1, b0, FinishSpan 0]" "\<not> complete_life 1 [a0, a1, b1, b0, FinishSpan 0]"
    by (simp_all add: newOpenTracingClientStream_def cfg_def)
  with r rest show ?thesis by (intro exI [of _ "?p"]) simp
qed

text \<open>Two requests, of which one panics, handled at the same time.\<close>

theorem server_spans_interleaved_witness:
  "\<exists>p. proc_reach sample_env (server_begins sample_env [] :: unit tw \<Rightarrow> fate \<Rightarrow> unit tw \<Rightarrow> bool) p \<and> pnext p = 2 \<and>
     plog p \<noteq> [] \<and> complete_life 0 (plog p) \<and> complete_life 1 (plog p)"
proof -
  let ?R = "proc_reach sample_env (server_begins sample_env [] :: unit tw \<Rightarrow> fate \<Rightarrow> unit tw \<Rightarrow> bool)"
  let ?s = "\<lambda>n. \<lparr>trace = [], next_span = n, ext = ()\<rparr>"
  let ?ok = "\<lambda>ctx req. go_return (VNil, None) :: (unit, goval \<times> goerror option) go"
  let ?bad = "\<lambda>ctx req. go_panic (UserPanic 1) :: (unit, goval \<times> goerror option) go"
  have "\<exists>a b. snd (OpenTracingServerInterceptor sample_env [] Background VNil ''/g/M'' h (?s n)) =
      \<lparr>trace = [a, b, FinishSpan n], next_span = Suc n, ext = ()\<rparr>" if "h \<in> {?ok, ?bad}" for h n
    using that unfolding OpenTracingServerInterceptor_def
    by (auto simp: Let_def go_simps run_simps finish_span_def)
  then obtain a0 b0 a1 b1 where runs:
    "snd (OpenTracingServerInterceptor sample_env [] Background VNil ''/g/M'' ?ok (?s 0)) = \<lparr>trace = [a0, b0, FinishSpan 0], next_span = Suc 0, ext = ()\<rparr>"
    "snd (OpenTracingServerInterceptor sample_env [] Background VNil ''/g/M'' ?bad (?s 1)) = \<lparr>trace = [a1, b1, FinishSpan 1], next_span = Suc 1, ext = ()\<rparr>"
    by (metis insertCI)
  let ?call = "\<lambda>n es. Emitting (Some n) es Over"
  note begins = unary_served [of sample_env "[]" "?s n" Background VNil "''/g/M''" h for n h]
  have "?R \<lparr>plog = [], pnext = Suc 0, pext = (), acts = [?call 0 [a0, b0, FinishSpan 0]]\<rparr>"
    using reach_begin [OF fresh, of "server_begins sample_env []" "()" Over] begins [of 0 ?ok] runs(1) by (metis append_Nil)
  from reach_begin [OF this, of Over "[a1, b1, FinishSpan 1]" "()"]
  have "?R \<lparr>plog = [], pnext = 2, pext = (), acts = [?call 0 [a0, b0, FinishSpan 0], ?call 1 [a1, b1, FinishSpan 1]]\<rparr>"
    using begins [of 1 ?bad] runs(2) by (simp add: numeral_2_eq_2)
  from reach_first [OF reach_first [OF reach_second [OF reach_second [OF reach_second [OF reach_first [OF this]]]]]]
  have r: "?R \<lparr>plog = [a0, a1, b1, FinishSpan 1, b0, FinishSpan 0], pnext = 2, pext = (), acts = [?call 0 [], ?call 1 []]\<rparr>"
    by simp
  from server_spans_interleaved [OF r] have "\<forall>n < 2. complete_life n [a0, a1, b1, FinishSpan 1, b0, FinishSpan 0]" by simp
  then have "complete_life 0 [a0, a1, b1, FinishSpan 1, b0, FinishSpan 0]" "complete_life 1 [a0, a1, b1, FinishSpan 1, b0, FinishSpan 0]"
    by auto
  with r show ?thesis
    by (intro exI [of _ "\<lparr>plog = [a0, a1, b1, FinishSpan 1, b0, FinishSpan 0], pnext = 2, pext = (), acts = [?call 0 [], ?call 1 []]\<rparr>"])
      simp
qed

end
