(* ===== verification/Config.thy ===== *)
theory Config
  imports Logger "HOL-Library.Multiset"
begin

text \<open>
  \<open>src/pkg/config/config.go\<close>: the option struct, \<open>Validate\<close>, \<open>NewTripleOption\<close>
  and the functional options \<open>With...\<close>.

  An \<open>OptionFunction\<close> mutates the struct its argument points to; here it maps the old
  struct to the new one. \<open>time.Duration\<close> and \<open>int\<close> are 64-bit two's complement words,
  \<open>uint32\<close> fields 32-bit words. The locale \<open>option_field\<close> is the contract between
  \<open>NewTripleOption\<close> and one functional option: it sets its own field and a later call
  replaces an earlier one. Every \<open>With...\<close> function interprets it.
\<close>

record triple_option =
  Timeout :: i64
  BufferSize :: u32
  Location :: string
  Protocol :: string
  CodecType :: CodecType
  SerializerTypeInWrapper :: string
  HeaderGroup :: string
  HeaderAppVersion :: string
  GRPCMaxCallSendMsgSize :: i64
  GRPCMaxServerSendMsgSize :: i64
  GRPCMaxCallRecvMsgSize :: i64
  GRPCMaxServerRecvMsgSize :: i64
  GRPCKeepAliveTime :: i64
  GRPCKeepAliveTimeout :: i64
  JaegerAddress :: string
  JaegerServiceName :: string
  JaegerUseAgent :: bool
  Logger :: "logger option"
  NumWorkers :: u32
  ProxyModeEnable :: bool
  CACertFile :: string
  TLSCertFile :: string
  TLSKeyFile :: string
  TLSServerName :: string

type_synonym OptionFunction = "triple_option \<Rightarrow> triple_option"

text \<open>Go's zero value \<open>Option{}\<close>.\<close>

definition zero_option :: triple_option where
  "zero_option =
     \<lparr> Timeout = 0, BufferSize = 0, Location = [], Protocol = [], CodecType = [],
       SerializerTypeInWrapper = [], HeaderGroup = [], HeaderAppVersion = [],
       GRPCMaxCallSendMsgSize = 0, GRPCMaxServerSendMsgSize = 0, GRPCMaxCallRecvMsgSize = 0,
       GRPCMaxServerRecvMsgSize = 0, GRPCKeepAliveTime = 0, GRPCKeepAliveTimeout = 0,
       JaegerAddress = [], JaegerServiceName = [], JaegerUseAgent = False, Logger = None,
       NumWorkers = 0, ProxyModeEnable = False, CACertFile = [], TLSCertFile = [],
       TLSKeyFile = [], TLSServerName = [] \<rparr>"

definition Validate :: "triple_option \<Rightarrow> triple_option" where
  "Validate o0 =
     (let o1 = (if Timeout o0 = 0 then o0\<lparr>Timeout := DefaultTimeout\<rparr> else o0);
          o2 = (if BufferSize o1 = 0
                then o1\<lparr>BufferSize := DefaultHttp2ControllerReadBufferSize\<rparr> else o1);
          o3 = (if Location o2 = [] then o2\<lparr>Location := DefaultListeningAddress\<rparr> else o2);
          o4 = (if Logger o3 = None then o3\<lparr>Logger := Some GetDefaultLogger\<rparr> else o3);
          o5 = (if Protocol o4 = [] then o4\<lparr>Protocol := TRIPLE\<rparr> else o4);
          o6 = (if CodecType o5 = [] then o5\<lparr>CodecType := PBCodecName\<rparr> else o5);
          o7 = (if NumWorkers o6 \<le> 0 then o6\<lparr>NumWorkers := DefaultNumWorkers\<rparr> else o6)
      in o7)"

definition NewTripleOption :: "OptionFunction list \<Rightarrow> triple_option" where
  "NewTripleOption fs = Validate (fold (\<lambda>v opt. v opt) fs zero_option)"

definition WithClientTimeout :: "i64 \<Rightarrow> OptionFunction" where
  "WithClientTimeout timeout opt = opt\<lparr>Timeout := timeout\<rparr>"

definition WithBufferSize :: "u32 \<Rightarrow> OptionFunction" where
  "WithBufferSize sz opt = opt\<lparr>BufferSize := sz\<rparr>"

definition WithCodecType :: "CodecType \<Rightarrow> OptionFunction" where
  "WithCodecType serializerType opt = opt\<lparr>CodecType := serializerType\<rparr>"

definition WithProtocol :: "string \<Rightarrow> OptionFunction" where
  "WithProtocol protocol opt = opt\<lparr>Protocol := protocol\<rparr>"

definition WithLocation :: "string \<Rightarrow> OptionFunction" where
  "WithLocation location opt = opt\<lparr>Location := location\<rparr>"

definition WithHeaderAppVersion :: "string \<Rightarrow> OptionFunction" where
  "WithHeaderAppVersion appVersion opt = opt\<lparr>HeaderAppVersion := appVersion\<rparr>"

definition WithHeaderGroup :: "string \<Rightarrow> OptionFunction" where
  "WithHeaderGroup grp opt = opt\<lparr>HeaderGroup := grp\<rparr>"

text \<open>The wrapper is never nil, even around a nil logger.\<close>

definition WithLogger :: "logger option \<Rightarrow> OptionFunction" where
  "WithLogger l opt = opt\<lparr>Logger := Some (NewLoggerWrapper l)\<rparr>"

definition WithSerializerTypeInWrapper :: "string \<Rightarrow> OptionFunction" where
  "WithSerializerTypeInWrapper name opt = opt\<lparr>SerializerTypeInWrapper := name\<rparr>"

definition WithNumWorker :: "u32 \<Rightarrow> OptionFunction" where
  "WithNumWorker numWorkers opt = opt\<lparr>NumWorkers := numWorkers\<rparr>"

definition WithGRPCMaxCallSendMessageSize :: "i64 \<Rightarrow> OptionFunction" where
  "WithGRPCMaxCallSendMessageSize n opt = opt\<lparr>GRPCMaxCallSendMsgSize := n\<rparr>"

definition WithGRPCMaxCallRecvMessageSize :: "i64 \<Rightarrow> OptionFunction" where
  "WithGRPCMaxCallRecvMessageSize n opt = opt\<lparr>GRPCMaxCallRecvMsgSize := n\<rparr>"

definition WithGRPCMaxServerSendMessageSize :: "i64 \<Rightarrow> OptionFunction" where
  "WithGRPCMaxServerSendMessageSize n opt = opt\<lparr>GRPCMaxServerSendMsgSize := n\<rparr>"

definition WithGRPCMaxServerRecvMessageSize :: "i64 \<Rightarrow> OptionFunction" where
  "WithGRPCMaxServerRecvMessageSize n opt = opt\<lparr>GRPCMaxServerRecvMsgSize := n\<rparr>"

definition WithGRPCKeepAliveTimeInterval :: "i64 \<Rightarrow> OptionFunction" where
  "WithGRPCKeepAliveTimeInterval d opt = opt\<lparr>GRPCKeepAliveTime := d\<rparr>"

definition WithGRPCKeepAliveTimeout :: "i64 \<Rightarrow> OptionFunction" where
  "WithGRPCKeepAliveTimeout d opt = opt\<lparr>GRPCKeepAliveTimeout := d\<rparr>"

definition WithJaegerConfig :: "string \<times> string \<times> bool \<Rightarrow> OptionFunction" where
  "WithJaegerConfig cfg opt =
     (case cfg of (address, serviceName, useAgent) \<Rightarrow>
        opt\<lparr>JaegerAddress := address, JaegerServiceName := serviceName,
            JaegerUseAgent := useAgent\<rparr>)"

definition WithProxyModeEnable :: "bool \<Rightarrow> OptionFunction" where
  "WithProxyModeEnable enable opt = opt\<lparr>ProxyModeEnable := enable\<rparr>"

section \<open>The contract of a functional option\<close>

text \<open>
  \<open>get\<close> reads the field the option is about and \<open>stored\<close> is what the option stores for
  an argument (the argument itself, except for the logger, which is wrapped).
\<close>

locale option_field =
  fixes get :: "triple_option \<Rightarrow> 'f" and with_fn :: "'v \<Rightarrow> OptionFunction"
    and stored :: "'v \<Rightarrow> 'f"
  assumes get_with: "get (with_fn v opt) = stored v"
    and with_with: "with_fn v (with_fn u opt) = with_fn v opt"
    and validate_keeps: "get opt \<noteq> get zero_option \<Longrightarrow> get (Validate opt) = get opt"
begin

text \<open>The last call among functions that leave the field alone decides the field.\<close>

lemma last_call_wins:
  assumes "\<And>g opt. g \<in> set gs \<Longrightarrow> get (g opt) = get opt" and "stored v \<noteq> get zero_option"
  shows "get (NewTripleOption (fs @ with_fn v # gs)) = stored v"
proof -
  have keep: "get (fold (\<lambda>v opt. v opt) gs opt) = get opt" for opt
    using assms(1) by (induction gs arbitrary: opt) simp_all
  then have "get (fold (\<lambda>v opt. v opt) (fs @ with_fn v # gs) zero_option) = stored v"
    by (simp add: get_with)
  then show ?thesis
    using assms(2) by (simp add: NewTripleOption_def validate_keeps)
qed

end

lemmas with_defs =
  WithClientTimeout_def WithBufferSize_def WithCodecType_def WithProtocol_def WithLocation_def
  WithHeaderAppVersion_def WithHeaderGroup_def WithLogger_def WithSerializerTypeInWrapper_def
  WithNumWorker_def WithGRPCMaxCallSendMessageSize_def WithGRPCMaxCallRecvMessageSize_def
  WithGRPCMaxServerSendMessageSize_def WithGRPCMaxServerRecvMessageSize_def
  WithGRPCKeepAliveTimeInterval_def WithGRPCKeepAliveTimeout_def WithJaegerConfig_def
  WithProxyModeEnable_def

text \<open>\<open>Validate\<close>, field by field.\<close>

lemma Validate_fields [simp]:
  "Timeout (Validate opt) = (if Timeout opt = 0 then DefaultTimeout else Timeout opt)"
  "BufferSize (Validate opt) =
     (if BufferSize opt = 0 then DefaultHttp2ControllerReadBufferSize else BufferSize opt)"
  "Location (Validate opt) = (if Location opt = [] then DefaultListeningAddress else Location opt)"
  "Protocol (Validate opt) = (if Protocol opt = [] then TRIPLE else Protocol opt)"
  "CodecType (Validate opt) = (if CodecType opt = [] then PBCodecName else CodecType opt)"
  "Logger (Validate opt) = (if Logger opt = None then Some GetDefaultLogger else Logger opt)"
  "NumWorkers (Validate opt) = (if NumWorkers opt = 0 then DefaultNumWorkers else NumWorkers opt)"
  by (simp_all add: Validate_def Let_def)

lemma Validate_frame [simp]:
  "SerializerTypeInWrapper (Validate opt) = SerializerTypeInWrapper opt"
  "HeaderGroup (Validate opt) = HeaderGroup opt"
  "HeaderAppVersion (Validate opt) = HeaderAppVersion opt"
  "GRPCMaxCallSendMsgSize (Validate opt) = GRPCMaxCallSendMsgSize opt"
  "GRPCMaxServerSendMsgSize (Validate opt) = GRPCMaxServerSendMsgSize opt"
  "GRPCMaxCallRecvMsgSize (Validate opt) = GRPCMaxCallRecvMsgSize opt"
  "GRPCMaxServerRecvMsgSize (Validate opt) = GRPCMaxServerRecvMsgSize opt"
  "GRPCKeepAliveTime (Validate opt) = GRPCKeepAliveTime opt"
  "GRPCKeepAliveTimeout (Validate opt) = GRPCKeepAliveTimeout opt"
  "JaegerAddress (Validate opt) = JaegerAddress opt"
  "JaegerServiceName (Validate opt) = JaegerServiceName opt"
  "JaegerUseAgent (Validate opt) = JaegerUseAgent opt"
  "ProxyModeEnable (Validate opt) = ProxyModeEnable opt"
  "CACertFile (Validate opt) = CACertFile opt"
  "TLSCertFile (Validate opt) = TLSCertFile opt"
  "TLSKeyFile (Validate opt) = TLSKeyFile opt"
  "TLSServerName (Validate opt) = TLSServerName opt"
  by (simp_all add: Validate_def Let_def)

interpretation f_timeout: option_field Timeout WithClientTimeout id
  by unfold_locales (simp_all add: with_defs zero_option_def)
interpretation f_buffer: option_field BufferSize WithBufferSize id
  by unfold_locales (simp_all add: with_defs zero_option_def)
interpretation f_codec: option_field CodecType WithCodecType id
  by unfold_locales (simp_all add: with_defs zero_option_def)
interpretation f_protocol: option_field Protocol WithProtocol id
  by unfold_locales (simp_all add: with_defs zero_option_def)
interpretation f_location: option_field Location WithLocation id
  by unfold_locales (simp_all add: with_defs zero_option_def)
interpretation f_version: option_field HeaderAppVersion WithHeaderAppVersion id
  by unfold_locales (simp_all add: with_defs)
interpretation f_group: option_field HeaderGroup WithHeaderGroup id
  by unfold_locales (simp_all add: with_defs)
interpretation f_logger: option_field Logger WithLogger "\<lambda>l. Some (NewLoggerWrapper l)"
  by unfold_locales (simp_all add: with_defs zero_option_def)
interpretation f_serializer: option_field SerializerTypeInWrapper WithSerializerTypeInWrapper id
  by unfold_locales (simp_all add: with_defs)
interpretation f_workers: option_field NumWorkers WithNumWorker id
  by unfold_locales (simp_all add: with_defs zero_option_def)
interpretation f_callsend: option_field GRPCMaxCallSendMsgSize WithGRPCMaxCallSendMessageSize id
  by unfold_locales (simp_all add: with_defs)
interpretation f_callrecv: option_field GRPCMaxCallRecvMsgSize WithGRPCMaxCallRecvMessageSize id
  by unfold_locales (simp_all add: with_defs)
interpretation f_srvsend: option_field GRPCMaxServerSendMsgSize WithGRPCMaxServerSendMessageSize id
  by unfold_locales (simp_all add: with_defs)
interpretation f_srvrecv: option_field GRPCMaxServerRecvMsgSize WithGRPCMaxServerRecvMessageSize id
  by unfold_locales (simp_all add: with_defs)
interpretation f_katime: option_field GRPCKeepAliveTime WithGRPCKeepAliveTimeInterval id
  by unfold_locales (simp_all add: with_defs)
interpretation f_katimeout: option_field GRPCKeepAliveTimeout WithGRPCKeepAliveTimeout id
  by unfold_locales (simp_all add: with_defs)
interpretation f_jaeger: option_field
  "\<lambda>opt. (JaegerAddress opt, JaegerServiceName opt, JaegerUseAgent opt)" WithJaegerConfig id
  by unfold_locales (simp_all add: with_defs split: prod.split)
interpretation f_proxy: option_field ProxyModeEnable WithProxyModeEnable id
  by unfold_locales (simp_all add: with_defs)

lemmas with_override =
  f_timeout.with_with f_buffer.with_with f_codec.with_with f_protocol.with_with f_location.with_with
  f_version.with_with f_group.with_with f_logger.with_with f_serializer.with_with f_workers.with_with
  f_callsend.with_with f_callrecv.with_with f_srvsend.with_with f_srvrecv.with_with f_katime.with_with
  f_katimeout.with_with f_jaeger.with_with f_proxy.with_with

section \<open>What a validated option promises\<close>

text \<open>The well-formedness the rest of the program relies on.\<close>

definition valid_option :: "triple_option \<Rightarrow> bool" where
  "valid_option opt \<longleftrightarrow>
     Timeout opt \<noteq> 0 \<and> BufferSize opt \<noteq> 0 \<and> Location opt \<noteq> [] \<and> Logger opt \<noteq> None \<and>
     Protocol opt \<noteq> [] \<and> CodecType opt \<noteq> [] \<and> NumWorkers opt \<noteq> 0"

lemma valid_Validate [simp]: "valid_option (Validate opt)"
  by (simp add: valid_option_def)

lemma Validate_valid: "valid_option opt \<Longrightarrow> Validate opt = opt"
  by (simp add: Validate_def valid_option_def)


section \<open>The order of functional options\<close>

text \<open>One call of one of the functions above, so that a whole argument list of
  \<open>NewTripleOption\<close> can be quantified over.\<close>

datatype with_call =
    CallClientTimeout i64 | CallBufferSize u32 | CallCodecType string | CallProtocol string
  | CallLocation string | CallHeaderAppVersion string | CallHeaderGroup string
  | CallLogger "logger option" | CallSerializerTypeInWrapper string | CallNumWorker u32
  | CallMaxCallSend i64 | CallMaxCallRecv i64 | CallMaxServerSend i64 | CallMaxServerRecv i64
  | CallKeepAliveTime i64 | CallKeepAliveTimeout i64
  | CallJaeger "string \<times> string \<times> bool" | CallProxyMode bool

fun apply_with :: "with_call \<Rightarrow> OptionFunction" where
  "apply_with (CallClientTimeout v) = WithClientTimeout v"
| "apply_with (CallBufferSize v) = WithBufferSize v"
| "apply_with (CallCodecType v) = WithCodecType v"
| "apply_with (CallProtocol v) = WithProtocol v"
| "apply_with (CallLocation v) = WithLocation v"
| "apply_with (CallHeaderAppVersion v) = WithHeaderAppVersion v"
| "apply_with (CallHeaderGroup v) = WithHeaderGroup v"
| "apply_with (CallLogger v) = WithLogger v"
| "apply_with (CallSerializerTypeInWrapper v) = WithSerializerTypeInWrapper v"
| "apply_with (CallNumWorker v) = WithNumWorker v"
| "apply_with (CallMaxCallSend v) = WithGRPCMaxCallSendMessageSize v"
| "apply_with (CallMaxCallRecv v) = WithGRPCMaxCallRecvMessageSize v"
| "apply_with (CallMaxServerSend v) = WithGRPCMaxServerSendMessageSize v"
| "apply_with (CallMaxServerRecv v) = WithGRPCMaxServerRecvMessageSize v"
| "apply_with (CallKeepAliveTime v) = WithGRPCKeepAliveTimeInterval v"
| "apply_with (CallKeepAliveTimeout v) = WithGRPCKeepAliveTimeout v"
| "apply_with (CallJaeger v) = WithJaegerConfig v"
| "apply_with (CallProxyMode v) = WithProxyModeEnable v"

fun call_kind :: "with_call \<Rightarrow> nat" where
  "call_kind (CallClientTimeout _) = 0" | "call_kind (CallBufferSize _) = 1"
| "call_kind (CallCodecType _) = 2" | "call_kind (CallProtocol _) = 3"
| "call_kind (CallLocation _) = 4" | "call_kind (CallHeaderAppVersion _) = 5"
| "call_kind (CallHeaderGroup _) = 6" | "call_kind (CallLogger _) = 7"
| "call_kind (CallSerializerTypeInWrapper _) = 8" | "call_kind (CallNumWorker _) = 9"
| "call_kind (CallMaxCallSend _) = 10" | "call_kind (CallMaxCallRecv _) = 11"
| "call_kind (CallMaxServerSend _) = 12" | "call_kind (CallMaxServerRecv _) = 13"
| "call_kind (CallKeepAliveTime _) = 14" | "call_kind (CallKeepAliveTimeout _) = 15"
| "call_kind (CallJaeger _) = 16" | "call_kind (CallProxyMode _) = 17"

lemma apply_with_commute:
  "call_kind c \<noteq> call_kind d \<Longrightarrow> apply_with c (apply_with d opt) = apply_with d (apply_with c opt)"
  by (cases c; cases d; simp add: with_defs split: prod.split)

lemma apply_with_override:
  "call_kind c = call_kind d \<Longrightarrow> apply_with c (apply_with d opt) = apply_with c opt"
  by (cases c; cases d; simp add: with_override)

lemma fold_apply_with_permute:
  assumes "distinct (map call_kind cs)" and "mset cs = mset ds"
  shows "fold apply_with cs = fold apply_with ds"
proof (rule fold_multiset_equiv [OF _ assms(2)])
  fix c d assume "c \<in> set cs" "d \<in> set cs"
  with assms(1) have "c = d \<or> call_kind c \<noteq> call_kind d"
    by (auto simp: distinct_map inj_on_def)
  then show "apply_with c \<circ> apply_with d = apply_with d \<circ> apply_with c"
    by (auto simp: fun_eq_iff apply_with_commute)
qed

lemma fold_apply_map: "fold (\<lambda>v opt. v opt) (map apply_with cs) = fold apply_with cs"
  by (induction cs) (simp_all add: fun_eq_iff)

text \<open>The order of functional options of different kinds does not matter, and of two calls
  of the same kind the later one decides: the configuration depends only on which option
  functions were passed.\<close>

theorem option_order_irrelevant:
  assumes "distinct (map call_kind cs)" and "mset cs = mset ds"
    and "call_kind c = call_kind d"
  shows "NewTripleOption (map apply_with cs) = NewTripleOption (map apply_with ds) \<and>
    NewTripleOption (map apply_with (cs @ [c, d])) = NewTripleOption (map apply_with (cs @ [d]))"
  using assms
  by (simp add: NewTripleOption_def fold_apply_map fold_apply_with_permute [OF assms(1,2)]
      apply_with_override del: map_append)

theorem option_order_irrelevant_witness:
  "NewTripleOption (map apply_with [CallCodecType ''msgpack'', CallNumWorker 8]) =
     NewTripleOption (map apply_with [CallNumWorker 8, CallCodecType ''msgpack'']) \<and>
   NewTripleOption (map apply_with ([CallCodecType ''msgpack'', CallNumWorker 8] @
       [CallLocation ''a:1'', CallLocation ''b:2''])) =
     NewTripleOption (map apply_with ([CallCodecType ''msgpack'', CallNumWorker 8] @
       [CallLocation ''b:2'']))"
  by (rule option_order_irrelevant) simp_all

text \<open>\<open>WithLogger(nil)\<close> defeats the default logger: the wrapper it stores is not nil, so
  \<open>Validate\<close> leaves it alone, and every logging call on the finished configuration panics.\<close>

theorem nil_logger_defeats_default:
  "Logger (NewTripleOption [WithLogger None]) \<noteq> None \<and>
   \<not> usable (Logger (NewTripleOption [WithLogger None])) \<and>
   log_stmt (Logger (NewTripleOption [WithLogger None])) c w = (Inl NilDereference, w)"
  by (simp add: NewTripleOption_def WithLogger_def NewLoggerWrapper_def log_stmt_unusable)

end
