(* ===== verification/Codec.thy ===== *)
theory Codec
  imports Config
begin

text \<open>
  \<open>src/pkg/common/codec.go\<close>: the two package-level tables of the codec registry and the
  functions that fill and read them.

  The tables are fields of the world: \<open>codecFactoryMap\<close> and
  \<open>codecInWrapperSerializerTypeMap\<close>. \<open>grpcCodecs\<close> lists the codecs handed to gRPC's
  \<open>encoding.RegisterCodec\<close>, oldest first. A codec made by code outside the repository is a
  constructor of \<open>codec\<close> that records the call that made it;
  \<open>PBWrapperTwoWayCodec name inner pb\<close> is \<open>encoding.NewPBWrapperTwoWayCodec\<close>, whose
  inner codec may be nil. A factory is a function of the user; it may return a nil codec.
\<close>

datatype codec =
    ProtobufCodec
  | HessianCodec
  | MsgPackCodec
  | UserCodec nat
  | PBWrapperTwoWayCodec string "codec option" codec

type_synonym CodecFactory = "unit \<Rightarrow> codec option"

record cworld = world +
  grpcCodecs :: "codec list"
  codecFactoryMap :: "string \<Rightarrow> CodecFactory option"
  codecInWrapperSerializerTypeMap :: "string \<Rightarrow> string option"

text \<open>The registry at program start: both maps empty.\<close>

definition empty_cworld :: cworld where
  "empty_cworld =
     \<lparr> logs = [], grpcCodecs = [], codecFactoryMap = Map.empty,
       codecInWrapperSerializerTypeMap = Map.empty \<rparr>"

text \<open>\<open>opt\<close> is the variadic \<open>...*config.Option\<close>; an element may be a nil pointer, in
  which case reading its field panics after both registrations have been made.\<close>

definition SetTripleCodec ::
    "CodecType \<Rightarrow> CodecFactory \<Rightarrow> triple_option option list \<Rightarrow> ('a cworld_scheme, unit) go" where
  "SetTripleCodec codecType f opt =
     go_then (go_modify (\<lambda>w. w\<lparr>grpcCodecs :=
         grpcCodecs w @ [PBWrapperTwoWayCodec codecType (f ()) ProtobufCodec]\<rparr>))
    (go_then (go_modify (\<lambda>w. w\<lparr>codecFactoryMap := (codecFactoryMap w)(codecType \<mapsto> f)\<rparr>))
    (if length opt = 0 then go_return ()
     else go_bind (go_deref (opt ! 0)) (\<lambda>o0.
       if SerializerTypeInWrapper o0 = [] then go_return ()
       else go_modify (\<lambda>w. w\<lparr>codecInWrapperSerializerTypeMap :=
         (codecInWrapperSerializerTypeMap w)(codecType \<mapsto> SerializerTypeInWrapper o0)\<rparr>))))"

definition GetTripleCodec :: "CodecType \<Rightarrow> 'a cworld_scheme \<Rightarrow> codec option \<times> goerror option" where
  "GetTripleCodec codecName w =
     (case codecFactoryMap w codecName of
        Some f \<Rightarrow> (f (), None)
      | None \<Rightarrow> (None, Some (PkgError (''Codec '' @ codecName @ '' factory undefined!''))))"

definition GetCodecInWrapperName :: "CodecType \<Rightarrow> 'a cworld_scheme \<Rightarrow> string" where
  "GetCodecInWrapperName name w =
     (case codecInWrapperSerializerTypeMap w name of
        Some inWrapperName \<Rightarrow> inWrapperName
      | None \<Rightarrow> name)"

section \<open>Facts\<close>

text \<open>What a registration with at most one, non-nil option does.\<close>

definition register_codec ::
    "CodecType \<Rightarrow> CodecFactory \<Rightarrow> 'a cworld_scheme \<Rightarrow> 'a cworld_scheme" where
  "register_codec codecType f w =
     w\<lparr>grpcCodecs := grpcCodecs w @ [PBWrapperTwoWayCodec codecType (f ()) ProtobufCodec],
       codecFactoryMap := (codecFactoryMap w)(codecType \<mapsto> f)\<rparr>"

lemma SetTripleCodec_none [run_simps]:
  "SetTripleCodec c f [] w = (Inr (), register_codec c f w)"
  by (simp add: SetTripleCodec_def register_codec_def go_simps)

lemma SetTripleCodec_some [run_simps]:
  "SetTripleCodec c f (Some o0 # rest) w =
     (Inr (), if SerializerTypeInWrapper o0 = [] then register_codec c f w
              else (register_codec c f w)\<lparr>codecInWrapperSerializerTypeMap :=
                (codecInWrapperSerializerTypeMap w)(c \<mapsto> SerializerTypeInWrapper o0)\<rparr>)"
  by (simp add: SetTripleCodec_def register_codec_def go_simps)

lemma SetTripleCodec_nil_option [run_simps]:
  "SetTripleCodec c f (None # rest) w = (Inl NilDereference, register_codec c f w)"
  by (simp add: SetTripleCodec_def register_codec_def go_simps)

lemma register_codec_fields [simp]:
  "codecFactoryMap (register_codec c f w) = (codecFactoryMap w)(c \<mapsto> f)"
  "codecInWrapperSerializerTypeMap (register_codec c f w) = codecInWrapperSerializerTypeMap w"
  "grpcCodecs (register_codec c f w) =
     grpcCodecs w @ [PBWrapperTwoWayCodec c (f ()) ProtobufCodec]"
  "logs (register_codec c f w) = logs w"
  by (simp_all add: register_codec_def)

lemma SetTripleCodec_factories:
  "codecFactoryMap (snd (SetTripleCodec c f opt w)) = (codecFactoryMap w)(c \<mapsto> f)"
proof (cases opt)
  case Nil
  then show ?thesis by (simp add: run_simps)
next
  case (Cons o0 rest)
  then show ?thesis by (cases o0) (simp_all add: run_simps)
qed

text \<open>The factory table meets the contract of a keyed table with the registration as the
  insertion, whatever option is passed along, and even when that option is nil and the call
  panics.\<close>

interpretation factories: key_store codecFactoryMap
  "\<lambda>c f w. snd (SetTripleCodec c f opt w)" for opt
  by unfold_locales (simp_all add: SetTripleCodec_factories)

text \<open>The names stored for the wrapper, after one registration.\<close>

fun wrapper_name :: "triple_option option list \<Rightarrow> string option" where
  "wrapper_name (Some o0 # _) =
     (if SerializerTypeInWrapper o0 = [] then None else Some (SerializerTypeInWrapper o0))"
| "wrapper_name _ = None"

lemma SetTripleCodec_names:
  "codecInWrapperSerializerTypeMap (snd (SetTripleCodec c f opt w)) =
     (case wrapper_name opt of
        None \<Rightarrow> codecInWrapperSerializerTypeMap w
      | Some n \<Rightarrow> (codecInWrapperSerializerTypeMap w)(c \<mapsto> n))"
  by (cases opt rule: wrapper_name.cases) (simp_all add: run_simps)

text \<open>A sequence of registrations, each with its own variadic options.\<close>

definition register_all ::
    "(CodecType \<times> CodecFactory \<times> triple_option option list) list \<Rightarrow> 'a cworld_scheme \<Rightarrow> 'a cworld_scheme" where
  "register_all regs w = fold (\<lambda>(c, f, opt) w. snd (SetTripleCodec c f opt w)) regs w"

lemma register_all_factories:
  "codecFactoryMap (register_all regs w) =
     codecFactoryMap w ++ map_of (rev (map (\<lambda>(c, f, opt). (c, f)) regs))"
  unfolding register_all_def
  by (induction regs arbitrary: w)
    (auto simp: factories.lookup_insert map_add_def fun_eq_iff split: option.splits)

lemma register_all_grpc:
  "grpcCodecs (register_all regs w) =
     grpcCodecs w @ map (\<lambda>(c, f, opt). PBWrapperTwoWayCodec c (f ()) ProtobufCodec) regs"
proof -
  have "grpcCodecs (snd (SetTripleCodec c f opt w)) =
      grpcCodecs w @ [PBWrapperTwoWayCodec c (f ()) ProtobufCodec]" for c f opt and w :: "'a cworld_scheme"
    by (cases opt rule: wrapper_name.cases) (simp_all add: run_simps)
  then show ?thesis
    unfolding register_all_def by (induction regs arbitrary: w) auto
qed

text \<open>C33: The registry refines a map: after any sequence of registrations (with or without
  options, nil ones included) \<open>GetTripleCodec\<close> runs the factory registered last under that
  name, and for a name never registered returns no codec and the error that names it; gRPC was
  handed exactly one wrapping codec per registration, in order.\<close>

theorem codec_registry_refines_map:
  fixes regs :: "(CodecType \<times> CodecFactory \<times> triple_option option list) list"
  shows "GetTripleCodec name (register_all regs empty_cworld) =
     (case map_of (rev (map (\<lambda>(c, f, opt). (c, f)) regs)) name of
        Some f \<Rightarrow> (f (), None)
      | None \<Rightarrow> (None, Some (PkgError (''Codec '' @ name @ '' factory undefined!''))))
   \<and> grpcCodecs (register_all regs empty_cworld) =
       map (\<lambda>(c, f, opt). PBWrapperTwoWayCodec c (f ()) ProtobufCodec) regs"
  by (simp add: GetTripleCodec_def register_all_factories register_all_grpc empty_cworld_def)

text \<open>The serializer name written into the wrapper is the codec name until a registration
  gives another one; from then on a re-registration of the codec without a name (or with an
  empty one) keeps the old name, although the new codec came with none.\<close>

theorem stale_wrapper_name:
  fixes w :: cworld
  assumes "SerializerTypeInWrapper o1 = n" "n \<noteq> []" "wrapper_name opt = None"
  shows "GetCodecInWrapperName c empty_cworld = c \<and>
    GetCodecInWrapperName c (snd (SetTripleCodec c f [Some o1] w)) = n \<and>
    GetCodecInWrapperName c (snd (SetTripleCodec c g opt (snd (SetTripleCodec c f [Some o1] w)))) = n"
  using assms by (simp add: GetCodecInWrapperName_def SetTripleCodec_names empty_cworld_def)

theorem stale_wrapper_name_witness:
  "GetCodecInWrapperName ''json'' empty_cworld = ''json'' \<and>
   GetCodecInWrapperName ''json'' (snd (SetTripleCodec ''json'' (\<lambda>_. Some (UserCodec 1))
     [Some (zero_option\<lparr>SerializerTypeInWrapper := ''gson''\<rparr>)] empty_cworld)) = ''gson'' \<and>
   GetCodecInWrapperName ''json'' (snd (SetTripleCodec ''json'' (\<lambda>_. Some (UserCodec 2)) []
     (snd (SetTripleCodec ''json'' (\<lambda>_. Some (UserCodec 1))
       [Some (zero_option\<lparr>SerializerTypeInWrapper := ''gson''\<rparr>)] empty_cworld)))) = ''gson''"
  by (rule stale_wrapper_name) simp_all

end
