(* ===== verification/Jaeger.thy ===== *)
theory Jaeger
  imports Logger
begin

text \<open>
  \<open>src/pkg/tracing/jaeger.go\<close>: the two constructors of the Jaeger tracer and the adapter
  that lets the reporter log through the configured logger.

  The Jaeger client library is outside the repository. A tracer is the record of how it was
  built; \<open>NewUDPTransport\<close> is an argument, because its error is dropped and its sender may
  then be nil.
\<close>

datatype sender = HTTPTransport string | UDPTransport nat

record Tracer =
  tracer_service :: string
  tracer_sampler :: bool
  tracer_sender :: "sender option"
  tracer_logger :: "logger option"

type_synonym udp_transport = "string \<Rightarrow> nat \<Rightarrow> sender option \<times> goerror option"

definition NewJaegerTracerDirect :: "string \<Rightarrow> string \<Rightarrow> logger option \<Rightarrow> Tracer" where
  "NewJaegerTracerDirect service httpEndpoint l =
     \<lparr> tracer_service = service, tracer_sampler = True,
       tracer_sender = Some (HTTPTransport httpEndpoint), tracer_logger = l \<rparr>"

definition NewJaegerTracerAgent ::
    "udp_transport \<Rightarrow> string \<Rightarrow> string \<Rightarrow> logger option \<Rightarrow> Tracer" where
  "NewJaegerTracerAgent NewUDPTransport service agentAddress l =
     \<lparr> tracer_service = service, tracer_sampler = True,
       tracer_sender = fst (NewUDPTransport agentAddress 0), tracer_logger = l \<rparr>"

definition jaegerLogger_Error :: "logger option \<Rightarrow> string \<Rightarrow> ('a world_scheme, unit) go" where
  "jaegerLogger_Error l msg = log_stmt l (Error [VString msg])"

lemma jaegerLogger_Error_run:
  "log_sink l = Some k \<Longrightarrow>
     jaegerLogger_Error l msg w = (Inr (), w\<lparr>logs := logs w @ [(k, Error [VString msg])]\<rparr>)"
  by (simp add: jaegerLogger_Error_def log_stmt_usable)

end
