(* ===== verification/Tls.thy ===== *)
theory Tls
  imports Config
begin

text \<open>
  The TLS set-up of both ends: \<open>getServerTlsCertificate\<close>
  (\<open>src/pkg/triple/dubbo3_server.go\<close>, lines 308 to 336) and
  \<open>getClientTlsCertificate\<close> (\<open>src/pkg/triple/dubbo3_client.go\<close>, lines 220 to 249).

  The file system and the certificate parsers are the fields of \<open>tls_env\<close>. A certificate
  pool is named by the PEM text it was filled from. The locale \<open>tls_loader\<close> is what the
  callers rely on: when TLS is off, when the loader fails, and what an unusable CA file does.
\<close>

datatype ClientAuthType = NoClientCert | RequireAndVerifyClientCert

record tls_Config =
  ServerName :: string
  Certificates :: "nat list"
  RootCAs :: "bytes option"
  ClientCAs :: "bytes option"
  ClientAuth :: ClientAuthType

definition zero_tls_Config :: tls_Config where
  "zero_tls_Config =
     \<lparr> ServerName = [], Certificates = [], RootCAs = None, ClientCAs = None, ClientAuth = NoClientCert \<rparr>"

datatype TransportCredentials =
    InsecureCredentials              \<comment> \<open>\<open>insecure.NewCredentials()\<close>\<close>
  | NewTLS tls_Config                \<comment> \<open>\<open>credentials.NewTLS(cfg)\<close>\<close>
  | TLSFromFile nat                  \<comment> \<open>made by \<open>credentials.NewClientTLSFromFile\<close>\<close>

record tls_env =
  ReadFile :: "string \<Rightarrow> goerror + bytes"
  AppendCertsFromPEM :: "bytes \<Rightarrow> bool"
  LoadX509KeyPair :: "string \<Rightarrow> string \<Rightarrow> goerror + nat"
  NewClientTLSFromFile :: "string \<Rightarrow> string \<Rightarrow> TransportCredentials option \<times> goerror option"

type_synonym creds_result = "TransportCredentials option \<times> goerror option"

text \<open>In both functions the branch for a CA file without certificates returns the variable
  \<open>err\<close> of the preceding successful \<open>ReadFile\<close>, which is nil.\<close>

definition getServerTlsCertificate :: "tls_env \<Rightarrow> triple_option \<Rightarrow> creds_result" where
  "getServerTlsCertificate env opt =
     (if TLSCertFile opt = [] \<and> TLSKeyFile opt = [] then (None, None)
      else
        let load_pair = (\<lambda>cfg.
              case LoadX509KeyPair env (TLSCertFile opt) (TLSKeyFile opt) of
                Inl err \<Rightarrow> (None, Some err)
              | Inr cert \<Rightarrow>
                  (Some (NewTLS (cfg\<lparr>Certificates := [cert], ServerName := TLSServerName opt\<rparr>)), None))
        in if CACertFile opt \<noteq> [] then
             (case ReadFile env (CACertFile opt) of
                Inl err \<Rightarrow> (None, Some err)
              | Inr caBytes \<Rightarrow>
                  if \<not> AppendCertsFromPEM env caBytes then (None, None)
                  else load_pair (zero_tls_Config\<lparr>ClientAuth := RequireAndVerifyClientCert,
                         ClientCAs := Some caBytes\<rparr>))
           else load_pair zero_tls_Config)"

definition getClientTlsCertificate :: "tls_env \<Rightarrow> triple_option \<Rightarrow> creds_result" where
  "getClientTlsCertificate env opt =
     (if TLSCertFile opt = [] \<and> TLSKeyFile opt = [] then (None, None)
      else if CACertFile opt = [] then NewClientTLSFromFile env (TLSCertFile opt) (TLSServerName opt)
      else
        (case ReadFile env (CACertFile opt) of
           Inl err \<Rightarrow> (None, Some err)
         | Inr caBytes \<Rightarrow>
             if \<not> AppendCertsFromPEM env caBytes then (None, None)
             else
               (case LoadX509KeyPair env (TLSCertFile opt) (TLSKeyFile opt) of
                  Inl err \<Rightarrow> (None, Some err)
                | Inr cert \<Rightarrow>
                    (Some (NewTLS (zero_tls_Config\<lparr>ServerName := TLSServerName opt,
                       Certificates := [cert], RootCAs := Some caBytes\<rparr>)), None))))"

section \<open>The contract of a loader\<close>

definition tls_requested :: "triple_option \<Rightarrow> bool" where
  "tls_requested opt \<longleftrightarrow> TLSCertFile opt \<noteq> [] \<or> TLSKeyFile opt \<noteq> []"

definition mtls_requested :: "triple_option \<Rightarrow> bool" where
  "mtls_requested opt \<longleftrightarrow> tls_requested opt \<and> CACertFile opt \<noteq> []"

locale tls_loader =
  fixes env :: tls_env and load :: "triple_option \<Rightarrow> creds_result"
  assumes off: "\<not> tls_requested opt \<Longrightarrow> load opt = (None, None)"
    and ca_unreadable: "mtls_requested opt \<Longrightarrow> ReadFile env (CACertFile opt) = Inl e \<Longrightarrow>
      load opt = (None, Some e)"
    and ca_unusable: "mtls_requested opt \<Longrightarrow> ReadFile env (CACertFile opt) = Inr ca \<Longrightarrow>
      \<not> AppendCertsFromPEM env ca \<Longrightarrow> load opt = (None, None)"
    and pair_unusable: "mtls_requested opt \<Longrightarrow> ReadFile env (CACertFile opt) = Inr ca \<Longrightarrow>
      AppendCertsFromPEM env ca \<Longrightarrow> LoadX509KeyPair env (TLSCertFile opt) (TLSKeyFile opt) = Inl e \<Longrightarrow>
      load opt = (None, Some e)"
    and pair_usable: "mtls_requested opt \<Longrightarrow> ReadFile env (CACertFile opt) = Inr ca \<Longrightarrow>
      AppendCertsFromPEM env ca \<Longrightarrow> LoadX509KeyPair env (TLSCertFile opt) (TLSKeyFile opt) = Inr cert \<Longrightarrow>
      \<exists>cfg. load opt = (Some (NewTLS cfg), None) \<and> Certificates cfg = [cert] \<and>
        ServerName cfg = TLSServerName opt \<and> (ClientCAs cfg = Some ca \<or> RootCAs cfg = Some ca)"
begin

text \<open>With a CA configured, the loader has exactly four outcomes, and only one of them is TLS.\<close>

lemma mtls_outcome:
  assumes "mtls_requested opt"
  shows "(fst (load opt) = None \<or> (\<exists>cfg. fst (load opt) = Some (NewTLS cfg))) \<and>
    (snd (load opt) = None \<longrightarrow> fst (load opt) = None \<longrightarrow>
       (\<exists>ca. ReadFile env (CACertFile opt) = Inr ca \<and> \<not> AppendCertsFromPEM env ca))"
proof (cases "ReadFile env (CACertFile opt)")
  case (Inl e)
  with ca_unreadable [OF assms] show ?thesis by simp
next
  case (Inr ca)
  show ?thesis
  proof (cases "AppendCertsFromPEM env ca")
    case False
    with ca_unusable [OF assms Inr] Inr show ?thesis by simp
  next
    case True
    show ?thesis
    proof (cases "LoadX509KeyPair env (TLSCertFile opt) (TLSKeyFile opt)")
      case (Inl e)
      with pair_unusable [OF assms Inr True] show ?thesis by simp
    next
      case (Inr cert)
      with pair_usable [OF assms \<open>ReadFile env (CACertFile opt) = Inr ca\<close> True Inr]
      show ?thesis by auto
    qed
  qed
qed

end

lemmas tls_request_defs = tls_requested_def mtls_requested_def

interpretation server_tls: tls_loader env "getServerTlsCertificate env" for env
  by unfold_locales
    (auto simp: getServerTlsCertificate_def tls_request_defs zero_tls_Config_def Let_def)

interpretation client_tls: tls_loader env "getClientTlsCertificate env" for env
  by unfold_locales
    (auto simp: getClientTlsCertificate_def tls_request_defs zero_tls_Config_def)

text \<open>TLS set-up, every case. Without certificate and key files both ends return no
  credentials and no error. With them and a CA file, the server demands and verifies client
  certificates against exactly that CA, and the client trusts exactly that CA; both present the
  configured key pair and server name, and a file that cannot be read or a pair that cannot be
  loaded is the error returned.\<close>

theorem tls_credentials:
  "(\<not> tls_requested opt \<longrightarrow>
      getServerTlsCertificate env opt = (None, None) \<and> getClientTlsCertificate env opt = (None, None)) \<and>
   (mtls_requested opt \<longrightarrow>
      (case ReadFile env (CACertFile opt) of
         Inl e \<Rightarrow> getServerTlsCertificate env opt = (None, Some e) \<and>
           getClientTlsCertificate env opt = (None, Some e)
       | Inr ca \<Rightarrow> AppendCertsFromPEM env ca \<longrightarrow>
           (case LoadX509KeyPair env (TLSCertFile opt) (TLSKeyFile opt) of
              Inl e \<Rightarrow> getServerTlsCertificate env opt = (None, Some e) \<and>
                getClientTlsCertificate env opt = (None, Some e)
            | Inr cert \<Rightarrow>
                getServerTlsCertificate env opt =
                  (Some (NewTLS \<lparr> ServerName = TLSServerName opt, Certificates = [cert], RootCAs = None,
                     ClientCAs = Some ca, ClientAuth = RequireAndVerifyClientCert \<rparr>), None) \<and>
                getClientTlsCertificate env opt =
                  (Some (NewTLS \<lparr> ServerName = TLSServerName opt, Certificates = [cert], RootCAs = Some ca,
                     ClientCAs = None, ClientAuth = NoClientCert \<rparr>), None))))"
  by (auto simp: getServerTlsCertificate_def getClientTlsCertificate_def tls_request_defs
      zero_tls_Config_def Let_def split: sum.split)

text \<open>One file system for concrete runs: every file can be read, only \<open>ca.pem\<close>'s text holds
  a certificate, and every key pair loads.\<close>

definition sample_tls :: tls_env where
  "sample_tls =
     \<lparr> ReadFile = (\<lambda>f. if f = ''missing.pem'' then Inl (ForeignError 2)
         else Inr (if f = ''ca.pem'' then [1] else [0])),
       AppendCertsFromPEM = (\<lambda>ca. ca = [1]),
       LoadX509KeyPair = (\<lambda>c k. Inr 7),
       NewClientTLSFromFile = (\<lambda>f n. (Some (TLSFromFile 0), None)) \<rparr>"

definition mtls_option :: "string \<Rightarrow> triple_option" where
  "mtls_option ca = (NewTripleOption [])\<lparr>CACertFile := ca, TLSCertFile := ''cert.pem'',
     TLSKeyFile := ''key.pem'', TLSServerName := ''srv''\<rparr>"

theorem tls_credentials_witness:
  "getServerTlsCertificate sample_tls (mtls_option ''ca.pem'') =
     (Some (NewTLS \<lparr> ServerName = ''srv'', Certificates = [7], RootCAs = None,
        ClientCAs = Some [1], ClientAuth = RequireAndVerifyClientCert \<rparr>), None) \<and>
   getClientTlsCertificate sample_tls (mtls_option ''missing.pem'') = (None, Some (ForeignError 2))"
proof -
  have req: "mtls_requested (mtls_option ca)" if "ca \<noteq> []" for ca
    using that by (simp add: tls_request_defs mtls_option_def)
  have files: "CACertFile (mtls_option ca) = ca" "TLSServerName (mtls_option ca) = ''srv''" for ca
    by (simp_all add: mtls_option_def)
  show ?thesis
    using tls_credentials [of "mtls_option ''ca.pem''" sample_tls]
      tls_credentials [of "mtls_option ''missing.pem''" sample_tls]
      req [of "''ca.pem''"] req [of "''missing.pem''"]
    by (simp add: files sample_tls_def)
qed

end
