(* ===== verification/Conn.thy ===== *)
theory Conn
  imports Codec Trace_Base Jaeger Tls
begin

text \<open>
  \<open>src/pkg/triple/dubbo3_conn.go\<close>: the connection object that generated stubs call.

  gRPC is outside the repository: dialling, invoking and opening streams are fields of
  \<open>grpc_env\<close>. The state is the world of the earlier theories extended with the clock that
  \<open>time.Now\<close> reads, the calls made to gRPC (\<open>dials\<close>, \<open>rpcs\<close>, \<open>closes\<close>),
  the contexts whose \<open>cancel\<close> has run, and the network \<open>net\<close>, which gRPC changes as it
  likes. A gRPC client connection is a number; a failed dial leaves nil.
\<close>

datatype call_option = MaxCallSendMsgSize i64 | MaxCallRecvMsgSize i64 | ForceCodec codec

datatype dial_option =
    WithUnaryInterceptor Tracer
  | WithStreamInterceptor Tracer
  | WithTransportCredentials TransportCredentials
  | WithDefaultCallOptions "call_option list"
  | WithKeepaliveParams i64 i64 bool

record 'n kworld = cworld +
  clock :: int
  cancels :: "Ctx list"
  dials :: "(Ctx \<times> string \<times> dial_option list) list"
  rpcs :: "(nat option \<times> Ctx \<times> string \<times> goval \<times> call_option list) list"
  closes :: "nat list"
  net :: 'n

record 'n grpc_env =
  DialContext :: "Ctx \<Rightarrow> string \<Rightarrow> dial_option list \<Rightarrow> nat option \<times> goerror option"
  ClientConn_Invoke ::
    "nat option \<Rightarrow> Ctx \<Rightarrow> string \<Rightarrow> goval \<Rightarrow> goval \<Rightarrow> call_option list \<Rightarrow> ('n, MD \<times> goerror option) go"
  NewClientStream ::
    "Ctx \<Rightarrow> nat option \<Rightarrow> string \<Rightarrow> call_option list \<Rightarrow> ('n, nat option \<times> goerror option) go"

record TripleConn =
  timeout :: i64
  grpcConn :: "nat option"

definition on_net :: "('n, 'a) go \<Rightarrow> ('n kworld, 'a) go" where
  "on_net m = (\<lambda>w. case m (net w) of (r, n') \<Rightarrow> (r, w\<lparr>net := n'\<rparr>))"

definition record_cancel :: "Ctx \<Rightarrow> 'n kworld \<Rightarrow> 'n kworld" where
  "record_cancel ctx w = w\<lparr>cancels := cancels w @ [ctx]\<rparr>"

text \<open>The receiver is a pointer: a nil connection panics when its timeout is read.\<close>

definition TripleConn_Invoke ::
    "'n grpc_env \<Rightarrow> TripleConn option \<Rightarrow> Ctx \<Rightarrow> string \<Rightarrow> goval \<Rightarrow> goval \<Rightarrow> call_option list
     \<Rightarrow> ('n kworld, ErrorWithAttachment) go" where
  "TripleConn_Invoke env t ctx method args reply opts =
     go_bind (go_deref t) (\<lambda>c.
     go_bind (go_gets clock) (\<lambda>now.
       let ctx' = WithTimeout now ctx (timeout c)
       in go_defer (record_cancel ctx')
         (go_then (go_modify (\<lambda>w. w\<lparr>rpcs := rpcs w @ [(grpcConn c, ctx', method, args, opts)]\<rparr>))
         (go_bind (on_net (ClientConn_Invoke env (grpcConn c) ctx' method args reply opts))
           (\<lambda>(trailer, err).
              let atta = fold (\<lambda>(k, v) atta. map_store k (VStrings v) atta) trailer Map.empty
              in go_return (NewErrorWithAttachment err atta))))))"

definition TripleConn_NewStream ::
    "'n grpc_env \<Rightarrow> TripleConn option \<Rightarrow> Ctx \<Rightarrow> string \<Rightarrow> call_option list
     \<Rightarrow> ('n kworld, nat option \<times> goerror option) go" where
  "TripleConn_NewStream env t ctx method opts =
     go_bind (go_deref t) (\<lambda>c. on_net (NewClientStream env ctx (grpcConn c) method opts))"

definition newTripleConn ::
    "'n grpc_env \<Rightarrow> i64 \<Rightarrow> string \<Rightarrow> dial_option list \<Rightarrow> ('n kworld, TripleConn) go" where
  "newTripleConn env tmo address opts =
     go_bind (go_gets clock) (\<lambda>now.
       let ctx = WithTimeout now Background tmo
       in go_defer (record_cancel ctx)
         (go_then (go_modify (\<lambda>w. w\<lparr>dials := dials w @ [(ctx, address, opts)]\<rparr>))
           (let conn = fst (DialContext env ctx address opts)
            in go_return \<lparr> timeout = tmo, grpcConn = conn \<rparr>)))"

text \<open>
  Values under \<open>reflect\<close>. The object that \<open>GetDubboStub\<close> returns is a table of methods;
  \<open>impl\<close> is what \<open>reflect.ValueOf(impl).MethodByName("GetDubboStub")\<close> finds, \<open>None\<close>
  being the zero \<open>Value\<close>, on which \<open>Call\<close> panics.
\<close>

type_synonym 'n stub = "string \<Rightarrow> (goval list \<Rightarrow> ('n kworld, goval list) go) option"

type_synonym 'n impl = "(TripleConn \<Rightarrow> ('n kworld, 'n stub option list) go) option"

definition index_go :: "'a list \<Rightarrow> nat \<Rightarrow> ('s, 'a) go" where
  "index_go xs i = (if i < length xs then go_return (xs ! i) else go_panic IndexOutOfRange)"

definition getInvoker :: "'n impl \<Rightarrow> TripleConn \<Rightarrow> ('n kworld, 'n stub option) go" where
  "getInvoker impl conn =
     (case impl of
        None \<Rightarrow> go_panic ReflectZeroValue
      | Some GetDubboStub \<Rightarrow> go_bind (GetDubboStub conn) (\<lambda>res. index_go res 0))"

section \<open>Facts\<close>

lemma on_net_run [run_simps]: "on_net m w = (fst (m (net w)), w\<lparr>net := snd (m (net w))\<rparr>)"
  by (simp add: on_net_def case_prod_beta)

lemma index_go_run [simp]:
  "i < length xs \<Longrightarrow> index_go xs i s = (Inr (xs ! i), s)"
  "\<not> i < length xs \<Longrightarrow> index_go xs i s = (Inl IndexOutOfRange, s)"
  by (simp_all add: index_go_def)

lemma newTripleConn_run [run_simps]:
  "newTripleConn env tmo address opts w =
     (let ctx = WithTimeout (clock w) Background tmo
      in (Inr \<lparr> timeout = tmo, grpcConn = fst (DialContext env ctx address opts) \<rparr>,
          w\<lparr>dials := dials w @ [(ctx, address, opts)], cancels := cancels w @ [ctx]\<rparr>))"
  by (simp add: newTripleConn_def Let_def go_simps record_cancel_def)

text \<open>A trailer as an attachment map: for a key that occurs once, as in a Go map, its values.\<close>

definition attachments_of :: "MD \<Rightarrow> DubboAttachment" where
  "attachments_of trailer = (\<lambda>k. map_option VStrings (map_of (rev trailer) k))"

lemma attachments_fold:
  "fold (\<lambda>(k, v) atta. map_store k (VStrings v) atta) trailer Map.empty = attachments_of trailer"
proof -
  have "map_of (rev (map (\<lambda>(k, v). (k, VStrings v)) trailer)) = attachments_of trailer"
    by (simp add: attachments_of_def fun_eq_iff map_of_map rev_map)
  then show ?thesis
    using gomap.lookup_fold [of "map (\<lambda>(k, v). (k, VStrings v)) trailer" Map.empty]
    by (simp add: fold_map comp_def case_prod_unfold)
qed

lemma TripleConn_Invoke_run [run_simps]:
  "TripleConn_Invoke env (Some c) ctx method args reply opts w =
     (let ctx' = WithTimeout (clock w) ctx (timeout c);
          (r, n') = ClientConn_Invoke env (grpcConn c) ctx' method args reply opts (net w)
      in (case r of Inl p \<Rightarrow> Inl p
            | Inr (trailer, err) \<Rightarrow> Inr (NewErrorWithAttachment err (attachments_of trailer)),
          w\<lparr>rpcs := rpcs w @ [(grpcConn c, ctx', method, args, opts)], net := n',
            cancels := cancels w @ [ctx']\<rparr>))"
  by (simp add: TripleConn_Invoke_def Let_def go_simps run_simps record_cancel_def attachments_fold
      split: prod.split sum.split)

lemma TripleConn_Invoke_nil [run_simps]:
  "TripleConn_Invoke env None ctx method args reply opts w = (Inl NilDereference, w)"
  by (simp add: TripleConn_Invoke_def go_simps)

text \<open>C34: Every RPC through \<open>TripleConn.Invoke\<close> reaches gRPC exactly once, with the caller's
  method, request and call options, under a context that keeps all the caller's values and whose
  deadline is the earlier of the caller's and now plus the connection's timeout; the error comes
  back unchanged with the response trailer as attachments, and the context is cancelled afterwards
  even when gRPC panics.\<close>

theorem conn_invoke_deadline:
  fixes w :: "'n kworld"
  assumes "ClientConn_Invoke env (grpcConn c) (WithTimeout (clock w) ctx (timeout c)) method args reply opts (net w)
      = (r, n')"
  shows "\<exists>ctx'. rpcs (snd (TripleConn_Invoke env (Some c) ctx method args reply opts w)) =
        rpcs w @ [(grpcConn c, ctx', method, args, opts)] \<and>
      ctx_Deadline ctx' = Some (case ctx_Deadline ctx of
          None \<Rightarrow> clock w + sint (timeout c) | Some d \<Rightarrow> min d (clock w + sint (timeout c))) \<and>
      (\<forall>k. ctx_Value ctx' k = ctx_Value ctx k) \<and>
      cancels (snd (TripleConn_Invoke env (Some c) ctx method args reply opts w)) = cancels w @ [ctx'] \<and>
      net (snd (TripleConn_Invoke env (Some c) ctx method args reply opts w)) = n' \<and>
      fst (TripleConn_Invoke env (Some c) ctx method args reply opts w) =
        (case r of Inl p \<Rightarrow> Inl p
         | Inr (trailer, err) \<Rightarrow> Inr (NewErrorWithAttachment err (attachments_of trailer)))"
  using assms
  by (intro exI [of _ "WithTimeout (clock w) ctx (timeout c)"])
    (simp add: run_simps Let_def ctx_Deadline_WithTimeout)

text \<open>A gRPC for concrete runs: dialling an address fails unless it is \<open>''up:1''\<close>, and every
  call returns one trailer.\<close>

definition sample_grpc :: "nat grpc_env" where
  "sample_grpc =
     \<lparr> DialContext = (\<lambda>ctx addr opts. if addr = ''up:1'' then (Some 5, None) else (None, Some (ForeignError 1))),
       ClientConn_Invoke = (\<lambda>conn ctx method args reply opts n.
         (Inr ([(''trace'', [''t''])], None), n + 1)),
       NewClientStream = (\<lambda>ctx conn method opts n. (Inr (Some 9, None), n + 1)) \<rparr>"

definition sample_kworld :: "nat kworld" where
  "sample_kworld =
     \<lparr> logs = [], grpcCodecs = [], codecFactoryMap = Map.empty, codecInWrapperSerializerTypeMap = Map.empty,
       clock = 1000, cancels = [], dials = [], rpcs = [], closes = [], net = 0 \<rparr>"

theorem conn_invoke_deadline_witness:
  "\<exists>ctx'. rpcs (snd (TripleConn_Invoke sample_grpc (Some \<lparr>timeout = 50, grpcConn = Some 5\<rparr>)
       (TimerCtx Background 1020) ''/g/M'' VNil VNil [] sample_kworld)) = [(Some 5, ctx', ''/g/M'', VNil, [])] \<and>
     ctx_Deadline ctx' = Some 1020"
proof -
  have "ClientConn_Invoke sample_grpc (grpcConn \<lparr>timeout = 50, grpcConn = Some 5\<rparr>)
      (WithTimeout (clock sample_kworld) (TimerCtx Background 1020) (timeout \<lparr>timeout = 50, grpcConn = Some 5\<rparr>))
      ''/g/M'' VNil VNil [] (net sample_kworld) = (Inr ([(''trace'', [''t''])], None), 1)"
    by (simp add: sample_grpc_def sample_kworld_def)
  from conn_invoke_deadline [OF this] show ?thesis
    by (auto simp: sample_kworld_def)
qed

end
