(* ===== verification/Client.thy ===== *)
theory Client
  imports Conn
begin

text \<open>
  \<open>src/pkg/triple/dubbo3_client.go\<close>: construction of the client, \<open>Invoke\<close>,
  \<open>Close\<close> and \<open>IsAvailable\<close>.

  \<open>client_env\<close> gathers what the client calls outside the repository: gRPC, the TLS files,
  Jaeger's UDP transport, \<open>tools.ReflectResponse\<close> and the text that \<open>%+v\<close> prints for a
  recovered panic. \<open>Value\<close>s of \<open>reflect\<close> are interface values; the zero \<open>Value\<close>
  is \<open>None\<close>, on which \<open>MethodByName\<close>, \<open>IsZero\<close> and \<open>Call\<close> all panic.
\<close>

record 'n client_env =
  cl_grpc :: "'n grpc_env"
  cl_tls :: tls_env
  cl_udp :: udp_transport
  ReflectResponse :: "goval \<Rightarrow> goval \<Rightarrow> ('n kworld, goerror option) go"
  fmt_panic :: "panic \<Rightarrow> string"

text \<open>The fields \<open>once\<close> and \<open>serializer\<close> of the struct are never read or written.\<close>

record 'n TripleClient =
  stubInvoker :: "'n stub option"
  triplConn :: "TripleConn option"
  opt :: triple_option

section \<open>Construction\<close>

definition client_tracer :: "udp_transport \<Rightarrow> triple_option \<Rightarrow> Tracer" where
  "client_tracer udp o0 =
     (if \<not> JaegerUseAgent o0 then NewJaegerTracerDirect (JaegerServiceName o0) (JaegerAddress o0) (Logger o0)
      else NewJaegerTracerAgent udp (JaegerServiceName o0) (JaegerAddress o0) (Logger o0))"

definition tracing_dial_opts :: "udp_transport \<Rightarrow> triple_option \<Rightarrow> dial_option list" where
  "tracing_dial_opts udp o0 =
     (if JaegerAddress o0 \<noteq> []
      then [WithUnaryInterceptor (client_tracer udp o0), WithStreamInterceptor (client_tracer udp o0)]
      else [])"

definition default_call_opts :: "triple_option \<Rightarrow> call_option list" where
  "default_call_opts o0 =
     (let opts0 = [];
          opts1 = (if GRPCMaxCallSendMsgSize o0 \<noteq> 0
                   then opts0 @ [MaxCallSendMsgSize (GRPCMaxCallSendMsgSize o0)] else opts0);
          opts2 = (if GRPCMaxCallRecvMsgSize o0 \<noteq> 0
                   then opts1 @ [MaxCallRecvMsgSize (GRPCMaxCallRecvMsgSize o0)] else opts1)
      in opts2)"

definition keepalive_dial_opts :: "triple_option \<Rightarrow> dial_option list" where
  "keepalive_dial_opts o0 =
     (if GRPCKeepAliveTime o0 \<noteq> 0 \<and> GRPCKeepAliveTimeout o0 \<noteq> 0
      then [WithKeepaliveParams (GRPCKeepAliveTime o0) (GRPCKeepAliveTimeout o0) True] else [])"

definition NewTripleClient ::
    "'n client_env \<Rightarrow> 'n impl \<Rightarrow> triple_option option
     \<Rightarrow> ('n kworld, 'n TripleClient option \<times> goerror option) go" where
  "NewTripleClient env impl opt0 =
     (let o0 = (case opt0 of None \<Rightarrow> NewTripleOption [] | Some given \<Rightarrow> given);
          dialOpts0 = tracing_dial_opts (cl_udp env) o0
      in case getClientTlsCertificate (cl_tls env) o0 of
           (creds, Some err) \<Rightarrow>
             go_then (log_stmt (Logger o0)
               (Errorf ''TripleClient.Start: TLS config err: %v'' [VError err]))
             (go_return (None, Some err))
         | (creds, None) \<Rightarrow>
             let dialOpts1 = dialOpts0 @ [WithTransportCredentials
                   (case creds of Some c \<Rightarrow> c | None \<Rightarrow> InsecureCredentials)];
                 dialOpts2 = dialOpts1 @ [WithDefaultCallOptions (default_call_opts o0)];
                 dialOpts3 = dialOpts2 @ keepalive_dial_opts o0
             in go_bind (newTripleConn (cl_grpc env) (Timeout o0) (Location o0) dialOpts3) (\<lambda>conn.
                  if CodecType o0 = PBCodecName
                  then go_bind (getInvoker impl conn) (\<lambda>stub.
                    go_return (Some \<lparr> stubInvoker = stub, triplConn = None, opt = o0 \<rparr>, None))
                  else go_return (Some \<lparr> stubInvoker = None, triplConn = Some conn, opt = o0 \<rparr>, None)))"

section \<open>Calls\<close>

definition reflect_MethodByName :: "'n stub option \<Rightarrow> string
    \<Rightarrow> ('n kworld, (goval list \<Rightarrow> ('n kworld, goval list) go) option) go" where
  "reflect_MethodByName v name =
     (case v of None \<Rightarrow> go_panic ReflectZeroValue | Some stub \<Rightarrow> go_return (stub name))"

text \<open>\<open>Value.IsZero\<close> panics on the zero \<open>Value\<close>; a method value is never the zero value
  of its type.\<close>

definition reflect_IsZero :: "'m option \<Rightarrow> ('s, bool) go" where
  "reflect_IsZero v = (case v of None \<Rightarrow> go_panic ReflectZeroValue | Some _ \<Rightarrow> go_return False)"

definition reflect_Call :: "(goval list \<Rightarrow> ('s, goval list) go) option \<Rightarrow> goval list \<Rightarrow> ('s, goval list) go" where
  "reflect_Call v args = (case v of None \<Rightarrow> go_panic ReflectZeroValue | Some f \<Rightarrow> f args)"

definition unimplemented_method :: "string \<Rightarrow> goerror" where
  "unimplemented_method methodName = StatusError codes_Unimplemented
     (''TripleClient.Invoke: methodName '' @ methodName @ '' not impl in triple client api.'')"

definition unimplemented_codec :: "string \<Rightarrow> goerror" where
  "unimplemented_codec codecType = StatusError codes_Unimplemented
     (''TripleClient.Invoke: serialization '' @ codecType @ '' not impl in triple client api.'')"

text \<open>The goroutine that copies the response into the reply and reports over \<open>errChan\<close>: the
  error of \<open>ReflectResponse\<close> is dropped, a panic becomes an error.\<close>

definition reflect_reply :: "'n client_env \<Rightarrow> logger option \<Rightarrow> goval \<Rightarrow> goval \<Rightarrow> ('n kworld, goerror option) go" where
  "reflect_reply env l res reply =
     go_bind (go_recover Some (go_then (ReflectResponse env res reply) (go_return None))) (\<lambda>recovered.
       case recovered of
         None \<Rightarrow> go_return None
       | Some e \<Rightarrow>
           go_then (log_stmt l (Errorf ''TripleClient.Invoke: response reflect to reply error = %+v''
             [VString (fmt_panic env e)]))
           (go_return (Some (PkgError
             (''TripleClient.Invoke: response reflect to reply error = '' @ fmt_panic env e)))))"

text \<open>What the stub's second result says: the call is over with an error (\<open>Inl\<close>), or it
  succeeded with these attachments (\<open>Inr\<close>).\<close>

definition stub_status :: "logger option \<Rightarrow> goval \<Rightarrow> ('n kworld, ErrorWithAttachment + DubboAttachment) go" where
  "stub_status l res1 =
     (case as_err_att res1 of
        Some errWithAtta \<Rightarrow>
          go_then (log_stmt l (Debugf ''TripleClient.Invoke: get result final struct is common.ErrorWithAttachment'' []))
          (case GetError errWithAtta of
             Some e \<Rightarrow>
               go_then (log_stmt l (Debugf ''TripleClient.Invoke: get result errorWithAttachment, error = %s'' [VError e]))
               (go_return (Inl (NewErrorWithAttachment (Some e) Map.empty)))
           | None \<Rightarrow>
               go_then (log_stmt l (Debugf ''TripleClient.Invoke: get response attachement = %+v''
                 [VMap (GetAttachments errWithAtta)]))
               (go_return (Inr (GetAttachments errWithAtta))))
      | None \<Rightarrow>
          if res1 \<noteq> VNil then
            go_bind (go_lift (assert_error res1)) (\<lambda>e.
            go_then (log_stmt l (Debugf ''TripleClient.Invoke: get result final struct is error = %s'' [VError e]))
            (go_return (Inl (NewErrorWithAttachment (Some e) Map.empty))))
          else go_return (Inr Map.empty))"

definition stub_call :: "'n client_env \<Rightarrow> logger option \<Rightarrow> (goval list \<Rightarrow> ('n kworld, goval list) go) option
    \<Rightarrow> goval list \<Rightarrow> goval \<Rightarrow> ('n kworld, ErrorWithAttachment) go" where
  "stub_call env l method ins reply =
     go_bind (reflect_Call method ins) (\<lambda>res.
     go_bind (index_go res 1) (\<lambda>res1.
     go_bind (stub_status l res1) (\<lambda>early.
       case early of
         Inl result \<Rightarrow> go_return result
       | Inr attachment \<Rightarrow>
           go_bind (index_go res 0) (\<lambda>res0.
           go_then (log_stmt l (Debugf ''TripleClient.Invoke: get reply = %+v'' [res0]))
           (go_bind (reflect_reply env l res0 reply) (\<lambda>err.
              go_return (NewErrorWithAttachment err attachment)))))))"

definition Invoke_pb :: "'n client_env \<Rightarrow> 'n TripleClient \<Rightarrow> string \<Rightarrow> goval list \<Rightarrow> goval
    \<Rightarrow> ('n kworld, ErrorWithAttachment) go" where
  "Invoke_pb env t methodName ins reply =
     go_bind (reflect_MethodByName (stubInvoker t) methodName) (\<lambda>method.
     go_bind (reflect_IsZero method) (\<lambda>zero.
       if zero then
         go_then (log_stmt (Logger (opt t))
           (Errorf ''TripleClient.Invoke: methodName %s not impl in triple client api.'' [VString methodName]))
         (go_return (NewErrorWithAttachment (Some (unimplemented_method methodName)) Map.empty))
       else stub_call env (Logger (opt t)) method ins reply))"

text \<open>The inner codec of a call that is not protobuf.\<close>

definition inner_codec :: "CodecType \<Rightarrow> 'a cworld_scheme \<Rightarrow> codec option \<times> goerror option" where
  "inner_codec ct w =
     (if ct = HessianCodecName then (Some HessianCodec, None)
      else if ct = MsgPackCodecName then (Some MsgPackCodec, None)
      else GetTripleCodec ct w)"

definition Invoke_wrapped :: "'n client_env \<Rightarrow> 'n TripleClient \<Rightarrow> string \<Rightarrow> goval list \<Rightarrow> goval
    \<Rightarrow> ('n kworld, ErrorWithAttachment) go" where
  "Invoke_wrapped env t methodName ins reply =
     go_bind (index_go ins 0) (\<lambda>in0.
     go_bind (go_lift (assert_context in0)) (\<lambda>ctx.
     go_bind (go_lift (assert_string (ctx_Value ctx InterfaceKey))) (\<lambda>interfaceKey.
     go_then (log_stmt (Logger (opt t))
       (Debugf ''TripleClient.Invoke: call with interfaceKey = %s'' [VString interfaceKey]))
     (let reqParams = map snd (filter (\<lambda>(idx, v). idx > 0) (enumerate 0 ins))
      in go_bind (go_gets (inner_codec (CodecType (opt t)))) (\<lambda>(innerCodec, err).
           if err \<noteq> None
           then go_return (NewErrorWithAttachment (Some (unimplemented_codec (CodecType (opt t)))) Map.empty)
           else TripleConn_Invoke (cl_grpc env) (triplConn t) ctx
             (''/'' @ interfaceKey @ ''/'' @ methodName) (VSlice reqParams) reply
             [ForceCodec (PBWrapperTwoWayCodec (CodecType (opt t)) innerCodec ProtobufCodec)])))))"

definition TripleClient_Invoke :: "'n client_env \<Rightarrow> 'n TripleClient \<Rightarrow> string \<Rightarrow> goval list \<Rightarrow> goval
    \<Rightarrow> ('n kworld, ErrorWithAttachment) go" where
  "TripleClient_Invoke env t methodName ins reply =
     go_then (log_stmt (Logger (opt t))
       (Debugf ''TripleClient.Invoke: methodName = %s, inputValue = %+v, expected reply struct = %+v, client defined codec = %s''
         [VString methodName, VSlice ins, reply, VString (CodecType (opt t))]))
     (if CodecType (opt t) = PBCodecName then Invoke_pb env t methodName ins reply
      else Invoke_wrapped env t methodName ins reply)"

definition TripleClient_Close :: "'n TripleClient \<Rightarrow> ('n kworld, unit) go" where
  "TripleClient_Close t =
     go_then (log_stmt (Logger (opt t)) (Debug [VString ''Triple Client Is closing'']))
     (case triplConn t of
        None \<Rightarrow> go_return ()
      | Some c \<Rightarrow>
          (case grpcConn c of
             None \<Rightarrow> go_return ()
           | Some g \<Rightarrow> go_modify (\<lambda>w. w\<lparr>closes := closes w @ [g]\<rparr>)))"

definition TripleClient_IsAvailable :: "'n TripleClient \<Rightarrow> bool" where
  "TripleClient_IsAvailable t = True"

section \<open>Facts\<close>

definition effective_option :: "triple_option option \<Rightarrow> triple_option" where
  "effective_option opt0 = (case opt0 of None \<Rightarrow> NewTripleOption [] | Some given \<Rightarrow> given)"

text \<open>The dial options of a client whose TLS set-up yields \<open>creds\<close>.\<close>

definition dial_opts :: "udp_transport \<Rightarrow> triple_option \<Rightarrow> TransportCredentials option \<Rightarrow> dial_option list" where
  "dial_opts udp o0 creds = tracing_dial_opts udp o0 @
     [WithTransportCredentials (case creds of Some c \<Rightarrow> c | None \<Rightarrow> InsecureCredentials),
      WithDefaultCallOptions (default_call_opts o0)] @ keepalive_dial_opts o0"

lemma NewTripleClient_tls_error:
  assumes "effective_option opt0 = o0" "getClientTlsCertificate (cl_tls env) o0 = (creds, Some err)"
    and "log_sink (Logger o0) = Some k"
  shows "NewTripleClient env impl opt0 w = (Inr (None, Some err),
     w\<lparr>logs := logs w @ [(k, Errorf ''TripleClient.Start: TLS config err: %v'' [VError err])]\<rparr>)"
  using assms
  by (simp add: NewTripleClient_def effective_option_def [symmetric] Let_def go_then_run log_stmt_usable)

lemma NewTripleClient_dials:
  assumes "effective_option opt0 = o0" "getClientTlsCertificate (cl_tls env) o0 = (creds, None)"
  shows "NewTripleClient env impl opt0 w =
     (let ctx = WithTimeout (clock w) Background (Timeout o0);
          dopts = dial_opts (cl_udp env) o0 creds;
          conn = \<lparr> timeout = Timeout o0, grpcConn = fst (DialContext (cl_grpc env) ctx (Location o0) dopts) \<rparr>;
          w1 = w\<lparr>dials := dials w @ [(ctx, Location o0, dopts)], cancels := cancels w @ [ctx]\<rparr>
      in if CodecType o0 = PBCodecName
         then (case getInvoker impl conn w1 of
                 (Inl p, w2) \<Rightarrow> (Inl p, w2)
               | (Inr stub, w2) \<Rightarrow>
                   (Inr (Some \<lparr> stubInvoker = stub, triplConn = None, opt = o0 \<rparr>, None), w2))
         else (Inr (Some \<lparr> stubInvoker = None, triplConn = Some conn, opt = o0 \<rparr>, None), w1))"
  using assms
  by (simp add: NewTripleClient_def effective_option_def [symmetric] dial_opts_def Let_def go_simps
      run_simps split: prod.split sum.split)

lemma reqParams_tl: "map snd (filter (\<lambda>(idx, v). idx > 0) (enumerate 0 ins)) = tl ins"
proof (cases ins)
  case Nil
  then show ?thesis by simp
next
  case (Cons x xs)
  have "filter (\<lambda>(idx, v). idx > 0) (enumerate (Suc n) xs) = enumerate (Suc n) xs" for n
    by (rule filter_True) (auto simp: in_set_enumerate_eq)
  with Cons show ?thesis by simp
qed

lemma yields_log: "usable l \<Longrightarrow> yields (log_stmt l c) (Inr ())"
  by (auto simp: yields_def usable_sink log_stmt_usable)

text \<open>The result of copying the reply.\<close>

definition reply_error :: "'n client_env \<Rightarrow> panic + goerror option \<Rightarrow> goerror option" where
  "reply_error env rr = (case rr of
       Inr _ \<Rightarrow> None
     | Inl p \<Rightarrow> Some (PkgError (''TripleClient.Invoke: response reflect to reply error = '' @ fmt_panic env p)))"

lemma yields_reflect_reply:
  assumes "usable l" and "yields (ReflectResponse env res reply) rr"
  shows "yields (reflect_reply env l res reply) (Inr (reply_error env rr))"
proof (cases rr)
  case (Inl p)
  then have "yields (go_recover Some (go_then (ReflectResponse env res reply) (go_return None))) (Inr (Some p))"
    using assms(2) by (auto simp: yields_def go_simps split: prod.split sum.split) (metis fst_conv sum.simps)+
  then show ?thesis
    unfolding reflect_reply_def reply_error_def Inl
    by (rule yields_bind) (auto intro: yields_then yields_log yields_return assms(1))
next
  case (Inr x)
  then have "yields (go_recover Some (go_then (ReflectResponse env res reply) (go_return None))) (Inr None)"
    using assms(2) by (auto simp: yields_def go_simps split: prod.split sum.split) (metis fst_conv sum.simps)+
  then show ?thesis
    unfolding reflect_reply_def reply_error_def Inr
    by (rule yields_bind) (auto intro: yields_return)
qed

lemma yields_stub_status:
  assumes "usable l"
  shows "yields (stub_status l (VErrAtt ewa)) (Inr (case GetError ewa of
       Some e \<Rightarrow> Inl (NewErrorWithAttachment (Some e) Map.empty) | None \<Rightarrow> Inr (GetAttachments ewa)))"
    and "yields (stub_status l (VError e)) (Inr (Inl (NewErrorWithAttachment (Some e) Map.empty)))"
    and "yields (stub_status l VNil) (Inr (Inr Map.empty))"
  using assms unfolding stub_status_def
  by (auto split: option.split intro!: yields_bind yields_then yields_log yields_return yields_lift)

lemma yields_stub_call:
  assumes l: "usable l" and f: "yields (f ins) (Inr [res0, res1])"
    and rr: "yields (ReflectResponse env res0 reply) rr"
    and st: "yields (stub_status l res1 :: ('n kworld, _) go) (Inr early)"
  shows "yields (stub_call (env :: 'n client_env) l (Some f) ins reply)
     (Inr (case early of Inl result \<Rightarrow> result
           | Inr attachment \<Rightarrow> NewErrorWithAttachment (reply_error env rr) attachment))"
proof -
  have idx: "yields (index_go [res0, res1] 1 :: ('n kworld, goval) go) (Inr res1)"
      "yields (index_go [res0, res1] 0 :: ('n kworld, goval) go) (Inr res0)"
    by (simp_all add: yields_def)
  have "yields (reflect_Call (Some f) ins) (Inr [res0, res1])"
    using f by (simp add: reflect_Call_def)
  then show ?thesis
    unfolding stub_call_def
    by (rule yields_bind, intro yields_bind [OF idx(1)] yields_bind [OF st])
      (auto split: sum.split intro!: yields_return yields_bind [OF idx(2)]
        yields_then [OF yields_log [OF l]] yields_bind [OF yields_reflect_reply [OF l rr]])
qed

lemma yields_Invoke_pb:
  assumes "stubInvoker t = Some stub" "stub methodName = Some f"
    and "yields (stub_call env (Logger (opt t)) (Some f) ins reply) r"
  shows "yields (Invoke_pb env t methodName ins reply) r"
  unfolding Invoke_pb_def
  using assms(3)
  by (intro yields_bind [where x = "Some f"] yields_bind [where x = False])
    (simp_all add: assms(1,2) reflect_MethodByName_def reflect_IsZero_def yields_return)

text \<open>What a call with a wrapping codec logs before it reaches the connection.\<close>

definition invoke_log ::
    "'n TripleClient \<Rightarrow> string \<Rightarrow> goval list \<Rightarrow> goval \<Rightarrow> string \<Rightarrow> logger \<Rightarrow> (logger \<times> log_call) list" where
  "invoke_log t methodName ins reply interfaceKey k =
     [(k, Debugf ''TripleClient.Invoke: methodName = %s, inputValue = %+v, expected reply struct = %+v, client defined codec = %s''
        [VString methodName, VSlice ins, reply, VString (CodecType (opt t))]),
      (k, Debugf ''TripleClient.Invoke: call with interfaceKey = %s'' [VString interfaceKey])]"

lemma inner_codec_logs [simp]: "inner_codec ct (w\<lparr>logs := l\<rparr>) = inner_codec ct w"
  by (simp add: inner_codec_def GetTripleCodec_def)

lemma TripleClient_Invoke_wrapped:
  assumes "CodecType (opt t) \<noteq> PBCodecName" "log_sink (Logger (opt t)) = Some k"
    and "triplConn t = Some c" "ctx_Value ctx InterfaceKey = VString interfaceKey"
    and "inner_codec (CodecType (opt t)) w = (ic, err)"
  shows "TripleClient_Invoke env t methodName (VCtx ctx # args) reply w =
      (if err \<noteq> None
       then (Inr (NewErrorWithAttachment (Some (unimplemented_codec (CodecType (opt t)))) Map.empty),
             w\<lparr>logs := logs w @ invoke_log t methodName (VCtx ctx # args) reply interfaceKey k\<rparr>)
       else TripleConn_Invoke (cl_grpc env) (Some c) ctx (''/'' @ interfaceKey @ ''/'' @ methodName)
            (VSlice args) reply
            [ForceCodec (PBWrapperTwoWayCodec (CodecType (opt t)) ic ProtobufCodec)]
            (w\<lparr>logs := logs w @ invoke_log t methodName (VCtx ctx # args) reply interfaceKey k\<rparr>))"
  using assms
  by (simp add: TripleClient_Invoke_def Invoke_wrapped_def reqParams_tl go_simps log_stmt_usable
      invoke_log_def Let_def del: enumerate_simps)

lemma Invoke_wrapped_bad:
  assumes "CodecType (opt t) \<noteq> PBCodecName" "usable (Logger (opt t))"
  shows "yields (TripleClient_Invoke env t methodName [] reply) (Inl IndexOutOfRange)"
    and "\<forall>c. v = VCtx c \<longrightarrow> ctx_lookup_string c InterfaceKey = None \<Longrightarrow>
      yields (TripleClient_Invoke env t methodName (v # args) reply) (Inl BadTypeAssertion)"
proof -
  note start = yields_then [OF yields_log [OF assms(2)]]
  show "yields (TripleClient_Invoke env t methodName [] reply) (Inl IndexOutOfRange)"
    using assms(1) unfolding TripleClient_Invoke_def
    by (intro start) (simp add: Invoke_wrapped_def yields_def)
  assume v: "\<forall>c. v = VCtx c \<longrightarrow> ctx_lookup_string c InterfaceKey = None"
  have "yields (Invoke_wrapped env t methodName (v # args) reply) (Inl BadTypeAssertion)"
  proof (cases v)
    case (VCtx c)
    with v have "assert_string (ctx_Value c InterfaceKey) = Inl BadTypeAssertion"
      by (cases "ctx_Value c InterfaceKey") (simp_all add: ctx_lookup_string_def)
    with VCtx show ?thesis by (simp add: Invoke_wrapped_def yields_def)
  qed (simp_all add: Invoke_wrapped_def yields_def)
  then show "yields (TripleClient_Invoke env t methodName (v # args) reply) (Inl BadTypeAssertion)"
    using assms(1) unfolding TripleClient_Invoke_def by (intro start) simp
qed

section \<open>Properties\<close>


text \<open>When mutual TLS silently turns into plaintext. A client that asked for mutual TLS is returned
  without an error although it dialled in plaintext exactly when the CA file can be read but holds no
  certificate; in every other case it dials with the configured certificates or reports an error.\<close>

theorem client_silent_downgrade:
  assumes "mtls_requested o0" "CodecType o0 \<noteq> PBCodecName"
  shows "(\<exists>client ctx dopts. fst (NewTripleClient env impl (Some o0) w) = Inr (Some client, None) \<and>
      dials (snd (NewTripleClient env impl (Some o0) w)) = dials w @ [(ctx, Location o0, dopts)] \<and>
      filter (\<lambda>d. \<exists>c. d = WithTransportCredentials c) dopts = [WithTransportCredentials InsecureCredentials]) \<longleftrightarrow>
    (\<exists>ca. ReadFile (cl_tls env) (CACertFile o0) = Inr ca \<and> \<not> AppendCertsFromPEM (cl_tls env) ca)"
    (is "?plain \<longleftrightarrow> ?unusable")
proof
  assume ?unusable
  then have c: "getClientTlsCertificate (cl_tls env) o0 = (None, None)"
    using client_tls.ca_unusable [OF assms(1)] by blast
  show ?plain
    using assms(2)
    by (simp add: NewTripleClient_dials [OF _ c] effective_option_def Let_def dial_opts_def
        tracing_dial_opts_def keepalive_dial_opts_def)
next
  assume plain: ?plain
  obtain creds err where c: "getClientTlsCertificate (cl_tls env) o0 = (creds, err)" by force
  show ?unusable
  proof (cases err)
    case (Some e)
    have "fst (NewTripleClient env impl (Some o0) w) \<noteq> Inr (Some client, None)" for client
      by (cases "log_sink (Logger o0)")
        (simp_all add: NewTripleClient_def c Some go_then_run log_stmt_usable log_stmt_unusable)
    with plain show ?thesis by blast
  next
    case None
    have "creds = None \<or> creds = Some InsecureCredentials"
      using plain assms(2)
      by (auto simp: NewTripleClient_dials [OF _ c [unfolded None]] effective_option_def Let_def dial_opts_def
          tracing_dial_opts_def keepalive_dial_opts_def split: if_splits option.splits)
    with client_tls.mtls_outcome [OF assms(1), of "cl_tls env"] c None show ?thesis by auto
  qed
qed

text \<open>Calling a method that the stub does not have panics: \<open>MethodByName\<close> returns the zero
  \<open>Value\<close>, on which \<open>IsZero\<close> panics, so the branch that returns the Unimplemented status
  is never taken.\<close>

theorem unknown_method_panics:
  assumes "CodecType (opt t) = PBCodecName" "usable (Logger (opt t))"
    "stubInvoker t = Some stub" "stub methodName = None"
  shows "fst (TripleClient_Invoke env t methodName ins reply w) = Inl ReflectZeroValue"
proof (rule yieldsD)
  show "yields (TripleClient_Invoke env t methodName ins reply) (Inl ReflectZeroValue)"
    unfolding TripleClient_Invoke_def
    by (rule yields_then [OF yields_log [OF assms(2)]])
      (simp add: assms Invoke_pb_def Let_def reflect_MethodByName_def reflect_IsZero_def yields_def go_simps)
qed



text \<open>\<open>Close\<close> closes the gRPC connection of a client with a wrapping codec exactly once per
  call. A protobuf client keeps its connection only inside the stub, so its connection is never
  closed, although the constructor dialled it.\<close>

theorem close_leaks_protobuf_connection:
  assumes "usable (Logger o0)" "getClientTlsCertificate (cl_tls env) o0 = (creds, None)"
    and "fst (NewTripleClient env impl (Some o0) w) = Inr (Some client, None)"
    and "fst (DialContext (cl_grpc env) (WithTimeout (clock w) Background (Timeout o0)) (Location o0)
           (dial_opts (cl_udp env) o0 creds)) = Some g"
  shows "closes (snd (TripleClient_Close client w')) =
    (if CodecType o0 = PBCodecName then closes w' else closes w' @ [g])"
proof -
  obtain k where k: "log_sink (Logger o0) = Some k" using assms(1) by (auto simp: usable_sink)
  have "effective_option (Some o0) = o0" by (simp add: effective_option_def)
  note run = NewTripleClient_dials [OF this assms(2)]
  have "opt client = o0 \<and> (if CodecType o0 = PBCodecName then triplConn client = None
      else triplConn client = Some \<lparr>timeout = Timeout o0, grpcConn = Some g\<rparr>)"
    using assms(3,4) by (auto simp: run Let_def split: if_splits prod.splits sum.splits)
  then show ?thesis
    using k by (auto simp: TripleClient_Close_def go_simps log_stmt_usable)
qed

text \<open>A failed dial is not reported: the constructor returns a client and no error, the client
  says it is available, and each call hands gRPC a nil connection.\<close>

theorem dial_error_swallowed:
  assumes "getClientTlsCertificate (cl_tls env) o0 = (creds, None)" "CodecType o0 = HessianCodecName"
    and "DialContext (cl_grpc env) (WithTimeout (clock w) Background (Timeout o0)) (Location o0)
           (dial_opts (cl_udp env) o0 creds) = (None, Some e)"
  shows "\<exists>client. fst (NewTripleClient env impl (Some o0) w) = Inr (Some client, None) \<and>
    TripleClient_IsAvailable client \<and> triplConn client = Some \<lparr>timeout = Timeout o0, grpcConn = None\<rparr>"
  using assms
  by (simp add: NewTripleClient_dials [OF _ assms(1)] effective_option_def Let_def TripleClient_IsAvailable_def)

section \<open>Concrete runs\<close>

definition sample_client_env :: "nat client_env" where
  "sample_client_env =
     \<lparr> cl_grpc = sample_grpc, cl_tls = sample_tls, cl_udp = (\<lambda>a n. (None, Some (ForeignError 3))),
       ReflectResponse = (\<lambda>res reply w. (if reply = VNil then Inl (UserPanic 4) else Inr (Some (ForeignError 6)), w)),
       fmt_panic = (\<lambda>p. ''bad reply'') \<rparr>"

definition hessian_option :: triple_option where
  "hessian_option = NewTripleOption [WithCodecType HessianCodecName, WithLocation ''up:1'']"

definition sample_client :: "nat TripleClient" where
  "sample_client = \<lparr> stubInvoker = None, triplConn = Some \<lparr>timeout = DefaultTimeout, grpcConn = Some 5\<rparr>,
     opt = hessian_option \<rparr>"

definition pb_client :: "goval \<Rightarrow> nat TripleClient" where
  "pb_client res1 = \<lparr> stubInvoker = Some [''SayHello'' \<mapsto> (\<lambda>ins w. (Inr [VObj 1, res1], w))],
     triplConn = None, opt = NewTripleOption [] \<rparr>"

lemma hessian_option_fields [simp]:
  "CodecType hessian_option = HessianCodecName" "Location hessian_option = ''up:1''"
  "Timeout hessian_option = DefaultTimeout" "Logger hessian_option = Some GetDefaultLogger"
  "TLSCertFile hessian_option = []" "TLSKeyFile hessian_option = []" "JaegerAddress hessian_option = []"
  "GRPCMaxCallSendMsgSize hessian_option = 0" "GRPCMaxCallRecvMsgSize hessian_option = 0"
  "GRPCKeepAliveTime hessian_option = 0"
  by (simp_all add: hessian_option_def NewTripleOption_def WithCodecType_def WithLocation_def zero_option_def
      HessianCodecName_def)

lemma default_option_fields [simp]:
  "CodecType (NewTripleOption []) = PBCodecName" "Logger (NewTripleOption []) = Some GetDefaultLogger"
  by (simp_all add: NewTripleOption_def zero_option_def)

lemma hessian_no_tls [simp]: "getClientTlsCertificate env hessian_option = (None, None)"
  by (simp add: getClientTlsCertificate_def)

lemma sink_default [simp]: "log_sink (Some GetDefaultLogger) = Some GetDefaultLogger"
  by (simp add: GetDefaultLogger_def)


theorem client_silent_downgrade_witness:
  "\<exists>client ctx dopts.
     fst (NewTripleClient sample_client_env None (Some ((mtls_option ''empty.pem'')\<lparr>CodecType := HessianCodecName\<rparr>)) sample_kworld) =
       Inr (Some client, None) \<and>
     dials (snd (NewTripleClient sample_client_env None (Some ((mtls_option ''empty.pem'')\<lparr>CodecType := HessianCodecName\<rparr>)) sample_kworld)) =
       dials sample_kworld @ [(ctx, Location ((mtls_option ''empty.pem'')\<lparr>CodecType := HessianCodecName\<rparr>), dopts)] \<and>
     filter (\<lambda>d. \<exists>c. d = WithTransportCredentials c) dopts = [WithTransportCredentials InsecureCredentials]"
  by (rule client_silent_downgrade [THEN iffD2])
    (simp_all add: mtls_option_def tls_request_defs sample_client_env_def sample_tls_def)

theorem unknown_method_panics_witness:
  "fst (TripleClient_Invoke sample_client_env (pb_client VNil) ''Missing'' [] VNil sample_kworld) =
     Inl ReflectZeroValue"
  by (rule unknown_method_panics [where stub = "the (stubInvoker (pb_client VNil))"])
    (simp_all add: pb_client_def)



theorem close_leaks_protobuf_connection_witness:
  "closes (snd (TripleClient_Close sample_client sample_kworld)) = [5]"
proof -
  have "fst (NewTripleClient sample_client_env None (Some hessian_option) sample_kworld) = Inr (Some sample_client, None)"
    by (simp add: NewTripleClient_dials [OF _ hessian_no_tls] effective_option_def sample_client_def
        sample_client_env_def sample_grpc_def Let_def)
  from close_leaks_protobuf_connection [OF _ hessian_no_tls this, of 5 sample_kworld] show ?thesis
    by (simp add: sample_client_env_def sample_grpc_def sample_kworld_def)
qed

theorem dial_error_swallowed_witness:
  "\<exists>client. fst (NewTripleClient sample_client_env None (Some (hessian_option\<lparr>Location := ''down:1''\<rparr>)) sample_kworld) =
       Inr (Some client, None) \<and>
     TripleClient_IsAvailable client \<and>
     triplConn client = Some \<lparr>timeout = Timeout (hessian_option\<lparr>Location := ''down:1''\<rparr>), grpcConn = None\<rparr>"
  by (rule dial_error_swallowed [where creds = None and e = "ForeignError 1"])
    (simp_all add: getClientTlsCertificate_def sample_client_env_def sample_grpc_def)

end
