(* ===== verification/Unary_Handler.thy ===== *)
theory Unary_Handler
  imports Constants
begin

text \<open>
  \<open>src/pkg/triple/dubbo3_server.go\<close>, lines 130 to 199: the generic codec and the handler
  closure that \<open>createGrpcDesc\<close> installs for a \<open>TripleUnaryService\<close>
  (\<open>src/pkg/common/service.go\<close>).

  The service, the decoder that gRPC passes in and the two wire formats (protobuf, Hessian) are
  arguments. Request parameters are pointers into a store: the service hands out pointers, the
  decoder fills in what they point to, and the handler reads the objects back.
\<close>

section \<open>Services\<close>

text \<open>The state a request handler works on: the objects its pointers refer to, and whatever the
  service keeps.\<close>

record 'w hworld =
  heap :: "nat \<Rightarrow> goval option"
  user :: 'w

record 'w TripleUnaryService =
  InvokeWithArgs :: "Ctx \<Rightarrow> string \<Rightarrow> goval list \<Rightarrow> ('w hworld, goval \<times> goerror option) go"
  GetReqParamsInterfaces :: "string \<Rightarrow> ('w hworld, goval list \<times> bool) go"

text \<open>A value of the service map, by the interfaces it implements: \<open>as_grpc\<close> is what its
  \<open>XXX_ServiceDesc()\<close> returns (a pointer, possibly nil), if it has that method. The nil value
  implements none.\<close>

record 'w service =
  svc_id :: nat
  as_grpc :: "nat option option"
  as_unary :: "'w TripleUnaryService option"
  as_reflect :: bool

section \<open>The generic codec\<close>

text \<open>\<open>Unmarshal_wrapper\<close> is the protobuf codec's \<open>Unmarshal\<close> into a
  \<open>TripleRequestWrapper\<close>, of which only \<open>Args\<close> is read; \<open>hessian_Decode\<close> is a
  Hessian decoder over one argument.\<close>

record codec_env =
  Unmarshal_wrapper :: "bytes \<Rightarrow> goerror + bytes list"
  hessian_Decode :: "bytes \<Rightarrow> goval \<times> goerror option"
  err_text :: "goerror \<Rightarrow> string"

primrec unmarshal_args :: "codec_env \<Rightarrow> bytes list \<Rightarrow> goval list \<Rightarrow> goval list option \<times> goerror option" where
  "unmarshal_args env [] result = (Some result, None)"
| "unmarshal_args env (value # rest) result =
     (case hessian_Decode env value of
        (val, Some err) \<Rightarrow> (None, Some err)
      | (val, None) \<Rightarrow> unmarshal_args env rest (result @ [val]))"

definition UnmarshalRequest :: "codec_env \<Rightarrow> bytes \<Rightarrow> goval list option \<times> goerror option" where
  "UnmarshalRequest env data =
     (case Unmarshal_wrapper env data of
        Inl err \<Rightarrow> (None, Some err)
      | Inr wrapperArgs \<Rightarrow> unmarshal_args env wrapperArgs [])"

section \<open>The handler of a unary service\<close>

text \<open>\<open>reflect.ValueOf(v).Elem().Interface()\<close>: the object behind a pointer. \<open>Elem\<close> panics
  on a value that is no pointer, \<open>Interface\<close> on the zero \<open>Value\<close> behind a nil one.\<close>

fun elem_interface :: "goval \<Rightarrow> ('w hworld, goval) go" where
  "elem_interface (VPtr p) =
     go_bind (go_gets heap) (\<lambda>h. case h p of None \<Rightarrow> go_panic ReflectZeroValue | Some v \<Rightarrow> go_return v)"
| "elem_interface _ = go_panic ReflectBadKind"

primrec load_args :: "goval list \<Rightarrow> goval list \<Rightarrow> ('w hworld, goval list) go" where
  "load_args [] args = go_return args"
| "load_args (v # reqParam) args =
     go_bind (elem_interface v) (\<lambda>tempParamObj. load_args reqParam (args @ [tempParamObj]))"

definition method_name_key :: ctxkey where
  "method_name_key = StringKey ''XXX_TRIPLE_GO_METHOD_NAME''"

definition generic_payload_key :: ctxkey where
  "generic_payload_key = StringKey ''XXX_TRIPLE_GO_GENERIC_PAYLOAD''"

definition string_of_bytes :: "bytes \<Rightarrow> string" where
  "string_of_bytes b = map (\<lambda>x. char_of (unat x)) b"

definition generic_unmarshal_error :: "codec_env \<Rightarrow> bytes \<Rightarrow> goerror \<Rightarrow> goerror" where
  "generic_unmarshal_error env payload err =
     PkgError (''unaryProcessor.processUnaryRPC: generic invoke with request '' @ string_of_bytes payload @
       '' unmarshal error = '' @ err_text env err)"

definition no_such_method_error :: "string \<Rightarrow> goerror" where
  "no_such_method_error methodName =
     PkgError (''method name '' @ methodName @ '' is not provided by service, please check if correct'')"

text \<open>The closure captures \<open>service\<close> and \<open>genericCodec\<close>; gRPC passes it the registered value
  \<open>srv\<close>, the request's context, the decoder and the interceptor.\<close>

definition InvokeWithArgs_Handler ::
    "codec_env \<Rightarrow> 'w TripleUnaryService \<Rightarrow> 'w service \<Rightarrow> Ctx \<Rightarrow> (goval \<Rightarrow> ('w hworld, goerror option) go)
     \<Rightarrow> 'i option \<Rightarrow> ('w hworld, goval \<times> goerror option) go" where
  "InvokeWithArgs_Handler env service srv ctx dec interceptor =
     go_bind (go_lift (assert_string (ctx_Value ctx method_name_key))) (\<lambda>methodName.
     let genericPayload = as_bytes (ctx_Value ctx generic_payload_key)
     in case as_unary srv of
          None \<Rightarrow> go_panic BadTypeAssertion
        | Some base \<Rightarrow>
            if methodName = ''$invoke'' \<and> genericPayload \<noteq> None then
              (case UnmarshalRequest env (the genericPayload) of
                 (args, Some err) \<Rightarrow>
                   go_return (VNil, Some (generic_unmarshal_error env (the genericPayload) err))
               | (args, None) \<Rightarrow> InvokeWithArgs base ctx methodName (case args of None \<Rightarrow> [] | Some vs \<Rightarrow> vs))
            else
              go_bind (GetReqParamsInterfaces service methodName) (\<lambda>(reqParam, ok).
                if \<not> ok then go_return (VNil, Some (no_such_method_error methodName))
                else go_bind (dec (VSlice reqParam)) (\<lambda>e.
                  if e \<noteq> None then go_return (VNil, e)
                  else go_bind (load_args reqParam []) (\<lambda>args.
                    InvokeWithArgs base ctx methodName args))))"

section \<open>Facts\<close>

text \<open>The loop of \<open>UnmarshalRequest\<close> against a specification: decode everything, the first
  error wins.\<close>

definition first_error :: "codec_env \<Rightarrow> bytes list \<Rightarrow> goerror option" where
  "first_error env vs =
     (case filter (\<lambda>v. snd (hessian_Decode env v) \<noteq> None) vs of [] \<Rightarrow> None | v # _ \<Rightarrow> snd (hessian_Decode env v))"

lemma unmarshal_args_spec:
  "unmarshal_args env vs acc =
     (case first_error env vs of
        None \<Rightarrow> (Some (acc @ map (\<lambda>v. fst (hessian_Decode env v)) vs), None)
      | Some e \<Rightarrow> (None, Some e))"
  by (induction vs arbitrary: acc) (auto simp: first_error_def split: prod.split option.split list.split)

lemma decode_encoded:
  assumes "\<forall>v \<in> set vals. hessian_Decode env (encode v) = (v, None)"
  shows "first_error env (map encode vals) = None"
    and "map ((\<lambda>v. fst (hessian_Decode env v)) \<circ> encode) vals = vals"
  using assms by (auto simp: first_error_def filter_empty_conv map_idI split: list.split)

text \<open>The objects behind a list of pointers, or the panic of the first that has none.\<close>

fun objects :: "(nat \<Rightarrow> goval option) \<Rightarrow> goval list \<Rightarrow> panic + goval list" where
  "objects h [] = Inr []"
| "objects h (VPtr p # vs) =
     (case h p of None \<Rightarrow> Inl ReflectZeroValue
      | Some x \<Rightarrow> (case objects h vs of Inl e \<Rightarrow> Inl e | Inr xs \<Rightarrow> Inr (x # xs)))"
| "objects h (v # vs) = Inl ReflectBadKind"

lemma load_args_objects:
  "load_args vs acc w =
     (case objects (heap w) vs of Inl e \<Rightarrow> Inl e | Inr xs \<Rightarrow> Inr (acc @ xs), w)"
  by (induction "heap w" vs arbitrary: acc rule: objects.induct)
    (simp_all add: go_bind_run split: option.split sum.split)

lemma objects_pointers [simp]: "map h ps = map Some xs \<Longrightarrow> objects h (map VPtr ps) = Inr xs"
  by (induction ps arbitrary: xs) auto

lemma UnmarshalRequest_some:
  "UnmarshalRequest env data = (args, None) \<Longrightarrow> \<exists>vs. args = Some vs"
  by (auto simp: UnmarshalRequest_def unmarshal_args_spec split: sum.splits option.splits)

lemma objects_Inr: "objects h vs = Inr xs \<Longrightarrow> v \<in> set vs \<Longrightarrow> \<exists>p x. v = VPtr p \<and> h p = Some x"
  by (induction h vs arbitrary: xs rule: objects.induct) (auto split: option.splits sum.splits)

lemma handler_generic:
  assumes "as_unary srv = Some base" "ctx_Value ctx method_name_key = VString ''$invoke''"
    "ctx_Value ctx generic_payload_key = VBytes payload"
  shows "InvokeWithArgs_Handler env service srv ctx dec interceptor w =
    (case UnmarshalRequest env payload of
       (args, Some e) \<Rightarrow> (Inr (VNil, Some (generic_unmarshal_error env payload e)), w)
     | (args, None) \<Rightarrow> InvokeWithArgs base ctx ''$invoke'' (the args) w)"
  using assms
  by (auto simp: InvokeWithArgs_Handler_def split: prod.split option.split dest: UnmarshalRequest_some)

lemma handler_plain:
  assumes "as_unary srv = Some base" "ctx_Value ctx method_name_key = VString m"
    "m \<noteq> ''$invoke'' \<or> as_bytes (ctx_Value ctx generic_payload_key) = None"
  shows "InvokeWithArgs_Handler env service srv ctx dec interceptor w =
    (case GetReqParamsInterfaces service m w of
       (Inl p, w1) \<Rightarrow> (Inl p, w1)
     | (Inr (ps, ok), w1) \<Rightarrow>
         if \<not> ok then (Inr (VNil, Some (no_such_method_error m)), w1)
         else (case dec (VSlice ps) w1 of
            (Inl p, w2) \<Rightarrow> (Inl p, w2)
          | (Inr (Some e), w2) \<Rightarrow> (Inr (VNil, Some e), w2)
          | (Inr None, w2) \<Rightarrow>
              (case objects (heap w2) ps of
                 Inl p \<Rightarrow> (Inl p, w2)
               | Inr args \<Rightarrow> InvokeWithArgs base ctx m args w2)))"
  using assms
  by (auto simp: InvokeWithArgs_Handler_def go_bind_run load_args_objects
      split: prod.split sum.split option.split)

section \<open>Properties\<close>

text \<open>Decoding a generic request. The whole request decodes exactly when the wrapper and every
  argument do, and then yields one value per argument, in order; otherwise it is the wrapper's error
  or that of the first argument that fails, and no values. In particular what a client encodes
  argument by argument comes back unchanged.\<close>

theorem unmarshal_request_spec:
  "(case Unmarshal_wrapper env data of
      Inl e \<Rightarrow> UnmarshalRequest env data = (None, Some e)
    | Inr vs \<Rightarrow> UnmarshalRequest env data =
        (case first_error env vs of
           None \<Rightarrow> (Some (map (\<lambda>v. fst (hessian_Decode env v)) vs), None)
         | Some e \<Rightarrow> (None, Some e))) \<and>
   (Unmarshal_wrapper env (wrap (map encode vals)) = Inr (map encode vals) \<longrightarrow>
    (\<forall>v \<in> set vals. hessian_Decode env (encode v) = (v, None)) \<longrightarrow>
    UnmarshalRequest env (wrap (map encode vals)) = (Some vals, None))"
  by (auto simp: UnmarshalRequest_def unmarshal_args_spec decode_encoded split: sum.split option.split)

text \<open>C31: Arguments reach the service. For a call of a method that the service knows, the service is
  invoked exactly once, in the state the decoder left, with the objects that the decoder put behind
  the parameter pointers, in order. For a generic \<open>$invoke\<close> whose payload encodes some values,
  it is invoked with exactly those values and nothing is decoded from the message. The interceptor
  that gRPC passes plays no role in either.\<close>

theorem unary_handler_delivers:
  assumes "as_unary srv = Some base" "ctx_Value ctx method_name_key = VString m"
  shows "(m \<noteq> ''$invoke'' \<or> as_bytes (ctx_Value ctx generic_payload_key) = None \<longrightarrow> GetReqParamsInterfaces service m w = (Inr (map VPtr ps, True), w1) \<longrightarrow>
      dec (VSlice (map VPtr ps)) w1 = (Inr None, w2) \<longrightarrow> map (heap w2) ps = map Some vals \<longrightarrow>
      InvokeWithArgs_Handler env service srv ctx dec interceptor w = InvokeWithArgs base ctx m vals w2) \<and>
    (m = ''$invoke'' \<longrightarrow> ctx_Value ctx generic_payload_key = VBytes payload \<longrightarrow>
      Unmarshal_wrapper env payload = Inr (map encode vals) \<longrightarrow>
      (\<forall>v \<in> set vals. hessian_Decode env (encode v) = (v, None)) \<longrightarrow>
      InvokeWithArgs_Handler env service srv ctx dec interceptor w = InvokeWithArgs base ctx m vals w)"
proof -
  have "InvokeWithArgs_Handler env service srv ctx dec interceptor w = InvokeWithArgs base ctx m vals w2"
    if "m \<noteq> ''$invoke'' \<or> as_bytes (ctx_Value ctx generic_payload_key) = None"
      "GetReqParamsInterfaces service m w = (Inr (map VPtr ps, True), w1)"
      "dec (VSlice (map VPtr ps)) w1 = (Inr None, w2)" "map (heap w2) ps = map Some vals"
    using that(2-4) by (simp add: handler_plain [OF assms that(1)])
  moreover have "InvokeWithArgs_Handler env service srv ctx dec interceptor w = InvokeWithArgs base ctx m vals w"
    if "m = ''$invoke''" "ctx_Value ctx generic_payload_key = VBytes payload"
      "Unmarshal_wrapper env payload = Inr (map encode vals)"
      "\<forall>v \<in> set vals. hessian_Decode env (encode v) = (v, None)"
    using that(1,3,4) assms
    by (simp add: handler_generic [OF assms(1) _ that(2)] UnmarshalRequest_def unmarshal_args_spec decode_encoded)
  ultimately show ?thesis by blast
qed

text \<open>C32: Requests that fail do not reach the service. Without a method name in the context, or with a
  registered value that is no unary service, the handler panics. An undecodable generic payload, a
  method the service does not know, a decoding failure and a parameter that is no pointer to an
  object each end the request, with the error shown, in the state the failing step left.\<close>

theorem unary_handler_failures:
  assumes "as_unary srv = Some base" "ctx_Value ctx method_name_key = VString m"
  shows "((\<forall>s. ctx_Value c0 method_name_key \<noteq> VString s) \<longrightarrow>
      InvokeWithArgs_Handler env service srv c0 dec interceptor w = (Inl BadTypeAssertion, w)) \<and>
    InvokeWithArgs_Handler env service (srv\<lparr>as_unary := None\<rparr>) ctx dec interceptor w = (Inl BadTypeAssertion, w) \<and>
    (m = ''$invoke'' \<longrightarrow> ctx_Value ctx generic_payload_key = VBytes payload \<longrightarrow>
      snd (UnmarshalRequest env payload) = Some e \<longrightarrow>
      InvokeWithArgs_Handler env service srv ctx dec interceptor w =
        (Inr (VNil, Some (generic_unmarshal_error env payload e)), w)) \<and>
    (m \<noteq> ''$invoke'' \<or> as_bytes (ctx_Value ctx generic_payload_key) = None \<longrightarrow> GetReqParamsInterfaces service m w = (Inr (ps, False), w1) \<longrightarrow>
      InvokeWithArgs_Handler env service srv ctx dec interceptor w =
        (Inr (VNil, Some (no_such_method_error m)), w1)) \<and>
    (m \<noteq> ''$invoke'' \<or> as_bytes (ctx_Value ctx generic_payload_key) = None \<longrightarrow> GetReqParamsInterfaces service m w = (Inr (ps, True), w1) \<longrightarrow>
      (dec (VSlice ps) w1 = (Inr (Some e), w2) \<longrightarrow>
        InvokeWithArgs_Handler env service srv ctx dec interceptor w = (Inr (VNil, Some e), w2)) \<and>
      (dec (VSlice ps) w1 = (Inr None, w2) \<longrightarrow> (\<exists>v \<in> set ps. \<forall>p x. v = VPtr p \<longrightarrow> heap w2 p \<noteq> Some x) \<longrightarrow>
        (\<exists>bad. InvokeWithArgs_Handler env service srv ctx dec interceptor w = (Inl bad, w2))))"
proof -
  have "InvokeWithArgs_Handler env service srv c0 dec interceptor w = (Inl BadTypeAssertion, w)"
    if "\<forall>s. ctx_Value c0 method_name_key \<noteq> VString s"
    using that by (cases "ctx_Value c0 method_name_key") (simp_all add: InvokeWithArgs_Handler_def)
  moreover have "InvokeWithArgs_Handler env service (srv\<lparr>as_unary := None\<rparr>) ctx dec interceptor w =
      (Inl BadTypeAssertion, w)"
    using assms(2) by (simp add: InvokeWithArgs_Handler_def)
  moreover have "InvokeWithArgs_Handler env service srv ctx dec interceptor w =
        (Inr (VNil, Some (generic_unmarshal_error env payload e)), w)"
    if "m = ''$invoke''" "ctx_Value ctx generic_payload_key = VBytes payload"
      "snd (UnmarshalRequest env payload) = Some e"
    using that(1,3) assms
    by (cases "UnmarshalRequest env payload") (simp add: handler_generic [OF assms(1) _ that(2)])
  moreover have "InvokeWithArgs_Handler env service srv ctx dec interceptor w =
        (Inr (VNil, Some (no_such_method_error m)), w1)"
    if "m \<noteq> ''$invoke'' \<or> as_bytes (ctx_Value ctx generic_payload_key) = None"
      "GetReqParamsInterfaces service m w = (Inr (ps, False), w1)"
    using that(2) by (simp add: handler_plain [OF assms that(1)])
  moreover have "InvokeWithArgs_Handler env service srv ctx dec interceptor w = (Inr (VNil, Some e), w2)"
    if "m \<noteq> ''$invoke'' \<or> as_bytes (ctx_Value ctx generic_payload_key) = None"
      "GetReqParamsInterfaces service m w = (Inr (ps, True), w1)" "dec (VSlice ps) w1 = (Inr (Some e), w2)"
    using that(2,3) by (simp add: handler_plain [OF assms that(1)])
  moreover have "\<exists>bad. InvokeWithArgs_Handler env service srv ctx dec interceptor w = (Inl bad, w2)"
    if "m \<noteq> ''$invoke'' \<or> as_bytes (ctx_Value ctx generic_payload_key) = None"
      "GetReqParamsInterfaces service m w = (Inr (ps, True), w1)" "dec (VSlice ps) w1 = (Inr None, w2)"
      "\<exists>v \<in> set ps. \<forall>p x. v = VPtr p \<longrightarrow> heap w2 p \<noteq> Some x"
  proof -
    from that(4) obtain bad where "objects (heap w2) ps = Inl bad"
      by (cases "objects (heap w2) ps") (auto dest: objects_Inr)
    with that(2,3) show ?thesis by (simp add: handler_plain [OF assms that(1)])
  qed
  ultimately show ?thesis by blast
qed

section \<open>Concrete runs\<close>

text \<open>A service that echoes its arguments, knows the method \<open>Hi\<close> with two parameters and keeps
  nothing; a wire format in which a Hessian argument is one byte that must not be zero.\<close>

definition echo :: "nat TripleUnaryService" where
  "echo = \<lparr> InvokeWithArgs = (\<lambda>ctx m args. go_return (VSlice args, None)),
     GetReqParamsInterfaces = (\<lambda>m. go_return (if m = ''Hi'' then ([VPtr 1, VPtr 2], True) else ([], False))) \<rparr>"

definition echo_value :: "nat service" where
  "echo_value = \<lparr> svc_id = 3, as_grpc = None, as_unary = Some echo, as_reflect = False \<rparr>"

definition sample_codec_env :: codec_env where
  "sample_codec_env = \<lparr>
     Unmarshal_wrapper = (\<lambda>b. if b = [] then Inl (ForeignError 1) else Inr (map (\<lambda>x. [x]) b)),
     hessian_Decode = (\<lambda>b. case b of [x] \<Rightarrow> if x = 0 then (VNil, Some (ForeignError 2)) else (VObj (unat x), None)
       | _ \<Rightarrow> (VNil, Some (ForeignError 3))),
     err_text = (\<lambda>e. ''bad'') \<rparr>"

definition sample_dec :: "goval \<Rightarrow> (nat hworld, goerror option) go" where
  "sample_dec v = go_then (go_modify (\<lambda>w. w\<lparr>heap := (heap w)(1 \<mapsto> VObj 10, 2 \<mapsto> VObj 20)\<rparr>)) (go_return None)"

definition hworld0 :: "nat hworld" where
  "hworld0 = \<lparr> heap = Map.empty, user = 0 \<rparr>"

theorem unmarshal_request_spec_witness:
  "UnmarshalRequest sample_codec_env [5, 6] = (Some [VObj 5, VObj 6], None)"
  using unmarshal_request_spec [of sample_codec_env "[5, 0]" concat
      "\<lambda>v. case v of VObj n \<Rightarrow> [of_nat n] | _ \<Rightarrow> [0]" "[VObj 5, VObj 6]"]
  by (simp add: sample_codec_env_def)

theorem unary_handler_delivers_witness:
  "fst (InvokeWithArgs_Handler sample_codec_env echo echo_value
      (ctx_string method_name_key ''Hi'' Background) sample_dec (None :: unit option) hworld0) =
     Inr (VSlice [VObj 10, VObj 20], None)"
  using unary_handler_delivers [where srv = echo_value and base = echo and m = "''Hi''" and service = echo
      and ctx = "ctx_string method_name_key ''Hi'' Background" and ps = "[1, 2]" and w = hworld0 and ?w1.0 = hworld0
      and dec = sample_dec and vals = "[VObj 10, VObj 20]" and env = sample_codec_env and interceptor = "None :: unit option"
      and ?w2.0 = "hworld0\<lparr>heap := [1 \<mapsto> VObj 10, 2 \<mapsto> VObj 20]\<rparr>"]
  by (simp add: echo_value_def echo_def ctx_string_def WithValue_def sample_dec_def hworld0_def go_simps)

theorem unary_handler_failures_witness:
  "fst (InvokeWithArgs_Handler sample_codec_env echo echo_value
      (ctx_string method_name_key ''Nope'' Background) sample_dec (None :: unit option) hworld0) =
     Inr (VNil, Some (PkgError ''method name Nope is not provided by service, please check if correct''))"
  using unary_handler_failures [where srv = echo_value and base = echo and m = "''Nope''" and service = echo
      and ctx = "ctx_string method_name_key ''Nope'' Background" and ps = "[]" and w = hworld0 and ?w1.0 = hworld0
      and dec = sample_dec and env = sample_codec_env and interceptor = "None :: unit option"]
  by (simp add: echo_value_def echo_def ctx_string_def WithValue_def no_such_method_error_def)

end
