(* ===== verification/Server.thy ===== *)
theory Server
  imports Codec Jaeger Tls Unary_Handler
begin

text \<open>
  \<open>src/pkg/triple/dubbo3_server.go\<close>: the server object with \<open>Start\<close>, \<open>Stop\<close> and
  \<open>RefreshService\<close>, and the construction of the gRPC server.

  What the server calls outside the repository is recorded, call by call, in \<open>calls\<close>;
  gRPC servers and listeners are numbers. \<open>net.Listen\<close> is an argument, and may answer
  differently each time, since it is given the calls so far. Service descriptors are objects behind
  pointers: a generated service returns the address of one package variable, whose
  \<open>ServiceName\<close> the server overwrites, so they live in the store \<open>descs\<close>. The object
  \<open>t\<close> itself is the field \<open>self\<close> of the state. The \<open>sync.Map\<close> of services is an
  association list in the order in which \<open>Range\<close> visits it.
\<close>

section \<open>The server's state\<close>

datatype server_option =
    UnaryInterceptor Tracer
  | StreamInterceptor Tracer
  | MaxRecvMsgSize i64
  | MaxSendMsgSize i64
  | ProxyMode bool
  | Creds TransportCredentials
  | ForceServerCodec codec

text \<open>A method handler: the closure of \<open>createGrpcDesc\<close>, with the value it captured, or generated
  code.\<close>

datatype method_handler = UnaryServiceHandler nat | ForeignHandler nat

record service_stream = StreamDesc +
  stream_Handler :: method_handler

record ServiceDesc =
  ServiceName :: string
  HandlerType :: string
  Methods :: "(string \<times> method_handler) list"
  Streams :: "service_stream list"
  Metadata :: "string option"

datatype server_event =
    NewServer nat "server_option list"
  | RegisterService nat ServiceDesc nat
  | SetGRPCServer nat nat
  | Listen string "goerror + nat"
  | GoServe nat "nat option"
  | StopServer nat
  | CloseListener nat
  | Printf string string

record server_env =
  sv_tls :: tls_env
  sv_text :: "goerror \<Rightarrow> string"
  net_Listen :: "server_event list \<Rightarrow> string \<Rightarrow> goerror + nat"

record 'w TripleServer =
  lst :: "nat option"
  grpcServer :: "nat option"
  rpcServiceMap :: "(goval \<times> 'w service) list option"
  registeredKey :: "string \<Rightarrow> bool option"
  server_opt :: triple_option

record 'w sworld = cworld +
  descs :: "nat \<Rightarrow> ServiceDesc option"
  next_desc :: nat
  next_server :: nat
  calls :: "server_event list"
  self :: "'w TripleServer"

definition NewTripleServer ::
    "(goval \<times> 'w service) list option \<Rightarrow> triple_option option \<Rightarrow> 'w TripleServer" where
  "NewTripleServer serviceMap opt0 =
     (let o0 = (case opt0 of None \<Rightarrow> NewTripleOption [] | Some given \<Rightarrow> given)
      in \<lparr> lst = None, grpcServer = None, rpcServiceMap = serviceMap, registeredKey = Map.empty,
           server_opt = o0 \<rparr>)"

definition emit_ev :: "server_event \<Rightarrow> ('w sworld, unit) go" where
  "emit_ev e = go_modify (\<lambda>w. w\<lparr>calls := calls w @ [e]\<rparr>)"

definition on_self :: "('w TripleServer \<Rightarrow> 'w TripleServer) \<Rightarrow> ('w sworld, unit) go" where
  "on_self f = go_modify (\<lambda>w. w\<lparr>self := f (self w)\<rparr>)"

section \<open>Operations\<close>

definition TripleServer_Stop :: "('w sworld, unit) go" where
  "TripleServer_Stop =
     go_bind (go_gets (\<lambda>w. lst (self w))) (\<lambda>l.
     go_bind (go_deref l) (\<lambda>lis. emit_ev (CloseListener lis)))"

definition createGrpcDesc :: "string \<Rightarrow> nat \<Rightarrow> ServiceDesc" where
  "createGrpcDesc serviceName service =
     \<lparr> ServiceName = serviceName, HandlerType = ''common.TripleUnaryService'',
       Methods = [(''InvokeWithArgs'', UnaryServiceHandler service)], Streams = [], Metadata = None \<rparr>"

definition grpc_NewServer :: "server_option list \<Rightarrow> ('w sworld, nat) go" where
  "grpc_NewServer opts =
     (\<lambda>w. (Inr (next_server w),
        w\<lparr>next_server := Suc (next_server w), calls := calls w @ [NewServer (next_server w) opts]\<rparr>))"

definition newGrpcServerWithCodec :: "server_env \<Rightarrow> triple_option \<Rightarrow> ('w sworld, nat) go" where
  "newGrpcServerWithCodec env o0 =
     (let serverOpts0 = [];
          serverOpts1 =
            (if JaegerAddress o0 \<noteq> [] then
               let tracer = NewJaegerTracerDirect (JaegerServiceName o0) (JaegerAddress o0) (Logger o0)
               in serverOpts0 @ [UnaryInterceptor tracer, StreamInterceptor tracer]
             else serverOpts0);
          serverOpts2 =
            (if GRPCMaxServerRecvMsgSize o0 \<noteq> 0
             then serverOpts1 @ [MaxRecvMsgSize (GRPCMaxServerRecvMsgSize o0)] else serverOpts1);
          serverOpts3 =
            (if GRPCMaxCallSendMsgSize o0 \<noteq> 0
             then serverOpts2 @ [MaxSendMsgSize (GRPCMaxCallSendMsgSize o0)] else serverOpts2);
          serverOpts4 =
            (if ProxyModeEnable o0 then serverOpts3 @ [ProxyMode True] else serverOpts3)
      in go_bind
           (case getServerTlsCertificate (sv_tls env) o0 of
              (creds, Some err) \<Rightarrow>
                go_then (log_stmt (Logger o0)
                  (Errorf ''TripleClient.Start: TLS config err: %v'' [VError err]))
                (go_return serverOpts4)
            | (Some creds, None) \<Rightarrow> go_return (serverOpts4 @ [Creds creds])
            | (None, None) \<Rightarrow> go_return (serverOpts4 @ [Creds InsecureCredentials]))
         (\<lambda>serverOpts5.
            if CodecType o0 = PBCodecName then grpc_NewServer serverOpts5
            else
              go_bind
                (if CodecType o0 = HessianCodecName then go_return (Some HessianCodec)
                 else if CodecType o0 = MsgPackCodecName then go_return (Some MsgPackCodec)
                 else go_bind (go_gets (GetTripleCodec (CodecType o0))) (\<lambda>(innerCodec, err).
                   go_then (go_when (err \<noteq> None)
                     (emit_ev (Printf ''TripleServer.Start: serialization %s not supported'' (CodecType o0))))
                   (go_return innerCodec)))
              (\<lambda>innerCodec.
                 grpc_NewServer (serverOpts5 @ [ForceServerCodec
                   (PBWrapperTwoWayCodec (CodecType o0) innerCodec ProtobufCodec)]))))"

text \<open>The body of the \<open>Range\<close> loops of \<open>Start\<close> and \<open>RefreshService\<close>, from the type
  assertion on. A unary service gets a new descriptor each time.\<close>

definition register_value :: "nat \<Rightarrow> goval \<Rightarrow> 'w service \<Rightarrow> ('w sworld, unit) go" where
  "register_value sid key value =
     go_then
       (case as_grpc value of
          Some desc \<Rightarrow>
            go_bind (go_lift (assert_string key)) (\<lambda>k.
            go_bind (go_deref desc) (\<lambda>p.
            go_bind (go_gets (\<lambda>w. descs w p)) (\<lambda>d0.
            go_bind (go_deref d0) (\<lambda>d.
            go_then (go_modify (\<lambda>w. w\<lparr>descs := (descs w)(p \<mapsto> d\<lparr>ServiceName := k\<rparr>)\<rparr>))
            (go_bind (go_gets (\<lambda>w. the (descs w p))) (\<lambda>d'.
               emit_ev (RegisterService sid d' (svc_id value))))))))
        | None \<Rightarrow>
            go_bind (go_lift (assert_string key)) (\<lambda>k.
            case as_unary value of
              None \<Rightarrow> go_panic BadTypeAssertion
            | Some _ \<Rightarrow>
                go_bind (go_gets next_desc) (\<lambda>p.
                go_then (go_modify (\<lambda>w. w\<lparr>descs := (descs w)(p \<mapsto> createGrpcDesc k (svc_id value)),
                  next_desc := Suc p\<rparr>))
                (go_bind (go_gets (\<lambda>w. the (descs w p))) (\<lambda>d'.
                   emit_ev (RegisterService sid d' (svc_id value)))))))
       (go_when (key = VString ''grpc.reflection.v1alpha.ServerReflection'')
         (if as_grpc value \<noteq> None \<and> as_reflect value
          then emit_ev (SetGRPCServer (svc_id value) sid) else go_panic BadTypeAssertion))"

definition TripleServer_Start :: "server_env \<Rightarrow> ('w sworld, unit) go" where
  "TripleServer_Start env =
     go_bind (go_gets (\<lambda>w. server_opt (self w))) (\<lambda>o0.
     go_bind (go_gets (\<lambda>w. net_Listen env (calls w) (Location o0))) (\<lambda>r.
     go_then (emit_ev (Listen (Location o0) r))
     (case r of
        Inl err \<Rightarrow> go_panic (ExplicitPanic (sv_text env err))
      | Inr lis \<Rightarrow>
          go_bind (newGrpcServerWithCodec env o0) (\<lambda>sid.
          go_bind (go_gets (\<lambda>w. rpcServiceMap (self w))) (\<lambda>m0.
          go_bind (go_deref m0) (\<lambda>m.
          go_then (go_each (\<lambda>(key, value).
              go_bind (go_lift (assert_string key)) (\<lambda>k.
              go_then (on_self (\<lambda>t. t\<lparr>registeredKey := (registeredKey t)(k \<mapsto> True)\<rparr>))
              (register_value sid key value))) m)
          (go_then (emit_ev (GoServe sid (Some lis)))
          (go_then (on_self (\<lambda>t. t\<lparr>lst := Some lis\<rparr>))
          (on_self (\<lambda>t. t\<lparr>grpcServer := Some sid\<rparr>))))))))))"

definition TripleServer_RefreshService :: "server_env \<Rightarrow> ('w sworld, unit) go" where
  "TripleServer_RefreshService env =
     go_bind (go_gets (\<lambda>w. server_opt (self w))) (\<lambda>o0.
     go_then (log_stmt (Logger o0) (Debugf ''TripleServer.Refresh: call refresh services'' []))
     (go_bind (newGrpcServerWithCodec env o0) (\<lambda>sid.
      go_bind (go_gets (\<lambda>w. rpcServiceMap (self w))) (\<lambda>m0.
      go_bind (go_deref m0) (\<lambda>m.
      go_then (go_each (\<lambda>(key, value). register_value sid key value) m)
      (go_bind (go_gets (\<lambda>w. grpcServer (self w))) (\<lambda>old0.
       go_bind (go_deref old0) (\<lambda>old.
       go_then (emit_ev (StopServer old))
       (go_bind (go_gets (\<lambda>w. lst (self w))) (\<lambda>l0.
        go_bind (go_deref l0) (\<lambda>l.
        go_then (emit_ev (CloseListener l))
        (go_bind (go_gets (\<lambda>w. net_Listen env (calls w) (Location o0))) (\<lambda>r.
         go_then (emit_ev (Listen (Location o0) r))
         (let lis = (case r of Inl _ \<Rightarrow> None | Inr x \<Rightarrow> Some x)
          in go_then (emit_ev (GoServe sid lis))
            (go_then (on_self (\<lambda>t. t\<lparr>grpcServer := Some sid\<rparr>))
            (on_self (\<lambda>t. t\<lparr>lst := lis\<rparr>)))))))))))))))))"

section \<open>Facts: building the gRPC server\<close>

lemma emit_ev_run [simp, run_simps]: "emit_ev e w = (Inr (), w\<lparr>calls := calls w @ [e]\<rparr>)"
  by (simp add: emit_ev_def)

lemma on_self_run [simp, run_simps]: "on_self f w = (Inr (), w\<lparr>self := f (self w)\<rparr>)"
  by (simp add: on_self_def)

lemma grpc_NewServer_run [simp, run_simps]:
  "grpc_NewServer opts w = (Inr (next_server w),
     w\<lparr>next_server := Suc (next_server w), calls := calls w @ [NewServer (next_server w) opts]\<rparr>)"
  by (simp add: grpc_NewServer_def)

text \<open>The options of the server: those the configuration asks for, the credentials, the codec.\<close>

definition base_server_opts :: "triple_option \<Rightarrow> server_option list" where
  "base_server_opts o0 =
     (if JaegerAddress o0 \<noteq> []
      then [UnaryInterceptor (NewJaegerTracerDirect (JaegerServiceName o0) (JaegerAddress o0) (Logger o0)),
            StreamInterceptor (NewJaegerTracerDirect (JaegerServiceName o0) (JaegerAddress o0) (Logger o0))]
      else []) @
     (if GRPCMaxServerRecvMsgSize o0 \<noteq> 0 then [MaxRecvMsgSize (GRPCMaxServerRecvMsgSize o0)] else []) @
     (if GRPCMaxCallSendMsgSize o0 \<noteq> 0 then [MaxSendMsgSize (GRPCMaxCallSendMsgSize o0)] else []) @
     (if ProxyModeEnable o0 then [ProxyMode True] else [])"

definition creds_opts :: "creds_result \<Rightarrow> server_option list" where
  "creds_opts r = (case r of (_, Some err) \<Rightarrow> [] | (Some c, None) \<Rightarrow> [Creds c]
     | (None, None) \<Rightarrow> [Creds InsecureCredentials])"

definition server_inner_codec :: "CodecType \<Rightarrow> 'a cworld_scheme \<Rightarrow> codec option" where
  "server_inner_codec ct w =
     (if ct = HessianCodecName then Some HessianCodec else if ct = MsgPackCodecName then Some MsgPackCodec
      else fst (GetTripleCodec ct w))"

definition codec_opts :: "CodecType \<Rightarrow> 'a cworld_scheme \<Rightarrow> server_option list" where
  "codec_opts ct w = (if ct = PBCodecName then []
     else [ForceServerCodec (PBWrapperTwoWayCodec ct (server_inner_codec ct w) ProtobufCodec)])"

definition server_opts :: "server_env \<Rightarrow> triple_option \<Rightarrow> 'a cworld_scheme \<Rightarrow> server_option list" where
  "server_opts env o0 w = base_server_opts o0 @ creds_opts (getServerTlsCertificate (sv_tls env) o0) @
     codec_opts (CodecType o0) w"

definition unsupported :: "CodecType \<Rightarrow> 'a cworld_scheme \<Rightarrow> bool" where
  "unsupported ct w \<longleftrightarrow> ct \<notin> {PBCodecName, HessianCodecName, MsgPackCodecName} \<and> codecFactoryMap w ct = None"

definition codec_notice :: "CodecType \<Rightarrow> 'a cworld_scheme \<Rightarrow> server_event list" where
  "codec_notice ct w =
     (if unsupported ct w then [Printf ''TripleServer.Start: serialization %s not supported'' ct] else [])"

definition tls_logs :: "server_env \<Rightarrow> triple_option \<Rightarrow> (logger \<times> log_call) list" where
  "tls_logs env o0 =
     (case snd (getServerTlsCertificate (sv_tls env) o0) of
        None \<Rightarrow> []
      | Some err \<Rightarrow> [(the (log_sink (Logger o0)), Errorf ''TripleClient.Start: TLS config err: %v'' [VError err])])"

text \<open>What building the server leaves behind.\<close>

definition built :: "server_env \<Rightarrow> triple_option \<Rightarrow> 'w sworld \<Rightarrow> 'w sworld" where
  "built env o0 w =
     w\<lparr>logs := logs w @ tls_logs env o0, next_server := Suc (next_server w),
       calls := calls w @ codec_notice (CodecType o0) w @ [NewServer (next_server w) (server_opts env o0 w)]\<rparr>"

lemma built_fields [simp]:
  "self (built env o0 w) = self w" "descs (built env o0 w) = descs w" "next_desc (built env o0 w) = next_desc w"
  "next_server (built env o0 w) = Suc (next_server w)"
  "calls (built env o0 w) = calls w @ codec_notice (CodecType o0) w @ [NewServer (next_server w) (server_opts env o0 w)]"
  "logs (built env o0 w) = logs w @ tls_logs env o0"
  by (simp_all add: built_def)

definition tls_step :: "server_env \<Rightarrow> triple_option \<Rightarrow> server_option list \<Rightarrow> ('w sworld, server_option list) go" where
  "tls_step env o0 opts =
     (case getServerTlsCertificate (sv_tls env) o0 of
        (creds, Some err) \<Rightarrow>
          go_then (log_stmt (Logger o0) (Errorf ''TripleClient.Start: TLS config err: %v'' [VError err]))
          (go_return opts)
      | (Some creds, None) \<Rightarrow> go_return (opts @ [Creds creds])
      | (None, None) \<Rightarrow> go_return (opts @ [Creds InsecureCredentials]))"

lemma tls_step_run:
  assumes "snd (getServerTlsCertificate (sv_tls env) o0) \<noteq> None \<longrightarrow> usable (Logger o0)"
  shows "tls_step env o0 opts w =
    (Inr (opts @ creds_opts (getServerTlsCertificate (sv_tls env) o0)), w\<lparr>logs := logs w @ tls_logs env o0\<rparr>)"
  using assms
  by (cases "getServerTlsCertificate (sv_tls env) o0")
    (auto simp: tls_step_def creds_opts_def tls_logs_def usable_sink log_stmt_usable go_then_run split: option.split)

lemma newGrpcServerWithCodec_run:
  assumes "snd (getServerTlsCertificate (sv_tls env) o0) \<noteq> None \<longrightarrow> usable (Logger o0)"
  shows "newGrpcServerWithCodec env o0 w = (Inr (next_server w), built env o0 w)"
proof -
  have base: "(let serverOpts0 = [];
          serverOpts1 = (if JaegerAddress o0 \<noteq> [] then
               let tracer = NewJaegerTracerDirect (JaegerServiceName o0) (JaegerAddress o0) (Logger o0)
               in serverOpts0 @ [UnaryInterceptor tracer, StreamInterceptor tracer] else serverOpts0);
          serverOpts2 = (if GRPCMaxServerRecvMsgSize o0 \<noteq> 0
             then serverOpts1 @ [MaxRecvMsgSize (GRPCMaxServerRecvMsgSize o0)] else serverOpts1);
          serverOpts3 = (if GRPCMaxCallSendMsgSize o0 \<noteq> 0
             then serverOpts2 @ [MaxSendMsgSize (GRPCMaxCallSendMsgSize o0)] else serverOpts2);
          serverOpts4 = (if ProxyModeEnable o0 then serverOpts3 @ [ProxyMode True] else serverOpts3)
      in f serverOpts4) = f (base_server_opts o0)" for f :: "server_option list \<Rightarrow> ('w sworld, nat) go"
    by (simp add: base_server_opts_def Let_def)
  show ?thesis
    unfolding newGrpcServerWithCodec_def base tls_step_def [symmetric]
    by (simp add: tls_step_run [OF assms] built_def server_opts_def codec_opts_def codec_notice_def unsupported_def
        server_inner_codec_def GetTripleCodec_def go_simps split: option.split)
qed

lemma newGrpcServerWithCodec_panic:
  assumes "snd (getServerTlsCertificate (sv_tls env) o0) \<noteq> None" "\<not> usable (Logger o0)"
  shows "newGrpcServerWithCodec env o0 w = (Inl NilDereference, w)"
proof -
  have "log_sink (Logger o0) = None" using assms(2) by (auto simp: usable_sink)
  then have "tls_step env o0 opts w = (Inl NilDereference, w)" for opts and w :: "'a sworld"
    using assms(1) by (cases "getServerTlsCertificate (sv_tls env) o0")
      (auto simp: tls_step_def log_stmt_unusable go_then_run split: option.split)
  then show ?thesis
    unfolding newGrpcServerWithCodec_def tls_step_def [symmetric] Let_def by simp
qed

section \<open>Facts: registering the services\<close>

definition reflection_name :: string where
  "reflection_name = ''grpc.reflection.v1alpha.ServerReflection''"

text \<open>An entry of the service map that can be registered: its key is a string, its value a generated
  service with a descriptor or a unary service, and under the reflection name a generated service
  that accepts the server.\<close>

fun registrable :: "(nat \<Rightarrow> ServiceDesc option) \<Rightarrow> goval \<times> 'w service \<Rightarrow> bool" where
  "registrable ds (VString k, v) \<longleftrightarrow>
     (case as_grpc v of None \<Rightarrow> as_unary v \<noteq> None | Some None \<Rightarrow> False | Some (Some p) \<Rightarrow> ds p \<noteq> None) \<and>
     (k = reflection_name \<longrightarrow> as_grpc v \<noteq> None \<and> as_reflect v)"
| "registrable ds (_, v) \<longleftrightarrow> False"

lemma registrable_key: "registrable ds e \<Longrightarrow> \<exists>k v. e = (VString k, v)"
  by (cases "(ds, e)" rule: registrable.cases) auto

text \<open>The calls that register one entry on a server: its own descriptor (or a new one) under its own
  key.\<close>

fun key_string :: "goval \<Rightarrow> string" where
  "key_string (VString k) = k"
| "key_string _ = []"

definition entry_desc :: "(nat \<Rightarrow> ServiceDesc option) \<Rightarrow> goval \<times> 'w service \<Rightarrow> ServiceDesc" where
  "entry_desc ds e = (case e of (key, v) \<Rightarrow>
     (case as_grpc v of
        Some (Some p) \<Rightarrow> (the (ds p))\<lparr>ServiceName := key_string key\<rparr>
      | _ \<Rightarrow> createGrpcDesc (key_string key) (svc_id v)))"

definition registration :: "(nat \<Rightarrow> ServiceDesc option) \<Rightarrow> nat \<Rightarrow> goval \<times> 'w service \<Rightarrow> server_event list" where
  "registration ds sid e =
     RegisterService sid (entry_desc ds e) (svc_id (snd e)) #
     (if key_string (fst e) = reflection_name then [SetGRPCServer (svc_id (snd e)) sid] else [])"

definition descs_ok :: "'w sworld \<Rightarrow> bool" where
  "descs_ok w \<longleftrightarrow> (\<forall>p. descs w p \<noteq> None \<longrightarrow> p < next_desc w)"

text \<open>The descriptors that existed at the start, up to the names that registering overwrites.\<close>

definition renamed :: "(nat \<Rightarrow> ServiceDesc option) \<Rightarrow> 'w sworld \<Rightarrow> bool" where
  "renamed ds w \<longleftrightarrow> descs_ok w \<and>
     (\<forall>p d. ds p = Some d \<longrightarrow> (\<exists>n. descs w p = Some (d\<lparr>ServiceName := n\<rparr>)))"

lemma renamed_start: "descs_ok w \<Longrightarrow> renamed (descs w) w"
proof -
  assume "descs_ok w"
  moreover have "\<exists>n. d = d\<lparr>ServiceName := n\<rparr>" for d :: ServiceDesc
    by (rule exI [of _ "ServiceName d"]) simp
  ultimately show ?thesis by (simp add: renamed_def)
qed

definition store_entry :: "(nat \<Rightarrow> ServiceDesc option) \<Rightarrow> goval \<times> 'w service \<Rightarrow> 'w sworld \<Rightarrow> 'w sworld" where
  "store_entry ds e w =
     (case as_grpc (snd e) of
        Some (Some p) \<Rightarrow> w\<lparr>descs := (descs w)(p \<mapsto> entry_desc ds e)\<rparr>
      | _ \<Rightarrow> w\<lparr>descs := (descs w)(next_desc w \<mapsto> entry_desc ds e), next_desc := Suc (next_desc w)\<rparr>)"

definition after_entry ::
    "(nat \<Rightarrow> ServiceDesc option) \<Rightarrow> nat \<Rightarrow> goval \<times> 'w service \<Rightarrow> 'w sworld \<Rightarrow> 'w sworld" where
  "after_entry ds sid e w = (store_entry ds e w)\<lparr>calls := calls w @ registration ds sid e\<rparr>"

lemma renamed_entry:
  assumes "registrable ds e" "renamed ds w"
  shows "renamed ds (after_entry ds sid e w)"
proof -
  obtain k v where e: "e = (VString k, v)"
    using registrable_key [OF assms(1)] by blast
  show ?thesis
  proof (cases "as_grpc v")
    case None
    have "next_desc w \<noteq> p" if "ds p = Some d" for p d
      using assms(2) that by (fastforce simp: renamed_def descs_ok_def)
    with assms(2) None e show ?thesis
      by (auto simp: after_entry_def store_entry_def renamed_def descs_ok_def less_Suc_eq)
  next
    case (Some q)
    then obtain p d where p: "as_grpc v = Some (Some p)" "ds p = Some d"
      using assms(1) e by (cases q) auto
    have "p < next_desc w" using assms(2) p(2) by (fastforce simp: renamed_def descs_ok_def)
    with assms(2) p e show ?thesis
      by (auto simp: after_entry_def store_entry_def entry_desc_def renamed_def descs_ok_def)
  qed
qed

lemma register_value_run:
  assumes "registrable ds (key, v)" "renamed ds w"
  shows "register_value sid key v w = (Inr (), after_entry ds sid (key, v) w)"
proof -
  obtain k where k: "key = VString k" using assms(1) by (cases key) auto
  show ?thesis
  proof (cases "as_grpc v")
    case None
    then show ?thesis
      using assms(1) k
      by (auto simp: register_value_def after_entry_def store_entry_def registration_def entry_desc_def
          go_simps reflection_name_def)
  next
    case (Some q)
    then obtain p d where p: "as_grpc v = Some (Some p)" "ds p = Some d"
      using assms(1) k by (cases q) auto
    then obtain n where "descs w p = Some (d\<lparr>ServiceName := n\<rparr>)"
      using assms(2) by (auto simp: renamed_def)
    with p assms(1) k show ?thesis
      by (auto simp: register_value_def after_entry_def store_entry_def registration_def entry_desc_def
          go_simps reflection_name_def)
  qed
qed

lemma after_entry_fields [simp]:
  "calls (after_entry ds sid e w) = calls w @ registration ds sid e"
  "self (after_entry ds sid e w) = self w" "next_server (after_entry ds sid e w) = next_server w"
  "logs (after_entry ds sid e w) = logs w"
  by (simp_all add: after_entry_def store_entry_def split: option.split)

lemma fold_after_entry [simp]:
  "calls (fold (after_entry ds sid) m w) = calls w @ concat (map (registration ds sid) m)"
  "self (fold (after_entry ds sid) m w) = self w"
  "next_server (fold (after_entry ds sid) m w) = next_server w"
  "logs (fold (after_entry ds sid) m w) = logs w"
  by (induction m arbitrary: w) simp_all

lemma register_all_run:
  assumes "\<forall>e \<in> set m. registrable ds e" "renamed ds w"
  shows "go_each (\<lambda>(key, value). register_value sid key value) m w = (Inr (), fold (after_entry ds sid) m w)"
proof -
  have step: "(\<lambda>(key, value). register_value sid key value) e s = (Inr (), after_entry ds sid e s) \<and>
      renamed ds (after_entry ds sid e s)" if "e \<in> set m" "renamed ds s" for e s
    using that assms(1) register_value_run [of ds "fst e" "snd e" s sid] renamed_entry [of ds e s sid]
    by (simp add: case_prod_beta)
  show ?thesis
    by (rule go_each_fold_inv [where I = "renamed ds", THEN conjunct1]) (simp_all add: step assms(2))
qed

text \<open>The loop of \<open>Start\<close> also notes the keys.\<close>

definition note_key :: "goval \<times> 'w service \<Rightarrow> 'w sworld \<Rightarrow> 'w sworld" where
  "note_key e w = w\<lparr>self := (self w)\<lparr>registeredKey := (registeredKey (self w))(key_string (fst e) \<mapsto> True)\<rparr>\<rparr>"

definition start_entry ::
    "(nat \<Rightarrow> ServiceDesc option) \<Rightarrow> nat \<Rightarrow> goval \<times> 'w service \<Rightarrow> 'w sworld \<Rightarrow> 'w sworld" where
  "start_entry ds sid e w = after_entry ds sid e (note_key e w)"

definition noted_keys :: "(goval \<times> 'w service) list \<Rightarrow> (string \<Rightarrow> bool option) \<Rightarrow> string \<Rightarrow> bool option" where
  "noted_keys m r = (\<lambda>k. if k \<in> key_string ` fst ` set m then Some True else r k)"

lemma fold_start_entry [simp]:
  "calls (fold (start_entry ds sid) m w) = calls w @ concat (map (registration ds sid) m)"
  "next_server (fold (start_entry ds sid) m w) = next_server w"
  "logs (fold (start_entry ds sid) m w) = logs w"
  "self (fold (start_entry ds sid) m w) = (self w)\<lparr>registeredKey := noted_keys m (registeredKey (self w))\<rparr>"
  by (induction m arbitrary: w)
    (auto simp: start_entry_def note_key_def noted_keys_def fun_eq_iff intro!: arg_cong [where f = "\<lambda>r. _\<lparr>registeredKey := r\<rparr>"])

lemma start_all_run:
  assumes "\<forall>e \<in> set m. registrable ds e" "renamed ds w"
  shows "go_each (\<lambda>(key, value).
      go_bind (go_lift (assert_string key)) (\<lambda>k.
      go_then (on_self (\<lambda>t. t\<lparr>registeredKey := (registeredKey t)(k \<mapsto> True)\<rparr>))
      (register_value sid key value))) m w = (Inr (), fold (start_entry ds sid) m w)"
proof -
  have keep: "renamed ds (note_key e s) = renamed ds s" for e and s :: "'a sworld"
    by (simp add: renamed_def descs_ok_def note_key_def)
  have step: "(\<lambda>(key, value).
      go_bind (go_lift (assert_string key)) (\<lambda>k.
      go_then (on_self (\<lambda>t. t\<lparr>registeredKey := (registeredKey t)(k \<mapsto> True)\<rparr>))
      (register_value sid key value))) e s = (Inr (), start_entry ds sid e s) \<and> renamed ds (start_entry ds sid e s)"
    if mem: "e \<in> set m" and ren: "renamed ds s" for e s
  proof -
    obtain k v where e: "e = (VString k, v)"
      using registrable_key mem assms(1) by blast
    have reg: "registrable ds e" using mem assms(1) by blast
    have ren': "renamed ds (note_key e s)" using ren by (simp add: keep)
    have "register_value sid (VString k) v (note_key e s) = (Inr (), start_entry ds sid e s)"
      unfolding start_entry_def using register_value_run [OF reg [unfolded e] ren'] by (simp add: e)
    moreover have "renamed ds (start_entry ds sid e s)"
      unfolding start_entry_def by (rule renamed_entry [OF reg ren'])
    ultimately show ?thesis by (simp add: e note_key_def go_simps)
  qed
  show ?thesis
    by (rule go_each_fold_inv [where I = "renamed ds", THEN conjunct1]) (simp_all only: step assms(2))
qed

lemma RefreshService_run:
  fixes w :: "'w sworld"
  defines "o0 \<equiv> server_opt (self w)" and "sid \<equiv> next_server w"
  assumes "log_sink (Logger o0) = Some k" "rpcServiceMap (self w) = Some m"
    and "descs_ok w" "\<forall>e \<in> set m. registrable (descs w) e"
    and "grpcServer (self w) = Some old" "lst (self w) = Some l"
    and "cs = calls w @ codec_notice (CodecType o0) w @ [NewServer sid (server_opts env o0 w)] @
      concat (map (registration (descs w) sid) m) @ [StopServer old, CloseListener l]"
    and "r = net_Listen env cs (Location o0)"
  shows "fst (TripleServer_RefreshService env w) = Inr ()"
    and "calls (snd (TripleServer_RefreshService env w)) =
      cs @ [Listen (Location o0) r, GoServe sid (case r of Inl _ \<Rightarrow> None | Inr x \<Rightarrow> Some x)]"
    and "self (snd (TripleServer_RefreshService env w)) =
      (self w)\<lparr>grpcServer := Some sid, lst := (case r of Inl _ \<Rightarrow> None | Inr x \<Rightarrow> Some x)\<rparr>"
    and "next_server (snd (TripleServer_RefreshService env w)) = Suc sid"
proof -
  let ?w1 = "w\<lparr>logs := logs w @ [(k, Debugf ''TripleServer.Refresh: call refresh services'' [])]\<rparr>"
  have tls: "snd (getServerTlsCertificate (sv_tls env) o0) \<noteq> None \<longrightarrow> usable (Logger o0)"
    using assms(3) by (auto simp: usable_sink)
  have same: "server_opts env o0 ?w1 = server_opts env o0 w" "codec_notice ct ?w1 = codec_notice ct w" for ct
    by (simp_all add: server_opts_def codec_opts_def server_inner_codec_def GetTripleCodec_def codec_notice_def
        unsupported_def)
  have "renamed (descs w) (built env o0 ?w1)"
    using renamed_start [OF assms(5)] by (simp add: renamed_def descs_ok_def)
  note loop = register_all_run [OF assms(6) this, of sid]
  have "TripleServer_RefreshService env w = (Inr (),
      (fold (after_entry (descs w) sid) m (built env o0 ?w1))\<lparr>
         calls := cs @ [Listen (Location o0) r, GoServe sid (case r of Inl _ \<Rightarrow> None | Inr x \<Rightarrow> Some x)],
         self := (self w)\<lparr>grpcServer := Some sid, lst := (case r of Inl _ \<Rightarrow> None | Inr x \<Rightarrow> Some x)\<rparr>\<rparr>)"
    using assms(3,4,7-10) tls loop same
    by (simp add: TripleServer_RefreshService_def go_simps log_stmt_usable newGrpcServerWithCodec_run o0_def [symmetric]
        sid_def Let_def)
  then show "fst (TripleServer_RefreshService env w) = Inr ()"
    "calls (snd (TripleServer_RefreshService env w)) =
      cs @ [Listen (Location o0) r, GoServe sid (case r of Inl _ \<Rightarrow> None | Inr x \<Rightarrow> Some x)]"
    "self (snd (TripleServer_RefreshService env w)) =
      (self w)\<lparr>grpcServer := Some sid, lst := (case r of Inl _ \<Rightarrow> None | Inr x \<Rightarrow> Some x)\<rparr>"
    "next_server (snd (TripleServer_RefreshService env w)) = Suc sid"
    by (simp_all add: sid_def)
qed

lemma Start_run:
  fixes w :: "'w sworld"
  defines "o0 \<equiv> server_opt (self w)" and "sid \<equiv> next_server w"
  assumes "rpcServiceMap (self w) = Some m" "descs_ok w" "\<forall>e \<in> set m. registrable (descs w) e"
    and "snd (getServerTlsCertificate (sv_tls env) o0) \<noteq> None \<longrightarrow> usable (Logger o0)"
    and "net_Listen env (calls w) (Location o0) = Inr lis"
  shows "fst (TripleServer_Start env w) = Inr ()"
    and "calls (snd (TripleServer_Start env w)) = calls w @ [Listen (Location o0) (Inr lis)] @
          codec_notice (CodecType o0) w @ [NewServer sid (server_opts env o0 w)] @
          concat (map (registration (descs w) sid) m) @ [GoServe sid (Some lis)]"
    and "self (snd (TripleServer_Start env w)) = (self w)\<lparr>lst := Some lis, grpcServer := Some sid,
          registeredKey := noted_keys m (registeredKey (self w))\<rparr>"
proof -
  let ?w1 = "w\<lparr>calls := calls w @ [Listen (Location o0) (Inr lis)]\<rparr>"
  have same: "server_opts env o0 ?w1 = server_opts env o0 w" "codec_notice ct ?w1 = codec_notice ct w" for ct
    by (simp_all add: server_opts_def codec_opts_def server_inner_codec_def GetTripleCodec_def codec_notice_def
        unsupported_def)
  have "renamed (descs w) (built env o0 ?w1)"
    using renamed_start [OF assms(4)] by (simp add: renamed_def descs_ok_def)
  note loop = start_all_run [OF assms(5) this, of sid]
  show "fst (TripleServer_Start env w) = Inr ()"
    using assms(3,6,7) loop same
    by (simp add: TripleServer_Start_def go_simps newGrpcServerWithCodec_run o0_def [symmetric] sid_def)
  show "calls (snd (TripleServer_Start env w)) = calls w @ [Listen (Location o0) (Inr lis)] @
          codec_notice (CodecType o0) w @ [NewServer sid (server_opts env o0 w)] @
          concat (map (registration (descs w) sid) m) @ [GoServe sid (Some lis)]"
    using assms(3,6,7) loop same
    by (simp add: TripleServer_Start_def go_simps newGrpcServerWithCodec_run o0_def [symmetric] sid_def)
  show "self (snd (TripleServer_Start env w)) = (self w)\<lparr>lst := Some lis, grpcServer := Some sid,
          registeredKey := noted_keys m (registeredKey (self w))\<rparr>"
    using assms(3,6,7) loop same
    by (simp add: TripleServer_Start_def go_simps newGrpcServerWithCodec_run o0_def [symmetric] sid_def)
qed

section \<open>Properties\<close>

text \<open>C7: Starting a server. Once the address could be bound and if every entry of the service map can
  be registered, \<open>Start\<close> returns; it has created one gRPC server with exactly the configured
  options, registered every entry of the map on it, in order, each under its own key although services
  may share one descriptor object that is renamed again and again, and only then started to serve on
  the listener; the keys are noted. When the address cannot be bound it panics before anything else
  is done, and the server object is unchanged.\<close>

theorem start_registers_every_key:
  fixes w :: "'w sworld"
  defines "o0 \<equiv> server_opt (self w)" and "sid \<equiv> next_server w"
  assumes "rpcServiceMap (self w) = Some m" "descs_ok w" "\<forall>e \<in> set m. registrable (descs w) e"
    and "snd (getServerTlsCertificate (sv_tls env) o0) \<noteq> None \<longrightarrow> usable (Logger o0)"
  shows "case net_Listen env (calls w) (Location o0) of
      Inl err \<Rightarrow> TripleServer_Start env w =
        (Inl (ExplicitPanic (sv_text env err)), w\<lparr>calls := calls w @ [Listen (Location o0) (Inl err)]\<rparr>)
    | Inr lis \<Rightarrow>
        fst (TripleServer_Start env w) = Inr () \<and>
        calls (snd (TripleServer_Start env w)) = calls w @ [Listen (Location o0) (Inr lis)] @
          codec_notice (CodecType o0) w @ [NewServer sid (server_opts env o0 w)] @
          concat (map (registration (descs w) sid) m) @ [GoServe sid (Some lis)] \<and>
        self (snd (TripleServer_Start env w)) = (self w)\<lparr>lst := Some lis, grpcServer := Some sid,
          registeredKey := noted_keys m (registeredKey (self w))\<rparr>"
proof (cases "net_Listen env (calls w) (Location o0)")
  case (Inl err)
  then show ?thesis by (simp add: TripleServer_Start_def go_simps o0_def)
next
  case (Inr lis)
  then show ?thesis
    using Start_run [OF assms(3-5) assms(6) [unfolded o0_def], of lis] by (simp add: o0_def sid_def)
qed

text \<open>C8: Refreshing a running server. A new gRPC server with the configured options is created and
  every entry of the service map, as it is now, is registered on it under its own key; only then is the
  old server stopped, its listener closed, the address bound again and the new server started, in this
  order. The server object holds the new server and listener afterwards; the noted keys stay those of
  \<open>Start\<close>.\<close>

theorem refresh_replaces_server:
  fixes w :: "'w sworld"
  defines "o0 \<equiv> server_opt (self w)" and "sid \<equiv> next_server w"
  assumes "usable (Logger o0)" "rpcServiceMap (self w) = Some m"
    and "descs_ok w" "\<forall>e \<in> set m. registrable (descs w) e"
    and "grpcServer (self w) = Some old" "lst (self w) = Some l"
    and "cs = calls w @ codec_notice (CodecType o0) w @ [NewServer sid (server_opts env o0 w)] @
      concat (map (registration (descs w) sid) m) @ [StopServer old, CloseListener l]"
    and "net_Listen env cs (Location o0) = Inr lis"
  shows "fst (TripleServer_RefreshService env w) = Inr () \<and>
    calls (snd (TripleServer_RefreshService env w)) =
      cs @ [Listen (Location o0) (Inr lis), GoServe sid (Some lis)] \<and>
    self (snd (TripleServer_RefreshService env w)) = (self w)\<lparr>grpcServer := Some sid, lst := Some lis\<rparr>"
proof -
  obtain k where k: "log_sink (Logger o0) = Some k" using assms(3) by (auto simp: usable_sink)
  show ?thesis
    using RefreshService_run [OF k [unfolded o0_def] assms(4-8) assms(9) [unfolded o0_def sid_def] refl] assms(10)
    by (simp add: o0_def sid_def)
qed

text \<open>When the address cannot be bound again during a refresh, nobody is told: \<open>RefreshService\<close>
  returns normally, with the old server stopped and its listener closed, the new one started on a nil
  listener, and the server object left with a nil listener, so that a later \<open>Stop\<close> panics.\<close>

theorem refresh_listen_failure:
  fixes w :: "'w sworld"
  defines "o0 \<equiv> server_opt (self w)" and "sid \<equiv> next_server w"
  assumes "usable (Logger o0)" "rpcServiceMap (self w) = Some m"
    and "descs_ok w" "\<forall>e \<in> set m. registrable (descs w) e"
    and "grpcServer (self w) = Some old" "lst (self w) = Some l"
    and "\<And>cs. \<exists>e. net_Listen env cs (Location o0) = Inl e"
  shows "fst (TripleServer_RefreshService env w) = Inr () \<and>
    lst (self (snd (TripleServer_RefreshService env w))) = None \<and>
    (\<exists>cs e. calls (snd (TripleServer_RefreshService env w)) =
      calls w @ cs @ [StopServer old, CloseListener l, Listen (Location o0) (Inl e), GoServe sid None]) \<and>
    fst (TripleServer_Stop (snd (TripleServer_RefreshService env w))) = Inl NilDereference"
proof -
  obtain k where k: "log_sink (Logger o0) = Some k" using assms(3) by (auto simp: usable_sink)
  let ?cs = "codec_notice (CodecType o0) w @ [NewServer sid (server_opts env o0 w)] @
      concat (map (registration (descs w) sid) m)"
  obtain e where e: "net_Listen env (calls w @ codec_notice (CodecType o0) w @
      [NewServer sid (server_opts env o0 w)] @ concat (map (registration (descs w) sid) m) @
      [StopServer old, CloseListener l]) (Location o0) = Inl e"
    using assms(9) by blast
  note run = RefreshService_run [OF k [unfolded o0_def] assms(4-8) refl refl, of env, folded o0_def sid_def, unfolded e]
  have "calls (snd (TripleServer_RefreshService env w)) =
      calls w @ ?cs @ [StopServer old, CloseListener l, Listen (Location o0) (Inl e), GoServe sid None]"
    using run(2) by simp
  with run(1,3) show ?thesis
    unfolding TripleServer_Stop_def by (auto simp: go_simps)
qed

text \<open>C40: TLS trouble never keeps the server from starting. If the certificates cannot be loaded the
  error is only logged and the gRPC server is created without any credentials option; if the CA file
  holds no certificate, a server that was asked for mutual TLS is created with plaintext credentials
  and nothing is logged.\<close>

theorem server_tls_failure_goes_on:
  "(getServerTlsCertificate (sv_tls env) o0 = (c, Some err) \<longrightarrow> log_sink (Logger o0) = Some k \<longrightarrow>
     (\<exists>cs opts. newGrpcServerWithCodec env o0 w = (Inr (next_server w),
        w\<lparr>logs := logs w @ [(k, Errorf ''TripleClient.Start: TLS config err: %v'' [VError err])],
          next_server := Suc (next_server w), calls := calls w @ cs @ [NewServer (next_server w) opts]\<rparr>) \<and>
        (\<forall>cr. Creds cr \<notin> set opts))) \<and>
   (mtls_requested o0 \<longrightarrow> ReadFile (sv_tls env) (CACertFile o0) = Inr ca \<longrightarrow>
     \<not> AppendCertsFromPEM (sv_tls env) ca \<longrightarrow>
     (\<exists>cs opts. newGrpcServerWithCodec env o0 w = (Inr (next_server w),
        w\<lparr>next_server := Suc (next_server w), calls := calls w @ cs @ [NewServer (next_server w) opts]\<rparr>) \<and>
        (\<forall>cr. Creds cr \<in> set opts \<longleftrightarrow> cr = InsecureCredentials)))"
proof -
  have plain: "Creds cr \<notin> set (base_server_opts o0)" "Creds cr \<notin> set (codec_opts ct w)" for cr ct
    by (simp_all add: base_server_opts_def codec_opts_def)
  have "\<exists>cs opts. newGrpcServerWithCodec env o0 w = (Inr (next_server w),
        w\<lparr>logs := logs w @ [(k, Errorf ''TripleClient.Start: TLS config err: %v'' [VError err])],
          next_server := Suc (next_server w), calls := calls w @ cs @ [NewServer (next_server w) opts]\<rparr>) \<and>
        (\<forall>cr. Creds cr \<notin> set opts)"
    if "getServerTlsCertificate (sv_tls env) o0 = (c, Some err)" "log_sink (Logger o0) = Some k"
  proof -
    have "newGrpcServerWithCodec env o0 w = (Inr (next_server w), built env o0 w)"
      using that by (intro newGrpcServerWithCodec_run) (simp add: usable_sink)
    moreover have "creds_opts (getServerTlsCertificate (sv_tls env) o0) = []"
      using that(1) by (simp add: creds_opts_def split: option.split)
    ultimately show ?thesis
      using that plain
      by (intro exI [of _ "codec_notice (CodecType o0) w"] exI [of _ "server_opts env o0 w"])
        (simp add: built_def tls_logs_def server_opts_def)
  qed
  moreover have "\<exists>cs opts. newGrpcServerWithCodec env o0 w = (Inr (next_server w),
        w\<lparr>next_server := Suc (next_server w), calls := calls w @ cs @ [NewServer (next_server w) opts]\<rparr>) \<and>
        (\<forall>cr. Creds cr \<in> set opts \<longleftrightarrow> cr = InsecureCredentials)"
    if "mtls_requested o0" "ReadFile (sv_tls env) (CACertFile o0) = Inr ca" "\<not> AppendCertsFromPEM (sv_tls env) ca"
  proof -
    have tls: "getServerTlsCertificate (sv_tls env) o0 = (None, None)"
      by (rule server_tls.ca_unusable [OF that])
    then have "newGrpcServerWithCodec env o0 w = (Inr (next_server w), built env o0 w)"
      by (intro newGrpcServerWithCodec_run) simp
    with tls plain show ?thesis
      by (intro exI [of _ "codec_notice (CodecType o0) w"] exI [of _ "server_opts env o0 w"])
        (auto simp: built_def tls_logs_def server_opts_def creds_opts_def)
  qed
  ultimately show ?thesis by blast
qed

text \<open>Every field that building a server reads, against the two that it does not.\<close>

lemma server_ignores:
  "JaegerAddress (o1\<lparr>GRPCMaxServerSendMsgSize := n\<rparr>) = JaegerAddress o1"
  "JaegerServiceName (o1\<lparr>GRPCMaxServerSendMsgSize := n\<rparr>) = JaegerServiceName o1"
  "Logger (o1\<lparr>GRPCMaxServerSendMsgSize := n\<rparr>) = Logger o1"
  "GRPCMaxServerRecvMsgSize (o1\<lparr>GRPCMaxServerSendMsgSize := n\<rparr>) = GRPCMaxServerRecvMsgSize o1"
  "GRPCMaxCallSendMsgSize (o1\<lparr>GRPCMaxServerSendMsgSize := n\<rparr>) = GRPCMaxCallSendMsgSize o1"
  "ProxyModeEnable (o1\<lparr>GRPCMaxServerSendMsgSize := n\<rparr>) = ProxyModeEnable o1"
  "TLSCertFile (o1\<lparr>GRPCMaxServerSendMsgSize := n\<rparr>) = TLSCertFile o1"
  "TLSKeyFile (o1\<lparr>GRPCMaxServerSendMsgSize := n\<rparr>) = TLSKeyFile o1"
  "CACertFile (o1\<lparr>GRPCMaxServerSendMsgSize := n\<rparr>) = CACertFile o1"
  "TLSServerName (o1\<lparr>GRPCMaxServerSendMsgSize := n\<rparr>) = TLSServerName o1"
  "CodecType (o1\<lparr>GRPCMaxServerSendMsgSize := n\<rparr>) = CodecType o1"
  "JaegerAddress (o1\<lparr>JaegerUseAgent := b\<rparr>) = JaegerAddress o1"
  "JaegerServiceName (o1\<lparr>JaegerUseAgent := b\<rparr>) = JaegerServiceName o1" "Logger (o1\<lparr>JaegerUseAgent := b\<rparr>) = Logger o1"
  "GRPCMaxServerRecvMsgSize (o1\<lparr>JaegerUseAgent := b\<rparr>) = GRPCMaxServerRecvMsgSize o1"
  "GRPCMaxCallSendMsgSize (o1\<lparr>JaegerUseAgent := b\<rparr>) = GRPCMaxCallSendMsgSize o1"
  "ProxyModeEnable (o1\<lparr>JaegerUseAgent := b\<rparr>) = ProxyModeEnable o1"
  "TLSCertFile (o1\<lparr>JaegerUseAgent := b\<rparr>) = TLSCertFile o1" "TLSKeyFile (o1\<lparr>JaegerUseAgent := b\<rparr>) = TLSKeyFile o1"
  "CACertFile (o1\<lparr>JaegerUseAgent := b\<rparr>) = CACertFile o1" "TLSServerName (o1\<lparr>JaegerUseAgent := b\<rparr>) = TLSServerName o1"
  "CodecType (o1\<lparr>JaegerUseAgent := b\<rparr>) = CodecType o1"
  by simp_all

text \<open>The options of the gRPC server when TLS is off: tracing interceptors iff a Jaeger address is
  set, then the receive limit, the send limit and the proxy mode iff they are set, plaintext
  credentials, and the wrapping codec unless the codec is protobuf. An unknown codec is reported on
  standard output only, and the server is created with a wrapping codec around nil. The option
  \<open>GRPCMaxServerSendMsgSize\<close> has no effect: the send limit is the one meant for calls. Neither
  has \<open>JaegerUseAgent\<close>, for any TLS configuration.\<close>

theorem new_server_options:
  assumes "\<not> tls_requested o0"
  shows "(\<exists>w'. newGrpcServerWithCodec env o0 w = (Inr (next_server w), w') \<and>
      calls w' = calls w @
        (if CodecType o0 \<notin> {PBCodecName, HessianCodecName, MsgPackCodecName} \<and>
            codecFactoryMap w (CodecType o0) = None
         then [Printf ''TripleServer.Start: serialization %s not supported'' (CodecType o0)] else []) @
        [NewServer (next_server w)
          ((if JaegerAddress o0 = [] then []
            else [UnaryInterceptor (NewJaegerTracerDirect (JaegerServiceName o0) (JaegerAddress o0) (Logger o0)),
                  StreamInterceptor (NewJaegerTracerDirect (JaegerServiceName o0) (JaegerAddress o0) (Logger o0))]) @
           (if GRPCMaxServerRecvMsgSize o0 = 0 then [] else [MaxRecvMsgSize (GRPCMaxServerRecvMsgSize o0)]) @
           (if GRPCMaxCallSendMsgSize o0 = 0 then [] else [MaxSendMsgSize (GRPCMaxCallSendMsgSize o0)]) @
           (if ProxyModeEnable o0 then [ProxyMode True] else []) @
           [Creds InsecureCredentials] @
           (if CodecType o0 = PBCodecName then []
            else [ForceServerCodec (PBWrapperTwoWayCodec (CodecType o0)
              (if CodecType o0 = HessianCodecName then Some HessianCodec
               else if CodecType o0 = MsgPackCodecName then Some MsgPackCodec
               else (case codecFactoryMap w (CodecType o0) of None \<Rightarrow> None | Some f \<Rightarrow> f ()))
              ProtobufCodec)]))]) \<and>
    newGrpcServerWithCodec env (o1\<lparr>GRPCMaxServerSendMsgSize := n\<rparr>) w = newGrpcServerWithCodec env o1 w \<and>
    newGrpcServerWithCodec env (o1\<lparr>JaegerUseAgent := b\<rparr>) w = newGrpcServerWithCodec env o1 w"
proof -
  have tls: "getServerTlsCertificate (sv_tls env) o0 = (None, None)"
    by (rule server_tls.off [OF assms])
  then have "newGrpcServerWithCodec env o0 w = (Inr (next_server w), built env o0 w)"
    by (intro newGrpcServerWithCodec_run) simp
  moreover have "newGrpcServerWithCodec env (o1\<lparr>GRPCMaxServerSendMsgSize := n\<rparr>) w = newGrpcServerWithCodec env o1 w"
    "newGrpcServerWithCodec env (o1\<lparr>JaegerUseAgent := b\<rparr>) w = newGrpcServerWithCodec env o1 w"
    unfolding newGrpcServerWithCodec_def getServerTlsCertificate_def server_ignores by (rule refl)+
  ultimately show ?thesis
    by (simp add: server_opts_def base_server_opts_def tls creds_opts_def codec_opts_def codec_notice_def
        unsupported_def server_inner_codec_def GetTripleCodec_def split: option.split)
qed

section \<open>Concrete runs\<close>

text \<open>Two generated services that share the descriptor 0, and a unary one; a port that can be bound
  once, and again after its listener was closed.\<close>

definition generated :: "nat \<Rightarrow> nat service" where
  "generated i = \<lparr> svc_id = i, as_grpc = Some (Some 0), as_unary = None, as_reflect = False \<rparr>"

definition sample_services :: "(goval \<times> nat service) list" where
  "sample_services = [(VString ''g.A'', generated 1), (VString ''g.B'', generated 2), (VString ''u.C'', echo_value)]"

definition sample_server_env :: "server_env" where
  "sample_server_env = \<lparr> sv_tls = sample_tls, sv_text = (\<lambda>e. ''bind: address already in use''),
     net_Listen = (\<lambda>cs addr. if addr = ''taken:1'' then Inl (ForeignError 4)
       else Inr (length (filter (\<lambda>c. case c of Listen _ _ \<Rightarrow> True | _ \<Rightarrow> False) cs))) \<rparr>"

definition sample_desc :: ServiceDesc where
  "sample_desc = \<lparr> ServiceName = ''main.Greeter'', HandlerType = ''GreeterServer'',
     Methods = [(''SayHello'', ForeignHandler 1)], Streams = [], Metadata = Some ''samples_api.proto'' \<rparr>"

definition sample_sworld :: "triple_option \<Rightarrow> nat sworld" where
  "sample_sworld o0 = \<lparr> logs = [], grpcCodecs = [], codecFactoryMap = Map.empty,
     codecInWrapperSerializerTypeMap = Map.empty, descs = [0 \<mapsto> sample_desc], next_desc = 1, next_server = 0,
     calls = [], self = NewTripleServer (Some sample_services) (Some o0) \<rparr>"

definition running :: "string \<Rightarrow> nat sworld" where
  "running addr = (sample_sworld (NewTripleOption [WithLocation addr]))\<lparr>self :=
     (NewTripleServer (Some sample_services) (Some (NewTripleOption [WithLocation addr])))\<lparr>
       grpcServer := Some 9, lst := Some 8\<rparr>\<rparr>"

lemma located_option [simp]:
  "addr \<noteq> [] \<Longrightarrow> Location (NewTripleOption [WithLocation addr]) = addr"
  "Logger (NewTripleOption [WithLocation addr]) = Some GetDefaultLogger"
  "CodecType (NewTripleOption [WithLocation addr]) = PBCodecName"
  "getServerTlsCertificate t (NewTripleOption [WithLocation addr]) = (None, None)"
  "base_server_opts (NewTripleOption [WithLocation addr]) = []"
  using f_location.last_call_wins [of "[]" addr "[]"]
  by (simp_all add: NewTripleOption_def WithLocation_def zero_option_def getServerTlsCertificate_def
      base_server_opts_def)

lemma sample_sworld_fields [simp]:
  "self (sample_sworld o0) = NewTripleServer (Some sample_services) (Some o0)"
  "descs (sample_sworld o0) = [0 \<mapsto> sample_desc]" "calls (sample_sworld o0) = []"
  "next_server (sample_sworld o0) = 0" "codecFactoryMap (sample_sworld o0) = Map.empty" "descs_ok (sample_sworld o0)"
  by (simp_all add: sample_sworld_def descs_ok_def)

lemma running_fields [simp]:
  "server_opt (self (running addr)) = NewTripleOption [WithLocation addr]"
  "rpcServiceMap (self (running addr)) = Some sample_services"
  "grpcServer (self (running addr)) = Some 9" "lst (self (running addr)) = Some 8"
  "descs (running addr) = [0 \<mapsto> sample_desc]" "calls (running addr) = []"
  "next_server (running addr) = 0" "descs_ok (running addr)"
  by (simp_all add: running_def sample_sworld_def NewTripleServer_def descs_ok_def)

lemma sample_listen [simp]:
  "net_Listen sample_server_env cs addr = (if addr = ''taken:1'' then Inl (ForeignError 4)
     else Inr (length (filter (\<lambda>c. case c of Listen _ _ \<Rightarrow> True | _ \<Rightarrow> False) cs)))"
  by (simp add: sample_server_env_def)

lemmas sample_opts = server_opts_def creds_opts_def codec_opts_def codec_notice_def unsupported_def

lemma sample_registrable: "\<forall>e \<in> set sample_services. registrable [0 \<mapsto> sample_desc] e"
  by (simp add: sample_services_def generated_def echo_value_def reflection_name_def)

lemma sample_registrations:
  "concat (map (registration [0 \<mapsto> sample_desc] s) sample_services) =
     [RegisterService s (sample_desc\<lparr>ServiceName := ''g.A''\<rparr>) 1,
      RegisterService s (sample_desc\<lparr>ServiceName := ''g.B''\<rparr>) 2,
      RegisterService s (createGrpcDesc ''u.C'' 3) 3]"
  by (simp add: sample_services_def generated_def echo_value_def registration_def entry_desc_def reflection_name_def)

theorem start_registers_every_key_witness:
  "fst (TripleServer_Start sample_server_env (sample_sworld (NewTripleOption [WithLocation ''up:1'']))) = Inr () \<and>
   calls (snd (TripleServer_Start sample_server_env (sample_sworld (NewTripleOption [WithLocation ''up:1''])))) =
     [Listen ''up:1'' (Inr 0), NewServer 0 [Creds InsecureCredentials],
      RegisterService 0 (sample_desc\<lparr>ServiceName := ''g.A''\<rparr>) 1,
      RegisterService 0 (sample_desc\<lparr>ServiceName := ''g.B''\<rparr>) 2,
      RegisterService 0 (createGrpcDesc ''u.C'' 3) 3, GoServe 0 (Some 0)]"
  using start_registers_every_key [of "sample_sworld (NewTripleOption [WithLocation ''up:1''])" sample_services
      sample_server_env] sample_registrable sample_registrations [of 0]
  by (simp add: NewTripleServer_def sample_opts)

theorem refresh_replaces_server_witness:
  "calls (snd (TripleServer_RefreshService sample_server_env (running ''up:1''))) =
     [NewServer 0 [Creds InsecureCredentials],
      RegisterService 0 (sample_desc\<lparr>ServiceName := ''g.A''\<rparr>) 1,
      RegisterService 0 (sample_desc\<lparr>ServiceName := ''g.B''\<rparr>) 2,
      RegisterService 0 (createGrpcDesc ''u.C'' 3) 3, StopServer 9, CloseListener 8,
      Listen ''up:1'' (Inr 0), GoServe 0 (Some 0)]"
  using refresh_replaces_server [of "running ''up:1''" sample_services 9 8 _ sample_server_env 0]
    sample_registrable sample_registrations [of 0]
  by (simp add: sample_opts)

theorem refresh_listen_failure_witness:
  "fst (TripleServer_RefreshService sample_server_env (running ''taken:1'')) = Inr () \<and>
   fst (TripleServer_Stop (snd (TripleServer_RefreshService sample_server_env (running ''taken:1'')))) = Inl NilDereference"
  using refresh_listen_failure [of "running ''taken:1''" sample_services 9 8 sample_server_env] sample_registrable
  by simp

theorem server_tls_failure_goes_on_witness:
  "\<exists>cs opts. newGrpcServerWithCodec sample_server_env (mtls_option ''empty.pem'') (sample_sworld zero_option) =
     (Inr 0, (sample_sworld zero_option)\<lparr>next_server := 1, calls := cs @ [NewServer 0 opts]\<rparr>) \<and>
     (\<forall>cr. Creds cr \<in> set opts \<longleftrightarrow> cr = InsecureCredentials)"
  using server_tls_failure_goes_on [of sample_server_env "mtls_option ''empty.pem''" None "ForeignError 2"
      GetDefaultLogger "sample_sworld zero_option" "[0]"]
  by (simp add: mtls_option_def tls_request_defs sample_server_env_def sample_tls_def sample_sworld_def)

theorem new_server_options_witness:
  "\<exists>w'. newGrpcServerWithCodec sample_server_env (zero_option\<lparr>CodecType := ''json'', GRPCMaxCallSendMsgSize := 7,
       GRPCMaxServerSendMsgSize := 9\<rparr>) (sample_sworld zero_option) = (Inr 0, w') \<and>
     calls w' = [Printf ''TripleServer.Start: serialization %s not supported'' ''json'',
       NewServer 0 [MaxSendMsgSize 7, Creds InsecureCredentials,
         ForceServerCodec (PBWrapperTwoWayCodec ''json'' None ProtobufCodec)]]"
  using new_server_options [of "zero_option\<lparr>CodecType := ''json'', GRPCMaxCallSendMsgSize := 7,
       GRPCMaxServerSendMsgSize := 9\<rparr>" sample_server_env "sample_sworld zero_option"]
  by (simp add: zero_option_def tls_request_defs sample_sworld_def codec_name_defs)

end
