(* ===== verification/Greeter.thy ===== *)
theory Greeter
  imports Client Server Server_Interceptor
begin

text \<open>
  The generated stub of the example, \<open>src/example/dubbo/proto/helloworld_triple.pb.go\<close>: the
  client stub that \<open>TripleClient\<close> finds by reflection, the wrappers of the two stream ends, and the
  handlers that a gRPC server calls.

  Messages are objects behind pointers. A process of the example works on a \<open>gstore\<close>: the requests
  and users its pointers refer to (one counter hands out fresh addresses), what it has logged, printed
  and slept, and everything else (\<open>below\<close>). On the client the store stands in the place of the network
  state of \<open>Conn\<close>, because gRPC writes the response into the object the stub allocated. The dubbo-go
  framework is outside the repository: its \<open>protocol.Invoker\<close> is an argument.
\<close>

section \<open>Messages and the store\<close>

record HelloRequest =
  hello_Name :: string

record User =
  user_Name :: string
  user_Id :: string
  user_Age :: i32

text \<open>What the example's processes log and print; an argument is an interface value, the struct behind
  a pointer, a counter or an error.\<close>

datatype garg = ArgVal goval | ArgUser User | ArgCount u32 | ArgErr goerror | ArgText string

datatype gevent =
    LogInfof string "garg list"
  | LogWarnf string "garg list"
  | LogError "garg list"
  | Println "garg list"
  | Sleep i64
  | GoListenAndServe string
  | SetConsumerService
  | SetMutexProfileFraction int

record 'm gstore =
  greqs :: "nat \<Rightarrow> HelloRequest option"
  gusers :: "nat \<Rightarrow> User option"
  gfresh :: nat
  gevents :: "gevent list"
  below :: 'm

definition zero_HelloRequest :: HelloRequest where
  "zero_HelloRequest = \<lparr> hello_Name = '''' \<rparr>"

definition zero_User :: User where
  "zero_User = \<lparr> user_Name = '''', user_Id = '''', user_Age = 0 \<rparr>"

text \<open>\<open>&proto.User{...}\<close> and \<open>&proto.HelloRequest{...}\<close>, and the reads through such pointers.\<close>

definition alloc_User :: "User \<Rightarrow> ('m gstore, nat) go" where
  "alloc_User u = (\<lambda>s. (Inr (gfresh s),
     s\<lparr>gusers := (gusers s)(gfresh s \<mapsto> u), gfresh := Suc (gfresh s)\<rparr>))"

definition alloc_HelloRequest :: "HelloRequest \<Rightarrow> ('m gstore, nat) go" where
  "alloc_HelloRequest r = (\<lambda>s. (Inr (gfresh s),
     s\<lparr>greqs := (greqs s)(gfresh s \<mapsto> r), gfresh := Suc (gfresh s)\<rparr>))"

definition load_HelloRequest :: "nat option \<Rightarrow> ('m gstore, HelloRequest) go" where
  "load_HelloRequest p =
     go_bind (go_deref p) (\<lambda>a. go_bind (go_gets (\<lambda>s. greqs s a)) go_deref)"

definition load_User :: "nat option \<Rightarrow> ('m gstore, User) go" where
  "load_User p = go_bind (go_deref p) (\<lambda>a. go_bind (go_gets (\<lambda>s. gusers s a)) go_deref)"

definition say :: "gevent \<Rightarrow> ('m gstore, unit) go" where
  "say e = go_modify (\<lambda>s. s\<lparr>gevents := gevents s @ [e]\<rparr>)"

definition ptr_val :: "nat option \<Rightarrow> goval" where
  "ptr_val p = (case p of None \<Rightarrow> VNil | Some a \<Rightarrow> VPtr a)"

section \<open>The client stub\<close>

record greeterClient =
  cc :: "TripleConn option"

definition NewGreeterClient :: "TripleConn \<Rightarrow> greeterClient" where
  "NewGreeterClient conn = \<lparr> cc = Some conn \<rparr>"

definition greeterClient_SayHello ::
    "'m gstore grpc_env \<Rightarrow> greeterClient \<Rightarrow> Ctx \<Rightarrow> goval \<Rightarrow> call_option list
     \<Rightarrow> ('m gstore kworld, nat \<times> ErrorWithAttachment) go" where
  "greeterClient_SayHello env c ctx inp opts =
     go_bind (on_net (alloc_User zero_User)) (\<lambda>out.
     go_bind (go_lift (assert_string (ctx_Value ctx InterfaceKey))) (\<lambda>interfaceKey.
     go_bind (TripleConn_Invoke env (cc c) ctx (''/'' @ interfaceKey @ ''/SayHello'') inp (VPtr out) []) (\<lambda>e.
       go_return (out, e))))"

definition greeterClient_SayHelloWithError ::
    "'m gstore grpc_env \<Rightarrow> greeterClient \<Rightarrow> Ctx \<Rightarrow> goval \<Rightarrow> call_option list
     \<Rightarrow> ('m gstore kworld, nat \<times> ErrorWithAttachment) go" where
  "greeterClient_SayHelloWithError env c ctx inp opts =
     go_bind (on_net (alloc_User zero_User)) (\<lambda>out.
     go_bind (go_lift (assert_string (ctx_Value ctx InterfaceKey))) (\<lambda>interfaceKey.
     go_bind (TripleConn_Invoke env (cc c) ctx (''/'' @ interfaceKey @ ''/SayHelloWithError'') inp (VPtr out) [])
       (\<lambda>e. go_return (out, e))))"

text \<open>The stream that \<open>NewStream\<close> returned, wrapped, or nil.\<close>

definition greeterClient_SayHelloStream ::
    "'m gstore grpc_env \<Rightarrow> greeterClient \<Rightarrow> Ctx \<Rightarrow> call_option list
     \<Rightarrow> ('m gstore kworld, nat option option \<times> goerror option) go" where
  "greeterClient_SayHelloStream env c ctx opts =
     go_bind (go_lift (assert_string (ctx_Value ctx InterfaceKey))) (\<lambda>interfaceKey.
     go_bind (TripleConn_NewStream env (cc c) ctx (''/'' @ interfaceKey @ ''/SayHelloStream'') opts) (\<lambda>(stream, err).
       if err \<noteq> None then go_return (None, err) else go_return (Some stream, None)))"

text \<open>The methods of \<open>greeterClient\<close> as \<open>reflect\<close> sees them. \<open>Value.Call\<close> panics when
  arguments are missing or have the wrong type; the optional call options are never given by the client.\<close>

fun unary_call_args :: "goval list \<Rightarrow> panic + Ctx \<times> goval" where
  "unary_call_args [VCtx ctx, VPtr p] = Inr (ctx, VPtr p)"
| "unary_call_args ins = Inl (ExplicitPanic
     (if length ins < 2 then ''reflect: Call with too few input arguments'' else ''reflect: Call using wrong type''))"

fun stream_call_args :: "goval list \<Rightarrow> panic + Ctx" where
  "stream_call_args [VCtx ctx] = Inr ctx"
| "stream_call_args ins = Inl (ExplicitPanic
     (if ins = [] then ''reflect: Call with too few input arguments'' else ''reflect: Call using wrong type''))"

definition greeter_stub :: "'m gstore grpc_env \<Rightarrow> greeterClient \<Rightarrow> 'm gstore stub" where
  "greeter_stub env c name =
     (if name = ''SayHello'' then Some (\<lambda>ins.
        go_bind (go_lift (unary_call_args ins)) (\<lambda>(ctx, inp).
        go_bind (greeterClient_SayHello env c ctx inp []) (\<lambda>(out, e). go_return [VPtr out, VErrAtt e])))
      else if name = ''SayHelloWithError'' then Some (\<lambda>ins.
        go_bind (go_lift (unary_call_args ins)) (\<lambda>(ctx, inp).
        go_bind (greeterClient_SayHelloWithError env c ctx inp []) (\<lambda>(out, e). go_return [VPtr out, VErrAtt e])))
      else if name = ''SayHelloStream'' then Some (\<lambda>ins.
        go_bind (go_lift (stream_call_args ins)) (\<lambda>ctx.
        go_bind (greeterClient_SayHelloStream env c ctx []) (\<lambda>(stream, err). go_return
          [case stream of None \<Rightarrow> VNil | Some s \<Rightarrow> ptr_val s, case err of None \<Rightarrow> VNil | Some e \<Rightarrow> VError e])))
      else None)"

definition GreeterClientImpl_GetDubboStub :: "'m gstore grpc_env \<Rightarrow> 'm gstore impl" where
  "GreeterClientImpl_GetDubboStub env =
     Some (\<lambda>conn. go_return [Some (greeter_stub env (NewGreeterClient conn))])"

section \<open>Streams\<close>

text \<open>The message operations of \<open>grpc.ClientStream\<close> and \<open>grpc.ServerStream\<close>.\<close>

record 's msg_stream =
  stream_SendMsg :: "goval \<Rightarrow> ('s, goerror option) go"
  stream_RecvMsg :: "goval \<Rightarrow> ('s, goerror option) go"

definition greeterSayHelloStreamClient_Send ::
    "'m gstore msg_stream \<Rightarrow> nat option \<Rightarrow> ('m gstore, goerror option) go" where
  "greeterSayHelloStreamClient_Send x m = stream_SendMsg x (ptr_val m)"

definition greeterSayHelloStreamClient_Recv ::
    "'m gstore msg_stream \<Rightarrow> ('m gstore, nat option \<times> goerror option) go" where
  "greeterSayHelloStreamClient_Recv x =
     go_bind (alloc_User zero_User) (\<lambda>m.
     go_bind (stream_RecvMsg x (VPtr m)) (\<lambda>err.
       if err \<noteq> None then go_return (None, err) else go_return (Some m, None)))"

definition greeterSayHelloStreamServer_Send ::
    "'m gstore msg_stream \<Rightarrow> nat option \<Rightarrow> ('m gstore, goerror option) go" where
  "greeterSayHelloStreamServer_Send x m = stream_SendMsg x (ptr_val m)"

definition greeterSayHelloStreamServer_Recv ::
    "'m gstore msg_stream \<Rightarrow> ('m gstore, nat option \<times> goerror option) go" where
  "greeterSayHelloStreamServer_Recv x =
     go_bind (alloc_HelloRequest zero_HelloRequest) (\<lambda>m.
     go_bind (stream_RecvMsg x (VPtr m)) (\<lambda>err.
       if err \<noteq> None then go_return (None, err) else go_return (Some m, None)))"

section \<open>The server side\<close>

type_synonym 'm greeter_method = "Ctx \<Rightarrow> nat option \<Rightarrow> ('m gstore, nat option \<times> goerror option) go"

record 'm GreeterServer =
  gs_SayHelloStream :: "'m gstore msg_stream \<Rightarrow> ('m gstore, goerror option) go"
  gs_SayHello :: "'m greeter_method"
  gs_SayHelloWithError :: "'m greeter_method"

definition UnimplementedGreeterServer :: "'m GreeterServer" where
  "UnimplementedGreeterServer =
     \<lparr> gs_SayHelloStream = (\<lambda>_. go_return
         (Some (StatusError codes_Unimplemented ''method SayHelloStream not implemented''))),
       gs_SayHello = (\<lambda>_ _. go_return
         (None, Some (StatusError codes_Unimplemented ''method SayHello not implemented''))),
       gs_SayHelloWithError = (\<lambda>_ _. go_return
         (None, Some (StatusError codes_Unimplemented ''method SayHelloWithError not implemented''))) \<rparr>"

text \<open>\<open>protocol.Invoker\<close>: the result of an invocation together with its \<open>Error()\<close>.\<close>

type_synonym 'm Invoker = "Ctx \<Rightarrow> string \<Rightarrow> goval list \<Rightarrow> ('m gstore, goval \<times> goerror option) go"

text \<open>The registered value by the interfaces it implements. As a \<open>Dubbo3GrpcService\<close> it has
  a proxy implementation, which is nil until the framework sets it.\<close>

record 'm srv_value =
  as_Dubbo3GrpcService :: "'m Invoker option option"
  as_GreeterServer :: "'m GreeterServer option"

definition XXX_SetProxyImpl :: "'m Invoker option \<Rightarrow> 'm srv_value \<Rightarrow> 'm srv_value" where
  "XXX_SetProxyImpl impl s = s\<lparr>as_Dubbo3GrpcService := Some impl\<rparr>"

definition XXX_GetProxyImpl :: "'m Invoker option \<Rightarrow> ('s, 'm Invoker) go" where
  "XXX_GetProxyImpl proxyImpl = go_deref proxyImpl"

type_synonym 'w interceptor =
  "Ctx \<Rightarrow> goval \<Rightarrow> string \<Rightarrow> (Ctx \<Rightarrow> goval \<Rightarrow> ('w, goval \<times> goerror option) go) \<Rightarrow> ('w tw, goval \<times> goerror option) go"

definition lift_tw :: "('w, 'a) go \<Rightarrow> ('w tw, 'a) go" where
  "lift_tw m = (\<lambda>s. case m (ext s) of (r, w') \<Rightarrow> (r, s\<lparr>ext := w'\<rparr>))"

text \<open>The closure \<open>handler\<close> that an interceptor is given.\<close>

definition direct_handler ::
    "('m GreeterServer \<Rightarrow> 'm greeter_method) \<Rightarrow> 'm srv_value \<Rightarrow> Ctx \<Rightarrow> goval
     \<Rightarrow> ('m gstore, goval \<times> goerror option) go" where
  "direct_handler method srv ctx req =
     (case as_GreeterServer srv of
        None \<Rightarrow> go_panic BadTypeAssertion
      | Some g \<Rightarrow>
          (case req of
             VPtr p \<Rightarrow>
               go_bind (go_gets (\<lambda>s. greqs s p)) (\<lambda>r.
                 if r = None then go_panic BadTypeAssertion
                 else go_bind (method g ctx (Some p)) (\<lambda>(usr, err). go_return (ptr_val usr, err)))
           | _ \<Rightarrow> go_panic BadTypeAssertion))"

text \<open>The generated unary handlers differ only in the names and in the method they select.\<close>

definition greeter_handler ::
    "string \<Rightarrow> string \<Rightarrow> ('m GreeterServer \<Rightarrow> 'm greeter_method) \<Rightarrow> 'm srv_value \<Rightarrow> Ctx
     \<Rightarrow> (goval \<Rightarrow> ('m gstore, goerror option) go) \<Rightarrow> 'm gstore interceptor option
     \<Rightarrow> ('m gstore tw, goval \<times> goerror option) go" where
  "greeter_handler methodName fullMethod method srv ctx dec interceptor =
     go_bind (lift_tw (alloc_HelloRequest zero_HelloRequest)) (\<lambda>inp.
     go_bind (lift_tw (dec (VPtr inp))) (\<lambda>err.
       if err \<noteq> None then go_return (VNil, err)
       else
         (case as_Dubbo3GrpcService srv of
            None \<Rightarrow> go_panic BadTypeAssertion
          | Some base \<Rightarrow>
              (case interceptor of
                 None \<Rightarrow>
                   go_bind (XXX_GetProxyImpl base) (\<lambda>invoker. lift_tw (invoker ctx methodName [VPtr inp]))
               | Some icpt \<Rightarrow> icpt ctx (VPtr inp) fullMethod (direct_handler method srv)))))"

definition Greeter_SayHello_Handler ::
    "'m srv_value \<Rightarrow> Ctx \<Rightarrow> (goval \<Rightarrow> ('m gstore, goerror option) go) \<Rightarrow> 'm gstore interceptor option
     \<Rightarrow> ('m gstore tw, goval \<times> goerror option) go" where
  "Greeter_SayHello_Handler = greeter_handler ''SayHello'' ''/main.Greeter/SayHello'' gs_SayHello"

definition Greeter_SayHelloWithError_Handler ::
    "'m srv_value \<Rightarrow> Ctx \<Rightarrow> (goval \<Rightarrow> ('m gstore, goerror option) go) \<Rightarrow> 'm gstore interceptor option
     \<Rightarrow> ('m gstore tw, goval \<times> goerror option) go" where
  "Greeter_SayHelloWithError_Handler =
     greeter_handler ''SayHelloWithError'' ''/main.Greeter/SayHelloWithError'' gs_SayHelloWithError"

definition Greeter_SayHelloStream_Handler ::
    "'m srv_value \<Rightarrow> 'm gstore msg_stream \<Rightarrow> ('m gstore, goerror option) go" where
  "Greeter_SayHelloStream_Handler srv stream =
     (if as_Dubbo3GrpcService srv = None
      then go_then (say (Println [ArgText ''RPCInvocation SayHelloStream''])) (go_return None)
      else (case as_GreeterServer srv of
              None \<Rightarrow> go_panic BadTypeAssertion
            | Some g \<Rightarrow> gs_SayHelloStream g stream))"

text \<open>The descriptor; a handler is named by a number.\<close>

definition Greeter_ServiceDesc :: ServiceDesc where
  "Greeter_ServiceDesc =
     \<lparr> ServiceName = ''main.Greeter'', HandlerType = ''GreeterServer'',
       Methods = [(''SayHello'', ForeignHandler 0), (''SayHelloWithError'', ForeignHandler 1)],
       Streams = [\<lparr> StreamName = ''SayHelloStream'', ServerStreams = True, ClientStreams = True,
         stream_Handler = ForeignHandler 2 \<rparr>],
       Metadata = Some ''helloworld.proto'' \<rparr>"

definition handler_of ::
    "nat \<Rightarrow> ('m srv_value \<Rightarrow> Ctx \<Rightarrow> (goval \<Rightarrow> ('m gstore, goerror option) go) \<Rightarrow> 'm gstore interceptor option
     \<Rightarrow> ('m gstore tw, goval \<times> goerror option) go) option" where
  "handler_of n = (if n = 0 then Some Greeter_SayHello_Handler
     else if n = 1 then Some Greeter_SayHelloWithError_Handler else None)"

definition RegisterGreeterServer :: "nat \<Rightarrow> nat \<Rightarrow> ('w sworld, unit) go" where
  "RegisterGreeterServer s srv = emit_ev (RegisterService s Greeter_ServiceDesc srv)"

section \<open>Facts: the store\<close>

lemma alloc_run [simp, run_simps]:
  "alloc_User u s = (Inr (gfresh s), s\<lparr>gusers := (gusers s)(gfresh s \<mapsto> u), gfresh := Suc (gfresh s)\<rparr>)"
  "alloc_HelloRequest r s =
     (Inr (gfresh s), s\<lparr>greqs := (greqs s)(gfresh s \<mapsto> r), gfresh := Suc (gfresh s)\<rparr>)"
  by (simp_all add: alloc_User_def alloc_HelloRequest_def)

lemma load_run [run_simps]:
  "load_User p s = (case Option.bind p (gusers s) of None \<Rightarrow> (Inl NilDereference, s) | Some u \<Rightarrow> (Inr u, s))"
  "load_HelloRequest p s =
     (case Option.bind p (greqs s) of None \<Rightarrow> (Inl NilDereference, s) | Some r \<Rightarrow> (Inr r, s))"
  by (cases p; simp add: load_User_def load_HelloRequest_def go_simps split: option.split)+

lemma say_run [simp, run_simps]: "say e s = (Inr (), s\<lparr>gevents := gevents s @ [e]\<rparr>)"
  by (simp add: say_def)

lemma lift_tw_run [run_simps]: "lift_tw m s = (fst (m (ext s)), s\<lparr>ext := snd (m (ext s))\<rparr>)"
  by (simp add: lift_tw_def case_prod_beta)

lemma XXX_GetProxyImpl_run [simp]:
  "XXX_GetProxyImpl (Some i) s = (Inr i, s)" "XXX_GetProxyImpl None s = (Inl NilDereference, s)"
  by (simp_all add: XXX_GetProxyImpl_def)

section \<open>Facts: the client stub\<close>

text \<open>The world once the stub has allocated the response.\<close>

definition new_reply :: "'m gstore \<Rightarrow> 'm gstore" where
  "new_reply s = s\<lparr>gusers := (gusers s)(gfresh s \<mapsto> zero_User), gfresh := Suc (gfresh s)\<rparr>"

lemma on_net_alloc [simp]:
  "on_net (alloc_User zero_User) w = (Inr (gfresh (net w)), w\<lparr>net := new_reply (net w)\<rparr>)"
  by (simp add: on_net_run new_reply_def)

text \<open>Both unary methods of the stub: one RPC on the connection, with the fresh object as reply.\<close>

definition greeter_rpc ::
    "'m gstore grpc_env \<Rightarrow> TripleConn option \<Rightarrow> string \<Rightarrow> Ctx \<Rightarrow> nat \<Rightarrow> ('m gstore kworld, goval list) go" where
  "greeter_rpc env c name ctx p w =
     (case ctx_lookup_string ctx InterfaceKey of
        None \<Rightarrow> (Inl BadTypeAssertion, w\<lparr>net := new_reply (net w)\<rparr>)
      | Some key \<Rightarrow>
          (case TripleConn_Invoke env c ctx (''/'' @ key @ ''/'' @ name) (VPtr p) (VPtr (gfresh (net w))) []
              (w\<lparr>net := new_reply (net w)\<rparr>) of
             (Inl e, w') \<Rightarrow> (Inl e, w')
           | (Inr e, w') \<Rightarrow> (Inr [VPtr (gfresh (net w)), VErrAtt e], w')))"

lemma greeter_stub_unary:
  assumes "name \<in> {''SayHello'', ''SayHelloWithError''}"
  obtains f where "greeter_stub env c name = Some f" "\<And>ctx p w. f [VCtx ctx, VPtr p] w = greeter_rpc env (cc c) name ctx p w"
proof -
  have no_key: "assert_string (ctx_Value ctx InterfaceKey) =
      (case ctx_lookup_string ctx InterfaceKey of None \<Rightarrow> Inl BadTypeAssertion | Some s \<Rightarrow> Inr s)" for ctx
    by (cases "ctx_Value ctx InterfaceKey") (simp_all add: ctx_lookup_string_def)
  have "\<exists>f. greeter_stub env c name = Some f \<and> (\<forall>ctx p w. f [VCtx ctx, VPtr p] w = greeter_rpc env (cc c) name ctx p w)"
    using assms
    by (auto simp: greeter_stub_def greeter_rpc_def greeterClient_SayHello_def greeterClient_SayHelloWithError_def
        no_key go_simps split: option.split prod.split sum.split)
  with that show ?thesis by blast
qed

lemma greeter_rpc_run:
  assumes "ctx_lookup_string ctx InterfaceKey = Some key"
    and "ClientConn_Invoke env (grpcConn c) (WithTimeout (clock w) ctx (timeout c)) (''/'' @ key @ ''/'' @ name)
        (VPtr p) (VPtr (gfresh (net w))) [] (new_reply (net w)) = (r, n')"
  shows "\<exists>w'. net w' = n' \<and>
    rpcs w' = rpcs w @ [(grpcConn c, WithTimeout (clock w) ctx (timeout c), ''/'' @ key @ ''/'' @ name, VPtr p, [])] \<and>
    greeter_rpc env (Some c) name ctx p (w\<lparr>logs := l\<rparr>) = (case r of
        Inl e \<Rightarrow> (Inl e, w')
      | Inr (trailer, err) \<Rightarrow> (Inr [VPtr (gfresh (net w)), VErrAtt (NewErrorWithAttachment err (attachments_of trailer))], w'))"
  using assms
  by (intro exI [of _ "snd (greeter_rpc env (Some c) name ctx p (w\<lparr>logs := l\<rparr>))"])
    (auto simp: greeter_rpc_def run_simps Let_def split: sum.split prod.split)

lemma reflect_reply_run:
  assumes "log_sink l = Some k" and "\<And>s. rpcs (snd (ReflectResponse env res reply s)) = rpcs s"
  shows "fst (reflect_reply env l res reply w) = Inr (reply_error env (fst (ReflectResponse env res reply w)))"
    and "rpcs (snd (reflect_reply env l res reply w)) = rpcs w"
    and "net (snd (reflect_reply env l res reply w)) = net (snd (ReflectResponse env res reply w))"
  using assms(2) [of w]
  by (auto simp: reflect_reply_def reply_error_def go_simps log_stmt_usable [OF assms(1)]
      split: prod.split sum.split)

text \<open>A call through a stub that returns an \<open>ErrorWithAttachment\<close>.\<close>

lemma stub_call_err_att:
  assumes l: "log_sink l = Some k" and f: "f ins w = (Inr [res0, VErrAtt ewa], w1)"
    and rr: "\<And>s. rpcs (snd (ReflectResponse env res0 reply s)) = rpcs s"
  shows "\<exists>w2. net w2 = net w1 \<and>
      fst (stub_call env l (Some f) ins reply w) = Inr (case GetError ewa of
         Some e \<Rightarrow> NewErrorWithAttachment (Some e) Map.empty
       | None \<Rightarrow> NewErrorWithAttachment (reply_error env (fst (ReflectResponse env res0 reply w2))) (GetAttachments ewa)) \<and>
      net (snd (stub_call env l (Some f) ins reply w)) =
        (case GetError ewa of Some e \<Rightarrow> net w1 | None \<Rightarrow> net (snd (ReflectResponse env res0 reply w2)))"
    and "rpcs (snd (stub_call env l (Some f) ins reply w)) = rpcs w1"
proof -
  let ?log = "\<lambda>ls. w1\<lparr>logs := logs w1 @ ls\<rparr>"
  let ?m1 = "(k, Debugf ''TripleClient.Invoke: get result final struct is common.ErrorWithAttachment'' [])"
  let ?m2 = "(k, Debugf ''TripleClient.Invoke: get response attachement = %+v'' [VMap (GetAttachments ewa)])"
  let ?m3 = "(k, Debugf ''TripleClient.Invoke: get reply = %+v'' [res0])"
  note run = stub_call_def stub_status_def reflect_Call_def f go_simps log_stmt_usable [OF l]
  show "\<exists>w2. net w2 = net w1 \<and>
      fst (stub_call env l (Some f) ins reply w) = Inr (case GetError ewa of
         Some e \<Rightarrow> NewErrorWithAttachment (Some e) Map.empty
       | None \<Rightarrow> NewErrorWithAttachment (reply_error env (fst (ReflectResponse env res0 reply w2))) (GetAttachments ewa)) \<and>
      net (snd (stub_call env l (Some f) ins reply w)) =
        (case GetError ewa of Some e \<Rightarrow> net w1 | None \<Rightarrow> net (snd (ReflectResponse env res0 reply w2)))"
    using reflect_reply_run(1,3) [OF l rr, of "?log [?m1, ?m2, ?m3]"]
    by (intro exI [of _ "?log [?m1, ?m2, ?m3]"]) (auto simp: run split: option.split prod.split sum.split)
  show "rpcs (snd (stub_call env l (Some f) ins reply w)) = rpcs w1"
    using reflect_reply_run(2) [OF l rr, of "?log [?m1, ?m2, ?m3]"]
    by (auto simp: run split: option.split prod.split sum.split)
qed

lemma stub_call_panics:
  assumes "f ins w = (Inl e, w1)"
  shows "stub_call env l (Some f) ins reply w = (Inl e, w1)"
  by (simp add: stub_call_def reflect_Call_def go_simps assms)

lemma TripleClient_Invoke_stub:
  assumes "CodecType (opt t) = PBCodecName" "log_sink (Logger (opt t)) = Some k"
    and "stubInvoker t = Some stub" "stub name = Some f"
  shows "\<exists>ls. TripleClient_Invoke env t name ins reply w =
    stub_call env (Logger (opt t)) (Some f) ins reply (w\<lparr>logs := logs w @ ls\<rparr>)"
  using assms
  by (simp add: TripleClient_Invoke_def Invoke_pb_def reflect_MethodByName_def reflect_IsZero_def go_simps
      log_stmt_usable) (rule exI, rule refl)

text \<open>A unary call on a client around the stub, with and without an interface key in its context.\<close>

lemma greeter_invoke_call:
  assumes t: "t = \<lparr> stubInvoker = Some (greeter_stub (cl_grpc env) (NewGreeterClient c)), triplConn = None, opt = o0 \<rparr>"
      "CodecType o0 = PBCodecName" "log_sink (Logger o0) = Some k" and name: "name \<in> {''SayHello'', ''SayHelloWithError''}"
  shows "\<exists>f. (\<forall>ctx p w. f [VCtx ctx, VPtr p] w = greeter_rpc (cl_grpc env) (Some c) name ctx p w) \<and>
    (\<forall>ins reply w. \<exists>ls. TripleClient_Invoke env t name ins reply w =
      stub_call env (Logger o0) (Some f) ins reply (w\<lparr>logs := logs w @ ls\<rparr>))"
proof -
  obtain f where f: "greeter_stub (cl_grpc env) (NewGreeterClient c) name = Some f"
    and run: "\<And>ctx p w. f [VCtx ctx, VPtr p] w = greeter_rpc (cl_grpc env) (Some c) name ctx p w"
    using greeter_stub_unary [OF name, of "cl_grpc env" "NewGreeterClient c"] by (auto simp: NewGreeterClient_def)
  have "\<exists>ls. TripleClient_Invoke env t name ins reply w =
      stub_call env (Logger o0) (Some f) ins reply (w\<lparr>logs := logs w @ ls\<rparr>)" for ins reply w
    using TripleClient_Invoke_stub [of t k _ name f env ins reply w] f t by simp
  with run show ?thesis by blast
qed

lemma greeter_invoke:
  assumes t: "t = \<lparr> stubInvoker = Some (greeter_stub (cl_grpc env) (NewGreeterClient c)), triplConn = None, opt = o0 \<rparr>"
      "CodecType o0 = PBCodecName" "usable (Logger o0)" and name: "name \<in> {''SayHello'', ''SayHelloWithError''}"
    and key: "ctx_lookup_string ctx InterfaceKey = Some key"
    and copies: "\<And>res s. rpcs (snd (ReflectResponse env res reply s)) = rpcs s"
    and grpc: "ClientConn_Invoke (cl_grpc env) (grpcConn c) (WithTimeout (clock w) ctx (timeout c)) (''/'' @ key @ ''/'' @ name)
        (VPtr p) (VPtr (gfresh (net w))) [] (new_reply (net w)) = (r, n')"
  shows "rpcs (snd (TripleClient_Invoke env t name [VCtx ctx, VPtr p] reply w)) =
      rpcs w @ [(grpcConn c, WithTimeout (clock w) ctx (timeout c), ''/'' @ key @ ''/'' @ name, VPtr p, [])] \<and>
    (case r of
       Inl e \<Rightarrow> fst (TripleClient_Invoke env t name [VCtx ctx, VPtr p] reply w) = Inl e
     | Inr (trailer, Some e) \<Rightarrow> fst (TripleClient_Invoke env t name [VCtx ctx, VPtr p] reply w) =
         Inr (NewErrorWithAttachment (Some e) Map.empty) \<and> net (snd (TripleClient_Invoke env t name [VCtx ctx, VPtr p] reply w)) = n'
     | Inr (trailer, None) \<Rightarrow> \<exists>w2. net w2 = n' \<and>
         net (snd (TripleClient_Invoke env t name [VCtx ctx, VPtr p] reply w)) =
           net (snd (ReflectResponse env (VPtr (gfresh (net w))) reply w2)) \<and>
         fst (TripleClient_Invoke env t name [VCtx ctx, VPtr p] reply w) = Inr (NewErrorWithAttachment
           (reply_error env (fst (ReflectResponse env (VPtr (gfresh (net w))) reply w2))) (attachments_of trailer)))"
proof -
  obtain k where k: "log_sink (Logger o0) = Some k" using t(3) by (auto simp: usable_sink)
  obtain f ls where run: "\<And>ctx p w. f [VCtx ctx, VPtr p] w = greeter_rpc (cl_grpc env) (Some c) name ctx p w"
    and call: "TripleClient_Invoke env t name [VCtx ctx, VPtr p] reply w =
      stub_call env (Logger o0) (Some f) [VCtx ctx, VPtr p] reply (w\<lparr>logs := logs w @ ls\<rparr>)"
    using greeter_invoke_call [OF t(1,2) k name] by metis
  let ?w = "w\<lparr>logs := logs w @ ls\<rparr>"
  from greeter_rpc_run [OF key grpc, of "logs w @ ls"] obtain w' where w': "net w' = n'"
      "rpcs w' = rpcs w @ [(grpcConn c, WithTimeout (clock w) ctx (timeout c), ''/'' @ key @ ''/'' @ name, VPtr p, [])]"
      "f [VCtx ctx, VPtr p] ?w = (case r of Inl e \<Rightarrow> (Inl e, w')
      | Inr (trailer, err) \<Rightarrow> (Inr [VPtr (gfresh (net w)), VErrAtt (NewErrorWithAttachment err (attachments_of trailer))], w'))"
    unfolding run by metis
  show ?thesis
  proof (cases r)
    case (Inl e)
    then show ?thesis using stub_call_panics [where f = f] w' by (simp add: call)
  next
    case (Inr q)
    obtain trailer err where q: "q = (trailer, err)" by force
    from stub_call_err_att [where f = f and reply = reply, OF k w'(3) [unfolded Inr q sum.case prod.case] copies]
    show ?thesis by (auto simp: call Inr q w' split: option.split)
  qed
qed

text \<open>The client that the constructor builds around the stub.\<close>

lemma greeter_client_built:
  assumes "NewTripleClient env (GreeterClientImpl_GetDubboStub (cl_grpc env)) (Some o0) w0 = (Inr (Some t, None), w1)"
    and "CodecType o0 = PBCodecName" "usable (Logger o0)"
  shows "\<exists>d. dials w1 = dials w0 @ [d] \<and> t = \<lparr> stubInvoker = Some (greeter_stub (cl_grpc env) (NewGreeterClient
      \<lparr> timeout = Timeout o0, grpcConn = fst (DialContext (cl_grpc env) (fst d) (fst (snd d)) (snd (snd d))) \<rparr>)),
      triplConn = None, opt = o0 \<rparr>"
proof -
  obtain k where k: "log_sink (Logger o0) = Some k" using assms(3) by (auto simp: usable_sink)
  obtain creds err where c: "getClientTlsCertificate (cl_tls env) o0 = (creds, err)" by force
  have o0: "effective_option (Some o0) = o0" by (simp add: effective_option_def)
  show ?thesis
  proof (cases err)
    case (Some e)
    then show ?thesis using assms(1) NewTripleClient_tls_error [OF o0 c [unfolded Some] k] by simp
  next
    case None
    show ?thesis
      using assms(1,2)
      by (auto simp: NewTripleClient_dials [OF o0 c [unfolded None]] Let_def getInvoker_def
          GreeterClientImpl_GetDubboStub_def go_simps)
  qed
qed

section \<open>Facts: the handlers\<close>

definition greeter_method :: "string \<Rightarrow> 'm GreeterServer \<Rightarrow> 'm greeter_method" where
  "greeter_method name = (if name = ''SayHello'' then gs_SayHello else gs_SayHelloWithError)"

text \<open>What the descriptor's entry for a method runs.\<close>

lemma descriptor_handler:
  assumes "(name, ForeignHandler n) \<in> set (Methods Greeter_ServiceDesc)" "handler_of n = Some h"
  shows "h = greeter_handler name (''/main.Greeter/'' @ name) (greeter_method name)"
  using assms
  by (auto simp: Greeter_ServiceDesc_def handler_of_def greeter_method_def Greeter_SayHello_Handler_def
      Greeter_SayHelloWithError_Handler_def)

text \<open>The server's store once the request object is there.\<close>

definition new_request :: "'m gstore \<Rightarrow> 'm gstore" where
  "new_request s = s\<lparr>greqs := (greqs s)(gfresh s \<mapsto> zero_HelloRequest), gfresh := Suc (gfresh s)\<rparr>"

lemma greeter_handler_run:
  assumes "as_Dubbo3GrpcService srv = Some base" "dec (VPtr (gfresh (ext ts))) (new_request (ext ts)) = (Inr err, s1)"
  shows "greeter_handler name full method srv ctx dec icpt ts =
    (if err \<noteq> None then (Inr (VNil, err), ts\<lparr>ext := s1\<rparr>)
     else (case icpt of
        None \<Rightarrow> (case base of None \<Rightarrow> (Inl NilDereference, ts\<lparr>ext := s1\<rparr>)
          | Some invoker \<Rightarrow> lift_tw (invoker ctx name [VPtr (gfresh (ext ts))]) (ts\<lparr>ext := s1\<rparr>))
      | Some i \<Rightarrow> i ctx (VPtr (gfresh (ext ts))) full (direct_handler method srv) (ts\<lparr>ext := s1\<rparr>)))"
  using assms
  by (auto simp: greeter_handler_def go_simps lift_tw_run new_request_def split: option.split)

lemma direct_handler_run:
  assumes "as_GreeterServer srv = Some g" "greqs s p \<noteq> None"
  shows "direct_handler meth srv ctx (VPtr p) s =
    (case meth g ctx (Some p) s of
       (Inl e, s') \<Rightarrow> (Inl e, s')
     | (Inr (usr, err), s') \<Rightarrow> (Inr (ptr_val usr, err), s'))"
  using assms by (auto simp: direct_handler_def go_simps split: prod.split sum.split)

text \<open>With the tracing interceptor the descriptor's handler calls the provider under a span.\<close>

lemma handler_traced:
  assumes entry: "(name, ForeignHandler n) \<in> set (Methods Greeter_ServiceDesc)" "handler_of n = Some handler"
    and srv: "as_Dubbo3GrpcService srv = Some base" "as_GreeterServer srv = Some g"
    and dec: "dec (VPtr (gfresh (ext ts))) (new_request (ext ts)) = (Inr None, s1)" "greqs s1 (gfresh (ext ts)) \<noteq> None"
    and run: "greeter_method name g (ContextWithSpan env ctx (next_span ts)) (Some (gfresh (ext ts))) s1 = (Inr (usr, err), s2)"
  shows "handler srv ctx dec (Some (OpenTracingServerInterceptor env [])) ts =
      (Inr (ptr_val usr, err), ts\<lparr>trace := trace ts @
         [StartSpan (next_span ts) (''/main.Greeter/'' @ name)
            [RPCServerOption (fst (extractSpanContext env ctx)), gRPCComponentTag],
          CallNext (ContextWithSpan env ctx (next_span ts)) (VPtr (gfresh (ext ts)))] @
         failure_events env (next_span ts) err False @ [FinishSpan (next_span ts)],
       next_span := Suc (next_span ts), ext := s2\<rparr>)"
proof -
  have "direct_handler (greeter_method name) srv (ContextWithSpan env ctx (next_span ts)) (VPtr (gfresh (ext ts))) s1 =
      (Inr (ptr_val usr, err), s2)"
    using run by (simp add: direct_handler_run [where meth = "greeter_method name", OF srv(2) dec(2)])
  then show ?thesis
    by (simp add: descriptor_handler [OF entry] greeter_handler_run [where dec = dec and ts = ts, OF srv(1) dec(1)]
        OpenTracingServerInterceptor_def Let_def go_simps run_simps failure_events_def finish_span_def split: option.split)
qed

section \<open>Properties\<close>

text \<open>C23: A call through the generated stub, from the constructor to gRPC. A protobuf client built
  with the greeter's stub makes exactly one RPC per call of a unary method, on the connection that was
  dialled, to \<open>/interface/method\<close>, with the caller's request and under the option's timeout; gRPC is
  given a freshly allocated response. A panic of gRPC comes out as it is, an error without its
  attachments, and on success the trailer becomes the attachments and only a panic while the response is
  copied can fail the call. Without an interface key in the context the call panics and no RPC is made.\<close>

theorem greeter_call_through_client:
  fixes w :: "'m gstore kworld"
  assumes built: "NewTripleClient env (GreeterClientImpl_GetDubboStub (cl_grpc env)) (Some o0) w0 = (Inr (Some t, None), w1)"
      "CodecType o0 = PBCodecName" "usable (Logger o0)"
    and dial: "dials w1 = dials w0 @ [(dctx, addr, dopts)]" "DialContext (cl_grpc env) dctx addr dopts = (conn, derr)"
    and name: "name \<in> {''SayHello'', ''SayHelloWithError''}"
    and key: "ctx_lookup_string ctx InterfaceKey = Some key" "ctx_lookup_string ctx0 InterfaceKey = None"
    and copies: "\<And>res s. rpcs (snd (ReflectResponse env res reply s)) = rpcs s"
    and grpc: "ClientConn_Invoke (cl_grpc env) conn (WithTimeout (clock w) ctx (Timeout o0)) (''/'' @ key @ ''/'' @ name)
        (VPtr p) (VPtr (gfresh (net w))) [] (new_reply (net w)) = (r, n')"
  shows "rpcs (snd (TripleClient_Invoke env t name [VCtx ctx, VPtr p] reply w)) =
      rpcs w @ [(conn, WithTimeout (clock w) ctx (Timeout o0), ''/'' @ key @ ''/'' @ name, VPtr p, [])] \<and>
    (case r of
       Inl e \<Rightarrow> fst (TripleClient_Invoke env t name [VCtx ctx, VPtr p] reply w) = Inl e
     | Inr (trailer, Some e) \<Rightarrow> fst (TripleClient_Invoke env t name [VCtx ctx, VPtr p] reply w) =
         Inr (NewErrorWithAttachment (Some e) Map.empty) \<and> net (snd (TripleClient_Invoke env t name [VCtx ctx, VPtr p] reply w)) = n'
     | Inr (trailer, None) \<Rightarrow> \<exists>w2. net w2 = n' \<and>
         net (snd (TripleClient_Invoke env t name [VCtx ctx, VPtr p] reply w)) =
           net (snd (ReflectResponse env (VPtr (gfresh (net w))) reply w2)) \<and>
         fst (TripleClient_Invoke env t name [VCtx ctx, VPtr p] reply w) = Inr (NewErrorWithAttachment
           (reply_error env (fst (ReflectResponse env (VPtr (gfresh (net w))) reply w2))) (attachments_of trailer))) \<and>
    fst (TripleClient_Invoke env t name [VCtx ctx0, VPtr p] reply w) = Inl BadTypeAssertion \<and>
    rpcs (snd (TripleClient_Invoke env t name [VCtx ctx0, VPtr p] reply w)) = rpcs w"
proof -
  let ?c = "\<lparr> timeout = Timeout o0, grpcConn = conn \<rparr>"
  have t: "t = \<lparr> stubInvoker = Some (greeter_stub (cl_grpc env) (NewGreeterClient ?c)), triplConn = None, opt = o0 \<rparr>"
    using greeter_client_built [OF built] dial by auto
  obtain k where k: "log_sink (Logger o0) = Some k" using built(3) by (auto simp: usable_sink)
  obtain f ls where run: "\<And>ctx p w. f [VCtx ctx, VPtr p] w = greeter_rpc (cl_grpc env) (Some ?c) name ctx p w"
    and call: "TripleClient_Invoke env t name [VCtx ctx0, VPtr p] reply w =
      stub_call env (Logger o0) (Some f) [VCtx ctx0, VPtr p] reply (w\<lparr>logs := logs w @ ls\<rparr>)"
    using greeter_invoke_call [OF t built(2) k name] by metis
  have "TripleClient_Invoke env t name [VCtx ctx0, VPtr p] reply w =
      (Inl BadTypeAssertion, w\<lparr>logs := logs w @ ls, net := new_reply (net w)\<rparr>)"
    unfolding call by (rule stub_call_panics) (simp add: run greeter_rpc_def key(2))
  with greeter_invoke [OF t built(2,3) name key(1) copies, of w p r n'] grpc show ?thesis by simp
qed

text \<open>C24: Who serves a generated method. Without an interceptor the handler passes the decoded request
  to the framework's proxy, and the provider's method is called only from there; with the tracing
  interceptor that the server installs for a Jaeger address, it calls the provider's method directly under
  the span's context and the proxy plays no role, so tracing a server takes the framework out of the call.
  The span is named after the descriptor's original service name, not after the key under which the
  service was registered. A request that cannot be decoded reaches neither.\<close>

theorem greeter_handler_dispatch:
  assumes entry: "(name, ForeignHandler n) \<in> set (Methods Greeter_ServiceDesc)" "handler_of n = Some handler"
    and srv: "as_Dubbo3GrpcService srv = Some (Some invoker)" "as_GreeterServer srv = Some g"
    and dec: "dec (VPtr (gfresh (ext ts))) (new_request (ext ts)) = (Inr None, s1)" "greqs s1 (gfresh (ext ts)) \<noteq> None"
      "bad_dec (VPtr (gfresh (ext ts))) (new_request (ext ts)) = (Inr (Some e), s0)"
    and run: "greeter_method name g (ContextWithSpan env ctx (next_span ts)) (Some (gfresh (ext ts))) s1 = (Inr (usr, err), s2)"
  shows "handler srv ctx dec None ts =
      (fst (invoker ctx name [VPtr (gfresh (ext ts))] s1), ts\<lparr>ext := snd (invoker ctx name [VPtr (gfresh (ext ts))] s1)\<rparr>) \<and>
    handler srv ctx dec (Some (OpenTracingServerInterceptor env [])) ts =
      (Inr (ptr_val usr, err), ts\<lparr>trace := trace ts @
         [StartSpan (next_span ts) (''/main.Greeter/'' @ name)
            [RPCServerOption (fst (extractSpanContext env ctx)), gRPCComponentTag],
          CallNext (ContextWithSpan env ctx (next_span ts)) (VPtr (gfresh (ext ts)))] @
         failure_events env (next_span ts) err False @ [FinishSpan (next_span ts)],
       next_span := Suc (next_span ts), ext := s2\<rparr>) \<and>
    handler srv ctx bad_dec icpt ts = (Inr (VNil, Some e), ts\<lparr>ext := s0\<rparr>)"
  using handler_traced [where dec = dec and ts = ts, OF entry srv dec(1,2) run]
  by (simp add: descriptor_handler [OF entry] greeter_handler_run [where dec = dec and ts = ts, OF srv(1) dec(1)]
      greeter_handler_run [where dec = bad_dec and ts = ts, OF srv(1) dec(3)] lift_tw_run)

section \<open>Concrete runs\<close>

text \<open>A client whose gRPC fills in the response, and a process in which nothing has happened.\<close>

definition gstore0 :: "nat gstore" where
  "gstore0 = \<lparr> greqs = Map.empty, gusers = Map.empty, gfresh = 0, gevents = [], below = 0 \<rparr>"

definition greeter_grpc :: "nat gstore grpc_env" where
  "greeter_grpc =
     \<lparr> DialContext = (\<lambda>ctx addr opts. (Some 5, None)),
       ClientConn_Invoke = (\<lambda>conn ctx method args reply opts s. case reply of
           VPtr out \<Rightarrow> (Inr ([(''trace'', [''t''])], None),
             s\<lparr>gusers := (gusers s)(out \<mapsto> \<lparr>user_Name = ''laurence'', user_Id = ''12345'', user_Age = 21\<rparr>)\<rparr>)
         | _ \<Rightarrow> (Inr ([], Some EOF), s)),
       NewClientStream = (\<lambda>ctx conn method opts s. (Inr (Some 9, None), s)) \<rparr>"

definition greeter_client_env :: "nat gstore client_env" where
  "greeter_client_env =
     \<lparr> cl_grpc = greeter_grpc, cl_tls = sample_tls, cl_udp = (\<lambda>a n. (None, Some (ForeignError 3))),
       ReflectResponse = (\<lambda>res reply w. (Inr None, w)), fmt_panic = (\<lambda>p. ''bad reply'') \<rparr>"

definition greeter_kworld :: "nat gstore kworld" where
  "greeter_kworld =
     \<lparr> logs = [], grpcCodecs = [], codecFactoryMap = Map.empty, codecInWrapperSerializerTypeMap = Map.empty,
       clock = 1000, cancels = [], dials = [], rpcs = [], closes = [], net = gstore0 \<rparr>"

definition greeter_client :: "nat gstore TripleClient" where
  "greeter_client = \<lparr> stubInvoker = Some (greeter_stub greeter_grpc
       (NewGreeterClient \<lparr> timeout = DefaultTimeout, grpcConn = Some 5 \<rparr>)),
     triplConn = None, opt = NewTripleOption [] \<rparr>"

lemma default_no_tls: "getClientTlsCertificate env (NewTripleOption []) = (None, None)"
  by (simp add: getClientTlsCertificate_def NewTripleOption_def zero_option_def)

lemma default_timeout [simp]: "Timeout (NewTripleOption []) = DefaultTimeout"
  by (simp add: NewTripleOption_def zero_option_def)

theorem greeter_call_through_client_witness:
  "fst (TripleClient_Invoke greeter_client_env greeter_client ''SayHello''
      [VCtx (ctx_string InterfaceKey ''org.apache.dubbo.IGreeter'' Background), VPtr 3] (VPtr 4) greeter_kworld) =
     Inr (NewErrorWithAttachment None (attachments_of [(''trace'', [''t''])])) \<and>
   rpcs (snd (TripleClient_Invoke greeter_client_env greeter_client ''SayHello''
      [VCtx (ctx_string InterfaceKey ''org.apache.dubbo.IGreeter'' Background), VPtr 3] (VPtr 4) greeter_kworld)) =
     [(Some 5, WithTimeout 1000 (ctx_string InterfaceKey ''org.apache.dubbo.IGreeter'' Background) DefaultTimeout,
       ''/org.apache.dubbo.IGreeter/SayHello'', VPtr 3, [])]"
proof -
  let ?key = "''org.apache.dubbo.IGreeter''"
  let ?ctx = "ctx_string InterfaceKey ?key Background"
  let ?env = greeter_client_env
  have opt: "effective_option (Some (NewTripleOption [])) = NewTripleOption []" by (simp add: effective_option_def)
  obtain w1 dctx addr dopts where built: "NewTripleClient ?env (GreeterClientImpl_GetDubboStub (cl_grpc ?env))
      (Some (NewTripleOption [])) greeter_kworld = (Inr (Some greeter_client, None), w1)"
      "dials w1 = dials greeter_kworld @ [(dctx, addr, dopts)]"
    by (simp add: NewTripleClient_dials [OF opt default_no_tls] Let_def getInvoker_def
        GreeterClientImpl_GetDubboStub_def greeter_client_def greeter_client_env_def greeter_grpc_def go_simps)
  have env: "cl_grpc ?env = greeter_grpc" "\<And>a b s. ReflectResponse ?env a b s = (Inr None, s)"
    by (simp_all add: greeter_client_env_def)
  have w: "clock greeter_kworld = 1000" "rpcs greeter_kworld = []" "gfresh (net greeter_kworld) = 0"
    by (simp_all add: greeter_kworld_def gstore0_def)
  obtain n' where grpc: "ClientConn_Invoke (cl_grpc ?env) (Some 5) (WithTimeout (clock greeter_kworld) ?ctx
      (Timeout (NewTripleOption []))) (''/'' @ ?key @ ''/'' @ ''SayHello'') (VPtr 3) (VPtr (gfresh (net greeter_kworld))) []
      (new_reply (net greeter_kworld)) = (Inr ([(''trace'', [''t''])], None), n')"
    by (simp add: env greeter_grpc_def)
  have dial: "DialContext (cl_grpc ?env) dctx addr dopts = (Some 5, None)" by (simp add: env greeter_grpc_def)
  have key: "ctx_lookup_string ?ctx InterfaceKey = Some ?key" "ctx_lookup_string Background InterfaceKey = None"
    by (rule ctxstore.lookup_insert_same) (simp add: ctx_lookup_string_def)
  have copies: "rpcs (snd (ReflectResponse ?env res (VPtr 4) s)) = rpcs s" for res s by (simp add: env)
  show ?thesis
    using greeter_call_through_client [OF built(1) _ _ built(2) dial _ key copies grpc]
    by (auto simp: env w reply_error_def)
qed

text \<open>A service nobody implemented, whose proxy counts its calls.\<close>

definition counting_srv :: "nat srv_value" where
  "counting_srv = XXX_SetProxyImpl
     (Some (\<lambda>ctx name args s. (Inr (VString name, None), s\<lparr>below := Suc (below s)\<rparr>)))
     \<lparr> as_Dubbo3GrpcService = None, as_GreeterServer = Some UnimplementedGreeterServer \<rparr>"

theorem greeter_handler_dispatch_witness:
  "Greeter_SayHello_Handler counting_srv Background (\<lambda>v s. (Inr None, s)) None
      \<lparr>trace = [], next_span = 0, ext = gstore0\<rparr> =
     (Inr (VString ''SayHello'', None),
      \<lparr>trace = [], next_span = 0, ext = (new_request gstore0)\<lparr>below := Suc 0\<rparr>\<rparr>) \<and>
   fst (Greeter_SayHello_Handler counting_srv Background (\<lambda>v s. (Inr None, s)) (Some (OpenTracingServerInterceptor sample_env []))
      \<lparr>trace = [], next_span = 0, ext = gstore0\<rparr>) =
     Inr (VNil, Some (StatusError codes_Unimplemented ''method SayHello not implemented''))"
  using greeter_handler_dispatch [where name = "''SayHello''" and n = 0 and handler = Greeter_SayHello_Handler
      and srv = counting_srv and invoker = "\<lambda>ctx name args s. (Inr (VString name, None), s\<lparr>below := Suc (below s)\<rparr>)"
      and g = UnimplementedGreeterServer and dec = "\<lambda>v s. (Inr None, s)" and bad_dec = "\<lambda>v s. (Inr (Some EOF), s)"
      and ts = "\<lparr>trace = [], next_span = 0, ext = gstore0\<rparr>" and ?s1.0 = "new_request gstore0" and ?s0.0 = "new_request gstore0"
      and ?s2.0 = "new_request gstore0" and e = EOF and env = sample_env and ctx = Background and usr = None
      and err = "Some (StatusError codes_Unimplemented ''method SayHello not implemented'')" and icpt = None]
  by (simp add: Greeter_ServiceDesc_def handler_of_def counting_srv_def XXX_SetProxyImpl_def greeter_method_def
      UnimplementedGreeterServer_def new_request_def gstore0_def ptr_val_def)

end
