(* ===== verification/Schedules.thy ===== *)
theory Schedules
  imports Main
begin

text \<open>
  Transition systems whose steps are functions: \<open>step l s\<close> is the state after the party named by the label
  \<open>l\<close> has taken its next action, or \<open>None\<close> while it cannot. A schedule is a list of labels. The two processes
  of the example are such systems; the locales state what they have to prove about single steps to get
  statements about all schedules.
\<close>

primrec run_schedule :: "('l \<Rightarrow> 's \<Rightarrow> 's option) \<Rightarrow> 'l list \<Rightarrow> 's \<Rightarrow> 's option" where
  "run_schedule step [] s = Some s"
| "run_schedule step (l # ls) s = Option.bind (step l s) (run_schedule step ls)"

lemma run_schedule_append:
  "run_schedule step (ls @ ls') s = Option.bind (run_schedule step ls s) (run_schedule step ls')"
  by (induction ls arbitrary: s) (auto split: bind_splits)

text \<open>An invariant: every step keeps it, so every schedule does.\<close>

locale step_invariant =
  fixes step :: "'l \<Rightarrow> 's \<Rightarrow> 's option" and inv :: "'s \<Rightarrow> bool"
  assumes step_keeps: "step l s = Some s' \<Longrightarrow> inv s \<Longrightarrow> inv s'"
begin

lemma run_keeps: "run_schedule step ls s = Some s' \<Longrightarrow> inv s \<Longrightarrow> inv s'"
  by (induction ls arbitrary: s) (auto split: bind_splits dest: step_keeps)

end

text \<open>A variant: under the invariant every step takes the state closer to its end, so a schedule can only be
  so long.\<close>

locale step_variant = step_invariant +
  fixes left :: "'s \<Rightarrow> nat"
  assumes step_decreases: "step l s = Some s' \<Longrightarrow> inv s \<Longrightarrow> left s' < left s"
begin

lemma run_bounded:
  assumes "run_schedule step ls s = Some s'" "inv s"
  shows "length ls + left s' \<le> left s"
  using assms
proof (induction ls arbitrary: s)
  case (Cons l ls)
  then obtain s1 where s1: "step l s = Some s1" "run_schedule step ls s1 = Some s'" by (auto split: bind_splits)
  with Cons step_keeps have "length ls + left s' \<le> left s1" by blast
  with step_decreases [OF s1(1) Cons.prems(2)] show ?case by simp
qed simp

end

end
