(* ===== verification/Example_Server.thy ===== *)
theory Example_Server
  imports Greeter Schedules
begin

text \<open>
  \<open>src/example/dubbo/go-server/cmd/server.go\<close>: the provider of the greeter service, and the server
  process from \<open>init\<close> to its exit.

  The process is a transition system: the main goroutine, the timer that \<open>time.AfterFunc\<close> starts, the
  clock and the operating system's signals take turns in any order. The channel of \<open>signal.Notify\<close>
  holds one signal; a signal that finds it full is dropped. Before \<open>Notify\<close> a signal has its default
  action, and SIGKILL always has. The framework's \<open>config.Load\<close> may panic; whether it does is an
  argument. \<open>got\<close> remembers which signals were received and when; the code keeps no such list.
\<close>

section \<open>The provider\<close>

definition newline :: string where
  "newline = [CHR 0x0A]"

definition second :: i64 where
  "second = 1000000000"

definition GreeterProvider_SayHelloStream :: "'m gstore msg_stream \<Rightarrow> ('m gstore, goerror option) go" where
  "GreeterProvider_SayHelloStream svr =
     go_bind (greeterSayHelloStreamServer_Recv svr) (\<lambda>(c, err).
       if err \<noteq> None then go_return err
       else go_bind (load_HelloRequest c) (\<lambda>req.
         go_then (say (LogInfof (''Dubbo-go3 GreeterProvider recv 1 user, name = %s'' @ newline) [ArgText (hello_Name req)]))
         (go_bind (alloc_User \<lparr> user_Name = ''hello '' @ hello_Name req, user_Id = ''123456789'', user_Age = 18 \<rparr>) (\<lambda>u.
          go_bind (greeterSayHelloStreamServer_Send svr (Some u)) (\<lambda>err.
            if err \<noteq> None then go_return err else go_return None)))))"

text \<open>The name is part of the format string of the first line.\<close>

definition GreeterProvider_SayHello :: "Ctx \<Rightarrow> nat option \<Rightarrow> ('m gstore, nat option \<times> goerror option) go" where
  "GreeterProvider_SayHello ctx inp =
     go_bind (load_HelloRequest inp) (\<lambda>req.
     go_then (say (LogInfof (''Dubbo3 GreeterProvider get user name = %s'' @ newline @ hello_Name req) []))
     (go_then (say (Println [ArgText ''get triple header tri-req-id = '', ArgVal (ctx_Value ctx (TripleCtxKey TripleRequestID))]))
     (go_then (say (Sleep (second * 1)))
     (go_then (say (Println [ArgText ''get triple header tri-service-version = '',
        ArgVal (ctx_Value ctx (TripleCtxKey TripleServiceVersion))]))
     (go_bind (load_HelloRequest inp) (\<lambda>req.
      go_bind (alloc_User \<lparr> user_Name = hello_Name req, user_Id = ''12345'', user_Age = 21 \<rparr>) (\<lambda>u.
        go_return (Some u, None))))))))"

definition GreeterProvider_SayHelloWithError ::
    "Ctx \<Rightarrow> nat option \<Rightarrow> ('m gstore, nat option \<times> goerror option) go" where
  "GreeterProvider_SayHelloWithError ctx inp =
     go_bind (load_HelloRequest inp) (\<lambda>req.
     go_then (say (LogInfof (''Dubbo3 GreeterProvider get user name = %s'' @ newline @ hello_Name req) []))
     (go_then (say (Println [ArgText ''get triple header tri-req-id = '', ArgVal (ctx_Value ctx (TripleCtxKey TripleRequestID))]))
     (go_then (say (Sleep (second * 1)))
     (let err = PkgError ''user defined error'' in
      go_then (say (Println [ArgText ''get triple header tri-service-version = '',
        ArgVal (ctx_Value ctx (TripleCtxKey TripleServiceVersion))]))
     (go_bind (load_HelloRequest inp) (\<lambda>req.
      go_bind (alloc_User \<lparr> user_Name = hello_Name req, user_Id = ''12345'', user_Age = 21 \<rparr>) (\<lambda>u.
        go_return (Some u, Some err))))))))"

text \<open>The provider embeds \<open>UnimplementedGreeterServer\<close> and overrides all of its methods.\<close>

definition GreeterProvider :: "'m GreeterServer" where
  "GreeterProvider = UnimplementedGreeterServer
     \<lparr> gs_SayHelloStream := GreeterProvider_SayHelloStream,
       gs_SayHello := GreeterProvider_SayHello,
       gs_SayHelloWithError := GreeterProvider_SayHelloWithError \<rparr>"

section \<open>The process\<close>

definition survivalTimeout :: i64 where
  "survivalTimeout = 3 * second"

datatype os_signal = SIGHUP | SIGINT | SIGQUIT | SIGTERM | SIGKILL

fun signal_String :: "os_signal \<Rightarrow> string" where
  "signal_String SIGHUP = ''hangup''"
| "signal_String SIGINT = ''interrupt''"
| "signal_String SIGQUIT = ''quit''"
| "signal_String SIGTERM = ''terminated''"
| "signal_String SIGKILL = ''killed''"

datatype exit_status = Exited int | Killed os_signal | Panicked panic

text \<open>Where the main goroutine is: \<open>init\<close>, the statements of \<open>main\<close>, those of \<open>initSignal\<close>.\<close>

datatype server_pc =
    InitProfile | SetProvider | GoHttp | LoadConfig
  | Notify | Receive | Asleep int | StartTimer | PrintExit | ReturnMain

datatype timer_state = Unarmed | Armed int | Firing

record server_proc =
  pc :: server_pc
  mutex_profile :: int
  provider_set :: bool
  http_addr :: "string option"
  config_loaded :: bool
  notified :: bool
  signals :: "os_signal list"
  now :: int
  timer :: timer_state
  out :: "gevent list"
  got :: "(os_signal \<times> int) list"
  status :: "exit_status option"

definition server_proc0 :: server_proc where
  "server_proc0 = \<lparr> pc = InitProfile, mutex_profile = 0, provider_set = False, http_addr = None, config_loaded = False,
     notified = False, signals = [], now = 0, timer = Unarmed, out = [], got = [], status = None \<rparr>"

text \<open>One statement of \<open>initSignal\<close>; \<open>None\<close> while it blocks.\<close>

definition initSignal_step :: "server_proc \<Rightarrow> server_proc option" where
  "initSignal_step p =
     (case pc p of
        Notify \<Rightarrow> Some (p\<lparr>notified := True, pc := Receive\<rparr>)
      | Receive \<Rightarrow>
          (case signals p of
             [] \<Rightarrow> None
           | sig # rest \<Rightarrow>
               (let p1 = p\<lparr>signals := rest, got := got p @ [(sig, now p)],
                      out := out p @ [LogInfof ''get signal %s'' [ArgText (signal_String sig)]]\<rparr>
                in Some (if sig = SIGHUP then p1
                         else p1\<lparr>pc := Asleep (now p + sint (second * 5)), out := out p1 @ [Sleep (second * 5)]\<rparr>)))
      | Asleep t \<Rightarrow> if t \<le> now p then Some (p\<lparr>pc := StartTimer\<rparr>) else None
      | StartTimer \<Rightarrow> Some (p\<lparr>timer := Armed (now p + sint survivalTimeout), pc := PrintExit\<rparr>)
      | PrintExit \<Rightarrow> Some (p\<lparr>out := out p @ [Println [ArgText ''provider app exit now...'']], pc := ReturnMain\<rparr>)
      | _ \<Rightarrow> None)"

text \<open>\<open>init\<close> and \<open>main\<close> around it. When \<open>main\<close> returns the process exits with status 0.\<close>

definition server_main_step :: "panic option \<Rightarrow> server_proc \<Rightarrow> server_proc option" where
  "server_main_step load p =
     (case pc p of
        InitProfile \<Rightarrow> Some (p\<lparr>mutex_profile := 1, pc := SetProvider\<rparr>)
      | SetProvider \<Rightarrow> Some (p\<lparr>provider_set := True, pc := GoHttp\<rparr>)
      | GoHttp \<Rightarrow> Some (p\<lparr>http_addr := Some ''0.0.0.0:6060'', pc := LoadConfig\<rparr>)
      | LoadConfig \<Rightarrow> Some (case load of
            None \<Rightarrow> p\<lparr>config_loaded := True, pc := Notify\<rparr>
          | Some e \<Rightarrow> p\<lparr>status := Some (Panicked e)\<rparr>)
      | ReturnMain \<Rightarrow> Some (p\<lparr>status := Some (Exited 0)\<rparr>)
      | _ \<Rightarrow> initSignal_step p)"

text \<open>The function given to \<open>AfterFunc\<close>: log, then exit with status 1.\<close>

definition timer_step :: "server_proc \<Rightarrow> server_proc option" where
  "timer_step p =
     (case timer p of
        Unarmed \<Rightarrow> None
      | Armed t \<Rightarrow> if t \<le> now p
          then Some (p\<lparr>timer := Firing, out := out p @ [LogWarnf ''app exit now by force...'' []]\<rparr>) else None
      | Firing \<Rightarrow> Some (p\<lparr>status := Some (Exited 1)\<rparr>))"

definition deliver :: "os_signal \<Rightarrow> server_proc \<Rightarrow> server_proc" where
  "deliver sig p =
     (if sig = SIGKILL \<or> \<not> notified p then p\<lparr>status := Some (Killed sig)\<rparr>
      else if signals p = [] then p\<lparr>signals := [sig]\<rparr> else p)"

datatype label = Main | Timer | Deliver os_signal | Tick nat

definition proc_step :: "panic option \<Rightarrow> label \<Rightarrow> server_proc \<Rightarrow> server_proc option" where
  "proc_step load l p =
     (if status p \<noteq> None then None
      else (case l of
         Main \<Rightarrow> server_main_step load p
       | Timer \<Rightarrow> timer_step p
       | Deliver sig \<Rightarrow> Some (deliver sig p)
       | Tick d \<Rightarrow> Some (p\<lparr>now := now p + int d\<rparr>)))"

inductive proc_steps :: "panic option \<Rightarrow> server_proc \<Rightarrow> label list \<Rightarrow> server_proc \<Rightarrow> bool" for load where
  proc_start: "proc_steps load p [] p"
| proc_snoc: "proc_steps load p ls p' \<Longrightarrow> proc_step load l p' = Some p'' \<Longrightarrow> proc_steps load p (ls @ [l]) p''"

inductive_cases proc_steps_nilE: "proc_steps load p [] p'"
inductive_cases proc_steps_snocE: "proc_steps load p (ls @ [l]) p'"

section \<open>Facts: the process\<close>

lemma durations [simp]:
  "sint (second * 5) = 5000000000" "sint (5 * second) = 5000000000" "sint survivalTimeout = 3000000000"
  by (simp_all add: second_def survivalTimeout_def)

definition hangups :: "(os_signal \<times> int) list \<Rightarrow> bool" where
  "hangups gs \<longleftrightarrow> (\<forall>(sig, t) \<in> set gs. sig = SIGHUP)"

text \<open>The signal that ends the wait was received at \<open>t0\<close>; before it there were only hangups.\<close>

definition stopping :: "int \<Rightarrow> server_proc \<Rightarrow> bool" where
  "stopping t0 p \<longleftrightarrow> (\<exists>hs sig. got p = hs @ [(sig, t0)] \<and> hangups hs \<and> sig \<noteq> SIGHUP)"

definition timed :: "server_proc \<Rightarrow> bool" where
  "timed p \<longleftrightarrow> (\<exists>t0 a. stopping t0 p \<and> t0 + 5000000000 \<le> a \<and> a \<le> now p \<and>
     (timer p = Armed (a + 3000000000) \<or> timer p = Firing \<and> a + 3000000000 \<le> now p))"

definition farewell :: gevent where
  "farewell = Println [ArgText ''provider app exit now...'']"

definition phase_ok :: "server_proc \<Rightarrow> bool" where
  "phase_ok p =
     (case pc p of
        Receive \<Rightarrow> notified p \<and> hangups (got p) \<and> timer p = Unarmed
      | Asleep t \<Rightarrow> notified p \<and> stopping (t - 5000000000) p \<and> timer p = Unarmed
      | StartTimer \<Rightarrow> notified p \<and> (\<exists>t0. stopping t0 p \<and> t0 + 5000000000 \<le> now p) \<and> timer p = Unarmed
      | PrintExit \<Rightarrow> notified p \<and> timed p
      | ReturnMain \<Rightarrow> notified p \<and> timed p \<and> farewell \<in> set (out p)
      | _ \<Rightarrow> \<not> notified p \<and> got p = [] \<and> timer p = Unarmed)"

definition status_ok :: "panic option \<Rightarrow> server_proc \<Rightarrow> bool" where
  "status_ok load p =
     (case status p of
        None \<Rightarrow> True
      | Some (Exited c) \<Rightarrow> c = 0 \<and> pc p = ReturnMain \<or> c = 1 \<and> timer p = Firing
      | Some (Killed sig) \<Rightarrow> sig = SIGKILL \<or> \<not> notified p
      | Some (Panicked e) \<Rightarrow> load = Some e \<and> pc p = LoadConfig)"

lemmas server_phase_defs = phase_ok_def stopping_def hangups_def farewell_def

lemma timed_other_fields [simp]:
  "timed (p\<lparr>out := x\<rparr>) = timed p" "timed (p\<lparr>pc := l\<rparr>) = timed p" "timed (p\<lparr>status := e\<rparr>) = timed p"
  "timed (p\<lparr>signals := g\<rparr>) = timed p"
  by (simp_all add: timed_def stopping_def)

lemma timed_start:
  "stopping t0 p \<Longrightarrow> t0 + 5000000000 \<le> now p \<Longrightarrow> timed (p\<lparr>timer := Armed (now p + 3000000000)\<rparr>)"
  unfolding timed_def by (intro exI [of _ t0] exI [of _ "now p"]) (simp add: stopping_def)

lemma phase_ok_main:
  assumes "server_main_step load p = Some p'" "phase_ok p"
  shows "phase_ok p'"
proof (cases "pc p = StartTimer")
  case True
  with assms have "timed (p\<lparr>timer := Armed (now p + 3000000000)\<rparr>)"
    by (auto simp: phase_ok_def intro: timed_start)
  moreover have "p' = p\<lparr>timer := Armed (now p + 3000000000), pc := PrintExit\<rparr>"
    using assms(1) True by (simp add: server_main_step_def initSignal_step_def)
  ultimately show ?thesis using assms(2) True by (simp add: phase_ok_def)
next
  case False
  with assms show ?thesis
    by (cases "pc p")
      (auto simp: server_main_step_def initSignal_step_def server_phase_defs Let_def split: list.splits if_splits option.splits)
qed

lemma phase_ok_timer:
  assumes "timer_step p = Some p'" "phase_ok p"
  shows "phase_ok p'"
proof (cases "timer p")
  case (Armed t)
  then have p': "p' = p\<lparr>timer := Firing, out := out p @ [LogWarnf ''app exit now by force...'' []]\<rparr>" "t \<le> now p"
    using assms(1) by (auto simp: timer_step_def split: if_splits)
  have "timed p'" if "timed p"
    using that Armed p' by (auto simp: timed_def stopping_def)
  then show ?thesis
    using assms(2) Armed p' by (cases "pc p") (auto simp: phase_ok_def)
next
  case Firing
  then have "p' = p\<lparr>status := Some (Exited 1)\<rparr>" using assms(1) by (simp add: timer_step_def)
  then show ?thesis using assms(2) by (cases "pc p") (auto simp: server_phase_defs)
qed (use assms in \<open>simp add: timer_step_def\<close>)

lemma phase_ok_environment:
  assumes "phase_ok p"
  shows "phase_ok (deliver sig p)" and "phase_ok (p\<lparr>now := now p + int d\<rparr>)"
proof -
  show "phase_ok (deliver sig p)"
    using assms by (cases "pc p") (auto simp: deliver_def server_phase_defs)
  have "timed (p\<lparr>now := now p + int d\<rparr>)" if "timed p"
    using that by (fastforce simp: timed_def stopping_def)
  then show "phase_ok (p\<lparr>now := now p + int d\<rparr>)"
    using assms by (cases "pc p") (fastforce simp: phase_ok_def stopping_def)+
qed

lemma phase_ok_step: "proc_step load l p = Some p' \<Longrightarrow> phase_ok p \<Longrightarrow> phase_ok p'"
  by (auto simp: proc_step_def phase_ok_environment intro: phase_ok_main phase_ok_timer split: if_splits label.splits)

lemma status_ok_step: "proc_step load l p = Some p' \<Longrightarrow> phase_ok p \<Longrightarrow> status_ok load p'"
  by (auto simp: proc_step_def server_main_step_def initSignal_step_def timer_step_def deliver_def status_ok_def Let_def
      split: if_splits label.splits server_pc.splits timer_state.splits list.splits option.splits)

text \<open>The relation is the one of running a schedule, so that its facts apply.\<close>

lemma proc_steps_run: "proc_steps load p ls p' \<longleftrightarrow> run_schedule (proc_step load) ls p = Some p'"
proof
  show "run_schedule (proc_step load) ls p = Some p'" if "proc_steps load p ls p'"
    using that by induction (simp_all add: run_schedule_append)
  show "proc_steps load p ls p'" if "run_schedule (proc_step load) ls p = Some p'"
    using that
  proof (induction ls arbitrary: p' rule: rev_induct)
    case Nil
    then show ?case by (simp add: proc_start)
  next
    case (snoc l ls)
    then show ?case by (auto simp: run_schedule_append intro: proc_snoc split: bind_splits)
  qed
qed

lemmas run_steps = proc_steps_run [THEN iffD2]

interpretation server_process: step_invariant "proc_step load" "\<lambda>p. phase_ok p \<and> status_ok load p" for load
  by unfold_locales (blast intro: phase_ok_step status_ok_step)

lemma reachable_ok:
  assumes "proc_steps load server_proc0 ls p"
  shows "phase_ok p \<and> status_ok load p"
  using server_process.run_keeps [OF assms [unfolded proc_steps_run]]
  by (simp add: server_proc0_def phase_ok_def status_ok_def)

text \<open>How many statements main still has to execute once the channel holds a terminating signal.\<close>

fun statements_left :: "server_pc \<Rightarrow> nat" where
  "statements_left Receive = 5"
| "statements_left (Asleep t) = 4"
| "statements_left StartTimer = 3"
| "statements_left PrintExit = 2"
| "statements_left ReturnMain = 1"
| "statements_left _ = 0"

definition going_down :: "os_signal \<Rightarrow> nat \<Rightarrow> server_proc \<Rightarrow> bool" where
  "going_down sig n p \<longleftrightarrow>
     (status p = None \<longrightarrow> notified p \<and> statements_left (pc p) > 0 \<and> statements_left (pc p) + n = 5 \<and>
        (pc p = Receive \<longrightarrow> signals p = [sig]))"

lemma going_down_step:
  assumes "going_down sig n p" "proc_step load l p = Some p'" "sig \<noteq> SIGHUP"
  shows "going_down sig (if l = Main then Suc n else n) p'"
proof (cases l)
  case Main
  with assms show ?thesis
    by (cases "pc p") (auto simp: going_down_def proc_step_def server_main_step_def initSignal_step_def Let_def split: if_splits)
qed (use assms in \<open>auto simp: going_down_def proc_step_def timer_step_def deliver_def split: if_splits timer_state.splits\<close>)

lemma going_down_steps:
  assumes "proc_steps load p ls p'" "going_down sig 0 p" "sig \<noteq> SIGHUP"
  shows "going_down sig (count_list ls Main) p'"
  using assms
proof (induction p ls p' rule: proc_steps.induct)
  case (proc_snoc p ls p' l p'')
  then have "going_down sig (count_list ls Main) p'" by simp
  from going_down_step [OF this proc_snoc.hyps(2) \<open>sig \<noteq> SIGHUP\<close>] show ?case by (simp split: if_splits)
qed simp

section \<open>Properties\<close>

text \<open>C13: Why the example server ends. Whatever the order of its goroutines, the clock and the signals:
  exit status 0 means that main received a signal other than a hangup, with only hangups before it, at
  least five seconds ago, and has said goodbye; status 1 means that main was still running three seconds
  after its five-second sleep; there is no other exit status; a signal kills the process only if it is
  SIGKILL or came before \<open>Notify\<close>; and as long as only hangups were received, nothing else ends a process
  that has reached the loop.\<close>

theorem server_exit_reasons:
  assumes "proc_steps load server_proc0 ls p"
  shows "(status p = Some (Exited c) \<longrightarrow>
      (\<exists>hs sig t0. got p = hs @ [(sig, t0)] \<and> (\<forall>(h, t) \<in> set hs. h = SIGHUP) \<and> sig \<noteq> SIGHUP \<and>
        (c = 0 \<and> t0 + 5000000000 \<le> now p \<and> Println [ArgText ''provider app exit now...''] \<in> set (out p) \<or>
         c = 1 \<and> t0 + 8000000000 \<le> now p))) \<and>
    (status p = Some (Killed sg) \<longrightarrow> sg = SIGKILL \<or> \<not> notified p) \<and>
    (notified p \<longrightarrow> (\<forall>(h, t) \<in> set (got p). h = SIGHUP) \<longrightarrow> status p = None \<or> status p = Some (Killed SIGKILL))"
proof -
  have ok: "phase_ok p" "status_ok load p" using reachable_ok [OF assms] by simp_all
  have timed: "\<exists>hs sig t0. got p = hs @ [(sig, t0)] \<and> (\<forall>(h, t) \<in> set hs. h = SIGHUP) \<and> sig \<noteq> SIGHUP \<and>
      t0 + 5000000000 \<le> now p \<and> (timer p = Firing \<longrightarrow> t0 + 8000000000 \<le> now p)" if "timed p"
    using that by (auto simp: timed_def stopping_def hangups_def)
  have exits: "timed p" if "status p = Some (Exited d)" for d
    using ok that by (auto simp: phase_ok_def status_ok_def split: server_pc.splits)
  have "\<exists>hs sig t0. got p = hs @ [(sig, t0)] \<and> (\<forall>(h, t) \<in> set hs. h = SIGHUP) \<and> sig \<noteq> SIGHUP \<and>
        (c = 0 \<and> t0 + 5000000000 \<le> now p \<and> Println [ArgText ''provider app exit now...''] \<in> set (out p) \<or>
         c = 1 \<and> t0 + 8000000000 \<le> now p)" if "status p = Some (Exited c)"
    using timed [OF exits [OF that]] ok that by (auto simp: phase_ok_def status_ok_def farewell_def)
  moreover have "status p = None \<or> status p = Some (Killed SIGKILL)"
    if "notified p" "\<forall>(h, t) \<in> set (got p). h = SIGHUP"
  proof (cases "status p")
    case (Some e)
    then show ?thesis
    proof (cases e)
      case (Exited d)
      with Some timed [OF exits] that(2) show ?thesis by auto
    qed (use ok that(1) Some in \<open>auto simp: phase_ok_def status_ok_def\<close>)
  qed simp
  ultimately show ?thesis using ok by (auto simp: status_ok_def)
qed

text \<open>C28: A terminating signal in the channel ends the process. From the moment it is there, main never
  waits for anything but its own five-second sleep, and after at most five of its statements, whatever
  else happens in between, the process has exited.\<close>

theorem terminating_signal_ends_server:
  assumes "proc_steps load server_proc0 ls0 p" "status p = None" "pc p = Receive" "signals p = [sig]" "sig \<noteq> SIGHUP"
    and "proc_steps load p ls p'"
  shows "(count_list ls Main \<ge> 5 \<longrightarrow> status p' \<noteq> None) \<and>
    (status p' = None \<longrightarrow> (\<exists>d q. proc_step load (Tick d) p' = Some q \<and> proc_step load Main q \<noteq> None))"
proof -
  have "going_down sig 0 p"
    using reachable_ok [OF assms(1)] assms(2-4) by (simp add: going_down_def phase_ok_def)
  from going_down_steps [OF assms(6) this assms(5)] have down: "going_down sig (count_list ls Main) p'" .
  have "\<exists>d q. proc_step load (Tick d) p' = Some q \<and> proc_step load Main q \<noteq> None" if "status p' = None"
  proof -
    obtain d where d: "\<And>t. pc p' = Asleep t \<Longrightarrow> t \<le> now p' + int d"
      by (metis add.commute diff_le_eq int_nat_eq le_cases nat_0_iff server_pc.inject zero_le)
    have "proc_step load Main (p'\<lparr>now := now p' + int d\<rparr>) \<noteq> None"
      using down that d
      by (cases "pc p'") (auto simp: going_down_def proc_step_def server_main_step_def initSignal_step_def Let_def)
    with that show ?thesis by (auto simp: proc_step_def)
  qed
  with down show ?thesis by (auto simp: going_down_def)
qed

text \<open>A terminating signal that arrives while a hangup is still in the channel is lost: the process goes on
  waiting although it was told to stop.\<close>

theorem terminating_signal_can_be_lost:
  "\<exists>p. proc_steps None server_proc0
      [Main, Main, Main, Main, Main, Deliver SIGHUP, Deliver SIGTERM, Main] p \<and>
    status p = None \<and> pc p = Receive \<and> signals p = [] \<and> got p = [(SIGHUP, 0)]"
proof -
  have "run_schedule (proc_step None) [Main, Main, Main, Main, Main, Deliver SIGHUP, Deliver SIGTERM, Main] server_proc0 =
      Some (server_proc0\<lparr>mutex_profile := 1, provider_set := True, http_addr := Some ''0.0.0.0:6060'', config_loaded := True,
        notified := True, pc := Receive, got := [(SIGHUP, 0)],
        out := [LogInfof ''get signal %s'' [ArgText ''hangup'']]\<rparr>)"
    by (simp add: server_proc0_def proc_step_def server_main_step_def initSignal_step_def deliver_def Let_def)
  note run = run_steps [OF this]
  show ?thesis by (intro exI conjI, rule run) (simp_all add: server_proc0_def)
qed

text \<open>The lines a unary method of the provider leaves behind.\<close>

definition provider_lines :: "Ctx \<Rightarrow> string \<Rightarrow> gevent list" where
  "provider_lines ctx name =
     [LogInfof (''Dubbo3 GreeterProvider get user name = %s'' @ newline @ name) [],
      Println [ArgText ''get triple header tri-req-id = '', ArgVal (ctx_Value ctx (TripleCtxKey TripleRequestID))],
      Sleep second,
      Println [ArgText ''get triple header tri-service-version = '',
        ArgVal (ctx_Value ctx (TripleCtxKey TripleServiceVersion))]]"

text \<open>The state after a provider method built its answer.\<close>

definition answered :: "gevent list \<Rightarrow> User \<Rightarrow> 'm gstore \<Rightarrow> 'm gstore" where
  "answered evs u s = s\<lparr>gevents := gevents s @ evs, gusers := (gusers s)(gfresh s \<mapsto> u), gfresh := Suc (gfresh s)\<rparr>"

lemma provider_unary_run:
  assumes "greqs s p = Some \<lparr>hello_Name = name\<rparr>"
  shows "gs_SayHello GreeterProvider ctx (Some p) s = (Inr (Some (gfresh s), None),
      answered (provider_lines ctx name) \<lparr>user_Name = name, user_Id = ''12345'', user_Age = 21\<rparr> s)"
    and "gs_SayHelloWithError GreeterProvider ctx (Some p) s = (Inr (Some (gfresh s), Some (PkgError ''user defined error'')),
      answered (provider_lines ctx name) \<lparr>user_Name = name, user_Id = ''12345'', user_Age = 21\<rparr> s)"
  using assms
  by (simp_all add: GreeterProvider_def GreeterProvider_SayHello_def GreeterProvider_SayHelloWithError_def provider_lines_def
      answered_def go_simps run_simps)

text \<open>The provider's answers. Both unary methods answer with a new user that carries the request's
  name, the id 12345 and the age 21, after printing the request id and the service version found in the
  context; the one named after its error returns that user and the error together. A nil request panics
  before anything is printed. The streaming method receives one message and sends one user named
  \<open>hello\<close> and the name, and returns the stream's error if receiving or sending fails.\<close>

theorem greeter_provider_answers:
  assumes req: "greqs s p = Some \<lparr>hello_Name = name\<rparr>"
    and recv: "stream_RecvMsg svr (VPtr (gfresh s)) (new_request s) = (Inr None, s1)"
      "greqs s1 (gfresh s) = Some \<lparr>hello_Name = name\<rparr>"
    and send: "stream_SendMsg svr (VPtr (gfresh s1)) (answered
        [LogInfof (''Dubbo-go3 GreeterProvider recv 1 user, name = %s'' @ newline) [ArgText name]]
        \<lparr>user_Name = ''hello '' @ name, user_Id = ''123456789'', user_Age = 18\<rparr> s1) = (Inr err, s2)"
    and broken: "stream_RecvMsg bad (VPtr (gfresh s)) (new_request s) = (Inr (Some e), s3)"
  shows "gs_SayHello GreeterProvider ctx (Some p) s = (Inr (Some (gfresh s), None),
      answered (provider_lines ctx name) \<lparr>user_Name = name, user_Id = ''12345'', user_Age = 21\<rparr> s) \<and>
    gs_SayHelloWithError GreeterProvider ctx (Some p) s = (Inr (Some (gfresh s), Some (PkgError ''user defined error'')),
      answered (provider_lines ctx name) \<lparr>user_Name = name, user_Id = ''12345'', user_Age = 21\<rparr> s) \<and>
    gs_SayHello GreeterProvider ctx None s = (Inl NilDereference, s) \<and>
    gs_SayHelloStream GreeterProvider svr s = (Inr err, s2) \<and>
    gs_SayHelloStream GreeterProvider bad s = (Inr (Some e), s3)"
proof (intro conjI)
  show "gs_SayHello GreeterProvider ctx None s = (Inl NilDereference, s)"
    by (simp add: GreeterProvider_def GreeterProvider_SayHello_def go_simps run_simps)
  have r: "greeterSayHelloStreamServer_Recv svr s = (Inr (Some (gfresh s), None), s1)"
      "greeterSayHelloStreamServer_Recv bad s = (Inr (None, Some e), s3)"
    using recv(1) broken by (simp_all add: greeterSayHelloStreamServer_Recv_def new_request_def go_simps)
  show "gs_SayHelloStream GreeterProvider svr s = (Inr err, s2)"
    using send recv(2)
    by (auto simp: GreeterProvider_def GreeterProvider_SayHelloStream_def greeterSayHelloStreamServer_Send_def ptr_val_def
        answered_def r go_simps run_simps)
  show "gs_SayHelloStream GreeterProvider bad s = (Inr (Some e), s3)"
    by (simp add: GreeterProvider_def GreeterProvider_SayHelloStream_def r go_simps)
qed (rule provider_unary_run [OF req])+

section \<open>Concrete runs\<close>

definition clean_exit :: "label list" where
  "clean_exit = [Main, Main, Main, Main, Main, Deliver SIGTERM, Main, Tick 5000000000, Main, Main, Main, Main]"

definition waiting :: server_proc where
  "waiting = server_proc0\<lparr>mutex_profile := 1, provider_set := True, http_addr := Some ''0.0.0.0:6060'',
     config_loaded := True, notified := True, pc := Receive, signals := [SIGTERM]\<rparr>"

lemma waiting_run: "run_schedule (proc_step None) [Main, Main, Main, Main, Main, Deliver SIGTERM] server_proc0 = Some waiting"
  by (simp add: waiting_def server_proc0_def proc_step_def server_main_step_def initSignal_step_def deliver_def)

definition gone :: server_proc where
  "gone = waiting\<lparr>signals := [], got := [(SIGTERM, 0)], now := 5000000000, timer := Armed 8000000000,
     out := [LogInfof ''get signal %s'' [ArgText ''terminated''], Sleep (second * 5),
       Println [ArgText ''provider app exit now...'']],
     pc := ReturnMain, status := Some (Exited 0)\<rparr>"

lemma gone_run: "run_schedule (proc_step None) [Main, Tick 5000000000, Main, Main, Main, Main] waiting = Some gone"
  by (simp add: waiting_def gone_def server_proc0_def proc_step_def server_main_step_def initSignal_step_def Let_def)

theorem server_exit_reasons_witness:
  "status gone = Some (Exited 0) \<and> (\<exists>hs sig t0. got gone = hs @ [(sig, t0)] \<and> t0 + 5000000000 \<le> now gone)"
proof -
  have "run_schedule (proc_step None) clean_exit server_proc0 = Some gone"
    using run_schedule_append [of "proc_step None" "[Main, Main, Main, Main, Main, Deliver SIGTERM]"
        "[Main, Tick 5000000000, Main, Main, Main, Main]" server_proc0]
    by (simp only: waiting_run gone_run clean_exit_def append.simps Option.bind.bind_lunit)
  from server_exit_reasons [OF run_steps [OF this], of 0] show ?thesis
    by (auto simp: gone_def)
qed

theorem terminating_signal_ends_server_witness: "status gone \<noteq> None"
  using terminating_signal_ends_server [OF run_steps [OF waiting_run] _ _ _ _ run_steps [OF gone_run], of SIGTERM]
  by (simp add: waiting_def server_proc0_def)

text \<open>A stream that delivers one request and accepts every answer, and one that is broken.\<close>

definition one_shot_stream :: "nat gstore msg_stream" where
  "one_shot_stream =
     \<lparr> stream_SendMsg = (\<lambda>v s. (Inr None, s)),
       stream_RecvMsg = (\<lambda>v s. case v of
           VPtr p \<Rightarrow> (Inr None, s\<lparr>greqs := (greqs s)(p \<mapsto> \<lparr>hello_Name = ''laurence''\<rparr>)\<rparr>) | _ \<Rightarrow> (Inr (Some EOF), s)) \<rparr>"

theorem greeter_provider_answers_witness:
  "fst (gs_SayHello GreeterProvider Background (Some 7) (gstore0\<lparr>greqs := [7 \<mapsto> \<lparr>hello_Name = ''laurence''\<rparr>]\<rparr>)) =
     Inr (Some 0, None) \<and>
   fst (gs_SayHelloStream GreeterProvider one_shot_stream (gstore0\<lparr>greqs := [7 \<mapsto> \<lparr>hello_Name = ''laurence''\<rparr>]\<rparr>)) = Inr None"
proof -
  let ?s = "gstore0\<lparr>greqs := [7 \<mapsto> \<lparr>hello_Name = ''laurence''\<rparr>]\<rparr>"
  have "greqs ?s 7 = Some \<lparr>hello_Name = ''laurence''\<rparr>"
      "stream_RecvMsg one_shot_stream (VPtr (gfresh ?s)) (new_request ?s) =
        (Inr None, (new_request ?s)\<lparr>greqs := (greqs (new_request ?s))(gfresh ?s \<mapsto> \<lparr>hello_Name = ''laurence''\<rparr>)\<rparr>)"
      "\<And>v s. stream_SendMsg one_shot_stream v s = (Inr None, s)"
    by (simp_all add: one_shot_stream_def gstore0_def)
  from greeter_provider_answers [OF this(1,2) _ this(3), where bad = "one_shot_stream\<lparr>stream_RecvMsg := \<lambda>v s. (Inr (Some EOF), s)\<rparr>"
      and e = EOF and ?s3.0 = "new_request ?s" and ctx = Background]
  show ?thesis by (simp add: gstore0_def)
qed

end
