(* ===== verification/End_To_End.thy ===== *)
theory End_To_End
  imports Client Server
begin

text \<open>
  A whole call: from the client's \<open>Invoke\<close> over gRPC to the service behind the handler that the server
  registered, and back.

  gRPC lies in between and is described by a contract, \<open>serves\<close>: an RPC to \<open>/key/method\<close> on a connection
  to a started server runs the handler that was registered under the key, with the method's name in its
  context and a decoder that yields the arguments that were sent; the handler's response is stored behind
  the caller's reply pointer, its error comes back as an error. The state that the RPC changes is the
  server's process and the client's reply objects.
\<close>

record 'w remote =
  rserver :: "'w hworld"
  replies :: "nat \<Rightarrow> goval option"

text \<open>The descriptor registered under a name on a gRPC server.\<close>

fun registered :: "nat \<Rightarrow> string \<Rightarrow> server_event list \<Rightarrow> (ServiceDesc \<times> nat) option" where
  "registered sid key [] = None"
| "registered sid key (RegisterService s d i # evs) =
     (if s = sid \<and> ServiceName d = key then Some (d, i) else registered sid key evs)"
| "registered sid key (_ # evs) = registered sid key evs"

definition find_service :: "(goval \<times> 'w service) list \<Rightarrow> nat \<Rightarrow> 'w service option" where
  "find_service m i = map_option snd (find (\<lambda>(key, v). svc_id v = i) m)"

text \<open>A decoder for a message that carries these arguments.\<close>

definition carries :: "goval list \<Rightarrow> (goval \<Rightarrow> ('w hworld, goerror option) go) \<Rightarrow> bool" where
  "carries args dec \<longleftrightarrow> (\<forall>ps w. length ps = length args \<longrightarrow> distinct ps \<longrightarrow>
     dec (VSlice (map VPtr ps)) w = (Inr None, w\<lparr>heap := (heap w)(ps [\<mapsto>] args)\<rparr>))"

definition serves :: "codec_env \<Rightarrow> 'w sworld \<Rightarrow> 'w remote grpc_env \<Rightarrow> nat option \<Rightarrow> bool" where
  "serves cenv ws env conn \<longleftrightarrow> (\<forall>sid m key d i srv service ctx name args a opts n.
     grpcServer (self ws) = Some sid \<longrightarrow> rpcServiceMap (self ws) = Some m \<longrightarrow>
     registered sid key (calls ws) = Some (d, i) \<longrightarrow> (''InvokeWithArgs'', UnaryServiceHandler i) \<in> set (Methods d) \<longrightarrow>
     find_service m i = Some srv \<longrightarrow> as_unary srv = Some service \<longrightarrow> CHR ''/'' \<notin> set name \<longrightarrow>
     (\<exists>sctx dec trailer. ctx_Value sctx method_name_key = VString name \<and>
        as_bytes (ctx_Value sctx generic_payload_key) = None \<and> carries args dec \<and>
        (\<forall>resp err w'.
           InvokeWithArgs_Handler cenv service srv sctx dec (None :: unit option) (rserver n) = (Inr (resp, err), w') \<longrightarrow>
           (\<exists>err'. (err' = None \<longleftrightarrow> err = None) \<and>
              ClientConn_Invoke env conn ctx (''/'' @ key @ ''/'' @ name) (VSlice args) (VPtr a) opts n =
                (Inr (trailer, err'),
                 n\<lparr>rserver := w', replies := if err = None then (replies n)(a \<mapsto> resp) else replies n\<rparr>)))))"

lemma servesD:
  assumes "serves cenv ws env conn" "grpcServer (self ws) = Some sid" "rpcServiceMap (self ws) = Some m"
    "registered sid key (calls ws) = Some (d, i)" "(''InvokeWithArgs'', UnaryServiceHandler i) \<in> set (Methods d)"
    "find_service m i = Some srv" "as_unary srv = Some service" "CHR ''/'' \<notin> set name"
  obtains sctx dec trailer where "ctx_Value sctx method_name_key = VString name"
    "as_bytes (ctx_Value sctx generic_payload_key) = None" "carries args dec"
    "\<And>resp err w'.
       InvokeWithArgs_Handler cenv service srv sctx dec (None :: unit option) (rserver n) = (Inr (resp, err), w') \<Longrightarrow>
       \<exists>err'. (err' = None \<longleftrightarrow> err = None) \<and>
         ClientConn_Invoke env conn ctx (''/'' @ key @ ''/'' @ name) (VSlice args) (VPtr a) opts n =
           (Inr (trailer, err'), n\<lparr>rserver := w', replies := if err = None then (replies n)(a \<mapsto> resp) else replies n\<rparr>)"
  using assms(1) [unfolded serves_def, rule_format, OF assms(2-8), of args n ctx a opts] that by (elim exE conjE) meson

section \<open>What a started server has registered\<close>

lemma registered_append:
  "registered sid key (xs @ ys) = (case registered sid key xs of None \<Rightarrow> registered sid key ys | Some r \<Rightarrow> Some r)"
  by (induction sid key xs rule: registered.induct) simp_all

lemma registered_Some: "registered sid key evs = Some (d, i) \<Longrightarrow> RegisterService sid d i \<in> set evs"
  by (induction sid key evs rule: registered.induct) (simp_all split: if_splits)

lemma registered_none:
  assumes "\<forall>d i. RegisterService sid d i \<notin> set evs"
  shows "registered sid key evs = None"
  using assms registered_Some [of sid key evs] by (cases "registered sid key evs") auto

lemma entry_desc_name: "ServiceName (entry_desc ds (VString k, v)) = k"
  by (simp add: entry_desc_def createGrpcDesc_def split: option.split)

lemma registered_entry:
  assumes "\<forall>e \<in> set m. registrable ds e" "distinct (map fst m)" "(VString key, srv) \<in> set m"
  shows "registered sid key (concat (map (registration ds sid) m)) = Some (entry_desc ds (VString key, srv), svc_id srv)"
  using assms
proof (induction m)
  case (Cons e m)
  obtain k v where e: "e = (VString k, v)" using registrable_key [of ds e] Cons.prems(1) by auto
  have name: "registered sid key (registration ds sid (VString k, v)) =
      (if k = key then Some (entry_desc ds (VString k, v), svc_id v) else None)" for k v
    by (simp add: registration_def entry_desc_name)
  show ?case
  proof (cases "k = key")
    case True
    then have "v = srv" using Cons.prems(2,3) e by (force simp: image_iff)
    with True show ?thesis by (simp add: registered_append name e)
  next
    case False
    with Cons show ?thesis by (auto simp: registered_append name e)
  qed
qed simp

lemma started_entry:
  fixes ws :: "'w sworld"
  assumes "rpcServiceMap (self ws) = Some m" "descs_ok ws" "\<forall>e \<in> set m. registrable (descs ws) e"
    and "snd (getServerTlsCertificate (sv_tls senv) (server_opt (self ws))) \<noteq> None \<longrightarrow> usable (Logger (server_opt (self ws)))"
    and "net_Listen senv (calls ws) (Location (server_opt (self ws))) = Inr lis"
    and "\<forall>d i. RegisterService (next_server ws) d i \<notin> set (calls ws)"
    and "distinct (map fst m)" "(VString key, srv) \<in> set m"
  shows "grpcServer (self (snd (TripleServer_Start senv ws))) = Some (next_server ws)"
    and "rpcServiceMap (self (snd (TripleServer_Start senv ws))) = Some m"
    and "registered (next_server ws) key (calls (snd (TripleServer_Start senv ws))) =
      Some (entry_desc (descs ws) (VString key, srv), svc_id srv)"
proof -
  note run = Start_run [OF assms(1-5)]
  show "grpcServer (self (snd (TripleServer_Start senv ws))) = Some (next_server ws)"
      "rpcServiceMap (self (snd (TripleServer_Start senv ws))) = Some m"
    by (simp_all add: run(3) assms(1))
  show "registered (next_server ws) key (calls (snd (TripleServer_Start senv ws))) =
      Some (entry_desc (descs ws) (VString key, srv), svc_id srv)"
    unfolding run(2) registered_append
    by (simp add: registered_none assms(6) codec_notice_def registered_entry [OF assms(3,7,8)] split: option.split)
qed

lemma find_service_entry:
  assumes "(key, srv) \<in> set m" "\<forall>(k, v) \<in> set m. \<forall>(k', v') \<in> set m. svc_id v = svc_id v' \<longrightarrow> v = v'"
  shows "find_service m (svc_id srv) = Some srv"
proof -
  obtain e where e: "find (\<lambda>(key, v). svc_id v = svc_id srv) m = Some e"
    using assms(1) by (cases "find (\<lambda>(key, v). svc_id v = svc_id srv) m") (auto simp: find_None_iff)
  then have "e \<in> set m" "svc_id (snd e) = svc_id srv"
    by (auto simp: find_Some_iff case_prod_beta)
  with assms have "snd e = srv" by fastforce
  with e show ?thesis by (simp add: find_service_def)
qed

lemma map_upds_values: "distinct ps \<Longrightarrow> length ps = length vs \<Longrightarrow> map (h(ps [\<mapsto>] vs)) ps = map Some vs"
proof (induction ps arbitrary: vs h)
  case (Cons p ps)
  then obtain v vs' where vs: "vs = v # vs'" "length ps = length vs'" by (cases vs) auto
  have "map (\<lambda>a. if a = p then Some v else (h(ps [\<mapsto>] vs')) a) ps = map (h(ps [\<mapsto>] vs')) ps"
    using Cons.prems(1) by (intro map_cong) auto
  with Cons vs show ?case by simp
qed simp

text \<open>The handler of a message that carries the arguments.\<close>

lemma handler_carried:
  assumes "as_unary srv = Some service" "ctx_Value sctx method_name_key = VString name"
    "as_bytes (ctx_Value sctx generic_payload_key) = None" "carries args dec"
    and "GetReqParamsInterfaces service name w = (Inr (map VPtr ps, True), w1)" "distinct ps" "length ps = length args"
  shows "InvokeWithArgs_Handler cenv service srv sctx dec interceptor w =
    InvokeWithArgs service sctx name args (w1\<lparr>heap := (heap w1)(ps [\<mapsto>] args)\<rparr>)"
  using assms handler_plain [OF assms(1,2), of cenv service dec interceptor w]
  by (simp add: carries_def map_upds_values)

section \<open>The whole call\<close>


section \<open>A concrete call\<close>

text \<open>A gRPC that keeps the contract for the sample server: it knows the one unary service, registered under
  \<open>u.C\<close>.\<close>

fun pointers :: "goval list \<Rightarrow> nat list option" where
  "pointers [] = Some []"
| "pointers (VPtr p # vs) = map_option ((#) p) (pointers vs)"
| "pointers (_ # vs) = None"

definition carry :: "goval list \<Rightarrow> goval \<Rightarrow> ('w hworld, goerror option) go" where
  "carry args v w =
     (case v of
        VSlice vs \<Rightarrow> (case pointers vs of
            Some ps \<Rightarrow> if length ps = length args then (Inr None, w\<lparr>heap := (heap w)(ps [\<mapsto>] args)\<rparr>)
              else (Inr (Some (ForeignError 8)), w)
          | None \<Rightarrow> (Inr (Some (ForeignError 8)), w))
      | _ \<Rightarrow> (Inr (Some (ForeignError 8)), w))"

definition wired_grpc :: "nat remote grpc_env" where
  "wired_grpc =
     \<lparr> DialContext = (\<lambda>ctx addr opts. (Some 5, None)),
       ClientConn_Invoke = (\<lambda>conn ctx path msg reply opts n.
         case (take 5 path = ''/u.C/'', msg, reply) of
           (True, VSlice args, VPtr a) \<Rightarrow>
             (case InvokeWithArgs_Handler sample_codec_env echo echo_value
                 (ctx_string method_name_key (drop 5 path) Background) (carry args) (None :: unit option) (rserver n) of
                (Inr (resp, err), w') \<Rightarrow> (Inr ([(''served-by'', [''u.C''])], err),
                  n\<lparr>rserver := w', replies := if err = None then (replies n)(a \<mapsto> resp) else replies n\<rparr>)
              | (Inl e, w') \<Rightarrow> (Inr ([], Some (StatusError codes_Unavailable ''connection closed'')), n\<lparr>rserver := w'\<rparr>))
         | _ \<Rightarrow> (Inr ([], Some (StatusError codes_Unimplemented ''unknown service'')), n)),
       NewClientStream = (\<lambda>ctx conn method opts n. (Inr (None, Some EOF), n)) \<rparr>"

lemma pointers_map: "pointers (map VPtr ps) = Some ps"
  by (induction ps) simp_all

lemma carry_carries: "carries args (carry args)"
  by (simp add: carries_def carry_def pointers_map)

abbreviation up_server :: "nat sworld" where
  "up_server \<equiv> sample_sworld (NewTripleOption [WithLocation ''up:1''])"

lemma up_server_ready:
  "rpcServiceMap (self up_server) = Some sample_services"
  "snd (getServerTlsCertificate (sv_tls sample_server_env) (server_opt (self up_server))) = None"
  "net_Listen sample_server_env (calls up_server) (Location (server_opt (self up_server))) = Inr 0"
  "distinct (map fst sample_services)"
  "\<forall>(k, v) \<in> set sample_services. \<forall>(k', v') \<in> set sample_services. svc_id v = svc_id v' \<longrightarrow> v = v'"
  by (simp_all add: NewTripleServer_def sample_services_def generated_def echo_value_def)

lemma up_server_started:
  "registered s key (calls (snd (TripleServer_Start sample_server_env up_server))) = Some (d, i) \<Longrightarrow>
     (''InvokeWithArgs'', UnaryServiceHandler i) \<in> set (Methods d) \<Longrightarrow> key = ''u.C'' \<and> i = 3"
  "rpcServiceMap (self (snd (TripleServer_Start sample_server_env up_server))) = Some sample_services"
proof -
  note run = Start_run [of up_server sample_services sample_server_env 0, OF up_server_ready(1) _ _ _ up_server_ready(3)]
  have c: "calls (snd (TripleServer_Start sample_server_env up_server)) = [Listen ''up:1'' (Inr 0)] @
      [NewServer 0 (server_opts sample_server_env (NewTripleOption [WithLocation ''up:1'']) up_server)] @
      [RegisterService 0 (sample_desc\<lparr>ServiceName := ''g.A''\<rparr>) 1,
       RegisterService 0 (sample_desc\<lparr>ServiceName := ''g.B''\<rparr>) 2,
       RegisterService 0 (createGrpcDesc ''u.C'' 3) 3] @ [GoServe 0 (Some 0)]"
    using run(2) sample_registrable sample_registrations [of 0] up_server_ready(2)
    by (simp add: NewTripleServer_def codec_notice_def unsupported_def)
  show "rpcServiceMap (self (snd (TripleServer_Start sample_server_env up_server))) = Some sample_services"
    using run(3) sample_registrable up_server_ready(1,2) by simp
  show "key = ''u.C'' \<and> i = 3" if "registered s key (calls (snd (TripleServer_Start sample_server_env up_server))) = Some (d, i)"
    "(''InvokeWithArgs'', UnaryServiceHandler i) \<in> set (Methods d)"
    using that by (auto simp: c sample_desc_def createGrpcDesc_def split: if_splits)
qed

lemma wired_serves: "serves sample_codec_env (snd (TripleServer_Start sample_server_env up_server)) wired_grpc conn"
  unfolding serves_def
proof (intro allI impI)
  fix sid m key d i srv service ctx name args a opts n
  assume m: "rpcServiceMap (self (snd (TripleServer_Start sample_server_env up_server))) = Some m"
    and r: "registered sid key (calls (snd (TripleServer_Start sample_server_env up_server))) = Some (d, i)"
      "(''InvokeWithArgs'', UnaryServiceHandler i) \<in> set (Methods d)"
    and srv: "find_service m i = Some srv" "as_unary srv = Some service"
  have k: "key = ''u.C''" "i = 3" using up_server_started(1) [OF r] by simp_all
  have "m = sample_services" using m up_server_started(2) by simp
  then have "srv = echo_value" "service = echo"
    using srv k(2) by (auto simp: find_service_def sample_services_def generated_def echo_value_def)
  then show "\<exists>sctx dec trailer. ctx_Value sctx method_name_key = VString name \<and>
        as_bytes (ctx_Value sctx generic_payload_key) = None \<and> carries args dec \<and>
        (\<forall>resp err w'.
           InvokeWithArgs_Handler sample_codec_env service srv sctx dec (None :: unit option) (rserver n) = (Inr (resp, err), w') \<longrightarrow>
           (\<exists>err'. (err' = None \<longleftrightarrow> err = None) \<and>
              ClientConn_Invoke wired_grpc conn ctx (''/'' @ key @ ''/'' @ name) (VSlice args) (VPtr a) opts n =
                (Inr (trailer, err'),
                 n\<lparr>rserver := w', replies := if err = None then (replies n)(a \<mapsto> resp) else replies n\<rparr>)))"
    by (intro exI [of _ "ctx_string method_name_key name Background"] exI [of _ "carry args"] exI [of _ "[(''served-by'', [''u.C''])]"])
      (simp add: k carry_carries wired_grpc_def ctx_string_def WithValue_def method_name_key_def generic_payload_key_def)
qed

definition wired_env :: "nat remote client_env" where
  "wired_env = \<lparr> cl_grpc = wired_grpc, cl_tls = sample_tls, cl_udp = (\<lambda>a n. (None, Some (ForeignError 3))),
     ReflectResponse = (\<lambda>res reply w. (Inr None, w)), fmt_panic = (\<lambda>p. ''bad reply'') \<rparr>"

definition wired_client :: "nat remote TripleClient" where
  "wired_client = \<lparr> stubInvoker = None, triplConn = Some \<lparr>timeout = DefaultTimeout, grpcConn = Some 5\<rparr>, opt = hessian_option \<rparr>"

definition wired_world :: "nat remote kworld" where
  "wired_world =
     \<lparr> logs = [], grpcCodecs = [], codecFactoryMap = Map.empty, codecInWrapperSerializerTypeMap = Map.empty,
       clock = 1000, cancels = [], dials = [], rpcs = [], closes = [],
       net = \<lparr> rserver = hworld0, replies = Map.empty \<rparr> \<rparr>"


end
