(* ===== verification/Greeter_End_To_End.thy ===== *)
theory Greeter_End_To_End
  imports Example_Server End_To_End
begin

text \<open>
  A whole call of the example: from \<open>TripleClient.Invoke\<close> through the generated stub, over gRPC, to the handler
  in the descriptor that the started server registered, through the tracing interceptor to the provider, and
  back into the response object.

  The client's store holds its messages; below it is the server process, whose store holds its own messages and
  whose spans are recorded. gRPC is described by a contract as in \<open>End_To_End\<close>, for generated handlers: it runs
  the handler of the method found under the key, with the interceptor the server was built with and a decoder
  that yields a copy of the request, and copies the response into the caller's object. How the context of the
  call becomes the server's is a relation \<open>arrives\<close>, an argument of the contract.
\<close>

type_synonym 's peer = "'s gstore tw gstore"

type_synonym 's generated_handler =
  "'s srv_value \<Rightarrow> Ctx \<Rightarrow> (goval \<Rightarrow> ('s gstore, goerror option) go) \<Rightarrow> 's gstore interceptor option
   \<Rightarrow> ('s gstore tw, goval \<times> goerror option) go"

text \<open>The tracer whose unary interceptor a gRPC server was built with.\<close>

fun unary_tracer :: "nat \<Rightarrow> server_event list \<Rightarrow> Tracer option" where
  "unary_tracer sid [] = None"
| "unary_tracer sid (NewServer s opts # evs) =
     (if s = sid
      then (case filter (\<lambda>o0. case o0 of UnaryInterceptor _ \<Rightarrow> True | _ \<Rightarrow> False) opts of
              UnaryInterceptor tr # _ \<Rightarrow> Some tr | _ \<Rightarrow> None)
      else unary_tracer sid evs)"
| "unary_tracer sid (_ # evs) = unary_tracer sid evs"

definition decodes :: "HelloRequest \<Rightarrow> (goval \<Rightarrow> ('s gstore, goerror option) go) \<Rightarrow> bool" where
  "decodes r dec \<longleftrightarrow> (\<forall>q s. greqs s q \<noteq> None \<longrightarrow> dec (VPtr q) s = (Inr None, s\<lparr>greqs := (greqs s)(q \<mapsto> r)\<rparr>))"

text \<open>The response object after a call that ended with \<open>err\<close> and the response \<open>resp\<close>.\<close>

definition copied :: "nat \<Rightarrow> goval \<Rightarrow> goerror option \<Rightarrow> 's gstore tw \<Rightarrow> 's peer \<Rightarrow> 's peer" where
  "copied a resp err ts n =
     n\<lparr>below := ts, gusers := (case (err, resp) of (None, VPtr q) \<Rightarrow> (gusers n)(a := gusers (ext ts) q) | _ \<Rightarrow> gusers n)\<rparr>"

definition serves_generated ::
    "(Ctx \<Rightarrow> Ctx \<Rightarrow> bool) \<Rightarrow> (Tracer \<Rightarrow> tenv) \<Rightarrow> (nat \<Rightarrow> 's srv_value) \<Rightarrow> 'w sworld \<Rightarrow> 's peer grpc_env \<Rightarrow> nat option \<Rightarrow> bool" where
  "serves_generated arrives tracers impls ws env conn \<longleftrightarrow> (\<forall>sid key d i name h handler ctx p r a opts n.
     grpcServer (self ws) = Some sid \<longrightarrow> registered sid key (calls ws) = Some (d, i) \<longrightarrow>
     (name, ForeignHandler h) \<in> set (Methods d) \<longrightarrow> handler_of h = Some handler \<longrightarrow> greqs n p = Some r \<longrightarrow>
     (\<exists>sctx dec trailer. arrives ctx sctx \<and> decodes r dec \<and>
        (\<forall>resp err ts.
           handler (impls i) sctx dec
             (map_option (\<lambda>tr. OpenTracingServerInterceptor (tracers tr) []) (unary_tracer sid (calls ws))) (below n) =
             (Inr (resp, err), ts) \<longrightarrow>
           (\<exists>err'. (err' = None \<longleftrightarrow> err = None) \<and>
              ClientConn_Invoke env conn ctx (''/'' @ key @ ''/'' @ name) (VPtr p) (VPtr a) opts n =
                (Inr (trailer, err'), copied a resp err ts n)))))"

section \<open>The server's side\<close>

lemma unary_tracer_append:
  assumes "\<forall>opts. NewServer sid opts \<notin> set xs"
  shows "unary_tracer sid (xs @ ys) = unary_tracer sid ys"
  using assms by (induction sid xs rule: unary_tracer.induct) auto

lemma jaeger_tracer:
  assumes "JaegerAddress o0 \<noteq> []"
  shows "unary_tracer sid (NewServer sid (server_opts env o0 w) # evs) =
    Some (NewJaegerTracerDirect (JaegerServiceName o0) (JaegerAddress o0) (Logger o0))"
  using assms by (simp add: server_opts_def base_server_opts_def)

text \<open>The method of the provider that a handler runs, on a decoded request.\<close>

lemma provider_under_span:
  assumes "name \<in> {''SayHello'', ''SayHelloWithError''}" "greqs s p = Some \<lparr>hello_Name = who\<rparr>"
  shows "greeter_method name GreeterProvider ctx (Some p) s =
    (Inr (Some (gfresh s), if name = ''SayHello'' then None else Some (PkgError ''user defined error'')),
     answered (provider_lines ctx who) \<lparr>user_Name = who, user_Id = ''12345'', user_Age = 21\<rparr> s)"
  using assms by (auto simp: greeter_method_def provider_unary_run)

text \<open>What the server process does for one request.\<close>

definition spans_of :: "tenv \<Rightarrow> nat \<Rightarrow> string \<Rightarrow> Ctx \<Rightarrow> nat \<Rightarrow> goerror option \<Rightarrow> span_event list" where
  "spans_of env sp name ctx p err =
     [StartSpan sp (''/main.Greeter/'' @ name) [RPCServerOption (fst (extractSpanContext env ctx)), gRPCComponentTag],
      CallNext (ContextWithSpan env ctx sp) (VPtr p)] @ failure_events env sp err False @ [FinishSpan sp]"

lemma greeter_served:
  fixes ts :: "'s gstore tw"
  assumes entry: "(name, ForeignHandler h) \<in> set (Methods Greeter_ServiceDesc)" "handler_of h = Some handler"
    and srv: "as_Dubbo3GrpcService srv = Some base" "as_GreeterServer srv = Some GreeterProvider"
    and dec: "decodes \<lparr>hello_Name = who\<rparr> dec"
  shows "\<exists>ts'. handler srv ctx dec (Some (OpenTracingServerInterceptor env [])) ts =
      (Inr (VPtr (Suc (gfresh (ext ts))), if name = ''SayHello'' then None else Some (PkgError ''user defined error'')), ts') \<and>
    gusers (ext ts') (Suc (gfresh (ext ts))) = Some \<lparr>user_Name = who, user_Id = ''12345'', user_Age = 21\<rparr> \<and>
    trace ts' = trace ts @ spans_of env (next_span ts) name ctx (gfresh (ext ts))
      (if name = ''SayHello'' then None else Some (PkgError ''user defined error'')) \<and>
    next_span ts' = Suc (next_span ts) \<and>
    gevents (ext ts') = gevents (ext ts) @ provider_lines (ContextWithSpan env ctx (next_span ts)) who"
proof -
  let ?q = "gfresh (ext ts)"
  let ?s1 = "(new_request (ext ts))\<lparr>greqs := (greqs (new_request (ext ts)))(?q \<mapsto> \<lparr>hello_Name = who\<rparr>)\<rparr>"
  have name: "name \<in> {''SayHello'', ''SayHelloWithError''}" using entry(1) by (auto simp: Greeter_ServiceDesc_def)
  have d: "dec (VPtr ?q) (new_request (ext ts)) = (Inr None, ?s1)"
    using dec by (simp add: decodes_def new_request_def)
  have "greqs ?s1 ?q = Some \<lparr>hello_Name = who\<rparr>" by simp
  note run = handler_traced [where dec = dec and ts = ts and env = env and ctx = ctx, OF entry srv d _
      provider_under_span [OF name this]]
  show ?thesis
    using run by (simp add: ptr_val_def answered_def new_request_def spans_of_def)
qed

text \<open>The error a method of the provider ends with.\<close>

definition greeter_error :: "string \<Rightarrow> goerror option" where
  "greeter_error name = (if name = ''SayHello'' then None else Some (PkgError ''user defined error''))"

text \<open>The tracer that the options of a server name.\<close>

definition server_tracer :: "triple_option \<Rightarrow> Tracer" where
  "server_tracer o0 = NewJaegerTracerDirect (JaegerServiceName o0) (JaegerAddress o0) (Logger o0)"

lemma started_greeter:
  fixes ws :: "'w sworld"
  assumes server: "rpcServiceMap (self ws) = Some m" "descs_ok ws" "\<forall>e \<in> set m. registrable (descs ws) e"
      "snd (getServerTlsCertificate (sv_tls senv) (server_opt (self ws))) \<noteq> None \<longrightarrow> usable (Logger (server_opt (self ws)))"
      "net_Listen senv (calls ws) (Location (server_opt (self ws))) = Inr lis"
      "\<forall>d i. RegisterService (next_server ws) d i \<notin> set (calls ws)" "distinct (map fst m)"
      "JaegerAddress (server_opt (self ws)) \<noteq> []" "\<forall>opts. NewServer (next_server ws) opts \<notin> set (calls ws)"
    and entry: "(VString key, v) \<in> set m" "as_grpc v = Some (Some dp)" "descs ws dp = Some Greeter_ServiceDesc"
  shows "registered (next_server ws) key (calls (snd (TripleServer_Start senv ws))) =
      Some (Greeter_ServiceDesc\<lparr>ServiceName := key\<rparr>, svc_id v)"
    and "grpcServer (self (snd (TripleServer_Start senv ws))) = Some (next_server ws)"
    and "unary_tracer (next_server ws) (calls (snd (TripleServer_Start senv ws))) = Some (server_tracer (server_opt (self ws)))"
proof -
  note started = started_entry [OF server(1-7) entry(1)]
  show "registered (next_server ws) key (calls (snd (TripleServer_Start senv ws))) =
      Some (Greeter_ServiceDesc\<lparr>ServiceName := key\<rparr>, svc_id v)"
    using started(3) by (simp add: entry_desc_def entry(2,3))
  show "grpcServer (self (snd (TripleServer_Start senv ws))) = Some (next_server ws)" by (rule started(1))
  have "\<forall>opts. NewServer (next_server ws) opts \<notin> set (calls ws @ [Listen a r] @ codec_notice ct ws)" for a r ct
    using server(9) by (simp add: codec_notice_def)
  from unary_tracer_append [OF this]
  show "unary_tracer (next_server ws) (calls (snd (TripleServer_Start senv ws))) = Some (server_tracer (server_opt (self ws)))"
    unfolding Start_run(2) [OF server(1-5)] by (simp add: jaeger_tracer [OF server(8)] server_tracer_def del: unary_tracer.simps)
qed

text \<open>One RPC over the contract.\<close>

lemma generated_rpc:
  fixes n :: "'s peer"
  assumes transport: "serves_generated arrives tracers impls ws env conn" "grpcServer (self ws) = Some sid"
      "registered sid key (calls ws) = Some (d, i)" "Methods d = Methods Greeter_ServiceDesc"
      "unary_tracer sid (calls ws) = Some tr"
    and provider: "as_Dubbo3GrpcService (impls i) = Some base" "as_GreeterServer (impls i) = Some GreeterProvider"
    and request: "greqs n p = Some \<lparr>hello_Name = who\<rparr>" "name \<in> {''SayHello'', ''SayHelloWithError''}"
  shows "\<exists>sctx trailer err' ts'.
    ClientConn_Invoke env conn ctx (''/'' @ key @ ''/'' @ name) (VPtr p) (VPtr a) opts n =
      (Inr (trailer, err'), copied a (VPtr (Suc (gfresh (ext (below n))))) (greeter_error name) ts' n) \<and>
    (err' = None \<longleftrightarrow> name = ''SayHello'') \<and> arrives ctx sctx \<and>
    gusers (ext ts') (Suc (gfresh (ext (below n)))) = Some \<lparr>user_Name = who, user_Id = ''12345'', user_Age = 21\<rparr> \<and>
    trace ts' = trace (below n) @
      spans_of (tracers tr) (next_span (below n)) name sctx (gfresh (ext (below n))) (greeter_error name) \<and>
    gevents (ext ts') = gevents (ext (below n)) @ provider_lines (ContextWithSpan (tracers tr) sctx (next_span (below n))) who"
proof -
  obtain h and handler :: "'s generated_handler" where h: "(name, ForeignHandler h) \<in> set (Methods Greeter_ServiceDesc)" "handler_of h = Some handler"
    using request(2) by (auto simp: Greeter_ServiceDesc_def handler_of_def)
  obtain sctx dec trailer where ctx: "arrives ctx sctx" and dec: "decodes \<lparr>hello_Name = who\<rparr> dec"
    and rpc: "\<And>resp err ts. handler (impls i) sctx dec (Some (OpenTracingServerInterceptor (tracers tr) [])) (below n) =
        (Inr (resp, err), ts) \<Longrightarrow> \<exists>err'. (err' = None \<longleftrightarrow> err = None) \<and>
          ClientConn_Invoke env conn ctx (''/'' @ key @ ''/'' @ name) (VPtr p) (VPtr a) opts n =
            (Inr (trailer, err'), copied a resp err ts n)"
    using transport(1) [unfolded serves_generated_def, rule_format, OF transport(2,3), of name h handler n p _ ctx a opts]
      h request(1) by (simp add: transport(4,5)) metis
  obtain ts' where served: "handler (impls i) sctx dec (Some (OpenTracingServerInterceptor (tracers tr) [])) (below n) =
      (Inr (VPtr (Suc (gfresh (ext (below n)))), greeter_error name), ts')"
    and after: "gusers (ext ts') (Suc (gfresh (ext (below n)))) = Some \<lparr>user_Name = who, user_Id = ''12345'', user_Age = 21\<rparr>"
      "trace ts' = trace (below n) @
        spans_of (tracers tr) (next_span (below n)) name sctx (gfresh (ext (below n))) (greeter_error name)"
      "gevents (ext ts') = gevents (ext (below n)) @ provider_lines (ContextWithSpan (tracers tr) sctx (next_span (below n))) who"
    using greeter_served [OF h provider dec, of sctx "tracers tr" "below n"] unfolding greeter_error_def [symmetric] by metis
  have "greeter_error name = None \<longleftrightarrow> name = ''SayHello''" by (simp add: greeter_error_def)
  with rpc [OF served] after ctx show ?thesis by metis
qed

text \<open>The client's part of the call, given the RPC.\<close>

lemma greeter_invoke_result:
  assumes "t = \<lparr> stubInvoker = Some (greeter_stub (cl_grpc env) (NewGreeterClient c)), triplConn = None, opt = o0 \<rparr>"
      "CodecType o0 = PBCodecName" "usable (Logger o0)" "name \<in> {''SayHello'', ''SayHelloWithError''}"
      "ctx_lookup_string ctx InterfaceKey = Some key"
      "\<And>res s. rpcs (snd (ReflectResponse env res reply s)) = rpcs s"
      "ClientConn_Invoke (cl_grpc env) (grpcConn c) (WithTimeout (clock w) ctx (timeout c)) (''/'' @ key @ ''/'' @ name)
        (VPtr p) (VPtr (gfresh (net w))) [] (new_reply (net w)) = (Inr (trailer, err), n')"
  shows "\<exists>w2. net w2 = n' \<and> fst (TripleClient_Invoke env t name [VCtx ctx, VPtr p] reply w) = Inr (case err of
      None \<Rightarrow> NewErrorWithAttachment (reply_error env (fst (ReflectResponse env (VPtr (gfresh (net w))) reply w2))) (attachments_of trailer)
    | Some e \<Rightarrow> NewErrorWithAttachment (Some e) Map.empty) \<and>
    net (snd (TripleClient_Invoke env t name [VCtx ctx, VPtr p] reply w)) = (case err of
      None \<Rightarrow> net (snd (ReflectResponse env (VPtr (gfresh (net w))) reply w2)) | Some e \<Rightarrow> net w2) \<and>
    rpcs (snd (TripleClient_Invoke env t name [VCtx ctx, VPtr p] reply w)) =
      rpcs w @ [(grpcConn c, WithTimeout (clock w) ctx (timeout c), ''/'' @ key @ ''/'' @ name, VPtr p, [])]"
proof (cases err)
  case None
  with greeter_invoke [OF assms] show ?thesis by auto
next
  case (Some e)
  with greeter_invoke [OF assms] show ?thesis by (intro exI [of _ "w\<lparr>net := n'\<rparr>"]) simp
qed

section \<open>The whole call\<close>


section \<open>A concrete call\<close>

text \<open>A traced server with the greeter under \<open>g.A\<close>, and a gRPC that keeps the contract for it.\<close>

definition traced_option :: triple_option where
  "traced_option = NewTripleOption [WithLocation ''up:1'', WithJaegerConfig (''jaeger:1'', ''greeter'', False)]"

definition greeter_services :: "(goval \<times> nat service) list" where
  "greeter_services = [(VString ''g.A'', generated 1)]"

definition greeter_sworld :: "nat sworld" where
  "greeter_sworld = (sample_sworld traced_option)\<lparr>descs := [0 \<mapsto> Greeter_ServiceDesc],
     self := NewTripleServer (Some greeter_services) (Some traced_option)\<rparr>"

definition provider_value :: "nat srv_value" where
  "provider_value = \<lparr> as_Dubbo3GrpcService = Some None, as_GreeterServer = Some GreeterProvider \<rparr>"

definition copy_in :: "HelloRequest \<Rightarrow> goval \<Rightarrow> (nat gstore, goerror option) go" where
  "copy_in r v = (\<lambda>s. case v of
     VPtr q \<Rightarrow> (Inr None, s\<lparr>greqs := (greqs s)(q \<mapsto> r)\<rparr>) | _ \<Rightarrow> (Inr (Some (ForeignError 8)), s))"

text \<open>\<open>f\<close> is the context that the server gives a call made in a context.\<close>

definition greeter_wire :: "(Ctx \<Rightarrow> Ctx) \<Rightarrow> nat peer grpc_env" where
  "greeter_wire f =
     \<lparr> DialContext = (\<lambda>ctx addr opts. (Some 5, None)),
       ClientConn_Invoke = (\<lambda>conn ctx path msg reply opts n.
         case (msg, reply) of
           (VPtr p, VPtr a) \<Rightarrow>
             (case greqs n p of
                None \<Rightarrow> (Inr ([], Some (ForeignError 8)), n)
              | Some r \<Rightarrow>
                  (case (if path = ''/g.A/SayHello'' then Greeter_SayHello_Handler else Greeter_SayHelloWithError_Handler)
                      provider_value (f ctx) (copy_in r) (Some (OpenTracingServerInterceptor sample_env [])) (below n) of
                     (Inr (resp, err), ts) \<Rightarrow> (Inr ([(''served-by'', [''g.A''])], err), copied a resp err ts n)
                   | (Inl e, ts) \<Rightarrow> (Inr ([], Some (ForeignError 9)), n\<lparr>below := ts\<rparr>)))
         | _ \<Rightarrow> (Inr ([], Some (ForeignError 8)), n)),
       NewClientStream = (\<lambda>ctx conn method opts n. (Inr (None, Some EOF), n)) \<rparr>"

lemma traced_option_facts:
  "Location traced_option = ''up:1''" "JaegerAddress traced_option = ''jaeger:1''"
  "getServerTlsCertificate e traced_option = (None, None)" "CodecType traced_option = PBCodecName"
  by (simp_all add: traced_option_def NewTripleOption_def WithLocation_def WithJaegerConfig_def zero_option_def
      getServerTlsCertificate_def)

lemma greeter_server_ready:
  "rpcServiceMap (self greeter_sworld) = Some greeter_services" "descs_ok greeter_sworld"
  "\<forall>e \<in> set greeter_services. registrable (descs greeter_sworld) e"
  "snd (getServerTlsCertificate (sv_tls sample_server_env) (server_opt (self greeter_sworld))) \<noteq> None \<longrightarrow>
     usable (Logger (server_opt (self greeter_sworld)))"
  "net_Listen sample_server_env (calls greeter_sworld) (Location (server_opt (self greeter_sworld))) = Inr 0"
  "\<forall>d i. RegisterService (next_server greeter_sworld) d i \<notin> set (calls greeter_sworld)"
  "distinct (map fst greeter_services)" "JaegerAddress (server_opt (self greeter_sworld)) \<noteq> []"
  "\<forall>opts. NewServer (next_server greeter_sworld) opts \<notin> set (calls greeter_sworld)"
  by (simp_all add: greeter_sworld_def NewTripleServer_def traced_option_facts greeter_services_def generated_def
      sample_sworld_def descs_ok_def reflection_name_def)

lemma greeter_entry:
  "(VString ''g.A'', generated 1) \<in> set greeter_services" "as_grpc (generated 1 :: nat service) = Some (Some 0)"
  "descs greeter_sworld 0 = Some Greeter_ServiceDesc"
  by (simp_all add: greeter_services_def generated_def greeter_sworld_def)

lemma wire_serves:
  assumes arrives: "\<And>ctx. arrives ctx (f ctx)"
  shows "serves_generated arrives (\<lambda>_. sample_env) (\<lambda>_. provider_value)
    (snd (TripleServer_Start sample_server_env greeter_sworld)) (greeter_wire f) conn"
proof -
  let ?ws = "snd (TripleServer_Start sample_server_env greeter_sworld)"
  note started = started_greeter [OF greeter_server_ready greeter_entry]
  have sid: "next_server greeter_sworld = 0" by (simp add: greeter_sworld_def sample_sworld_def)
  have only: "key = ''g.A'' \<and> d = Greeter_ServiceDesc\<lparr>ServiceName := ''g.A''\<rparr>"
    if "registered 0 key (calls ?ws) = Some (d, i)" for key d i
    using that unfolding Start_run(2) [OF greeter_server_ready(1-5)]
    by (auto simp: sid greeter_sworld_def sample_sworld_def registered_append codec_notice_def unsupported_def greeter_services_def
        generated_def registration_def entry_desc_def reflection_name_def NewTripleServer_def traced_option_facts split: if_splits)
  show ?thesis
    unfolding serves_generated_def
  proof (intro allI impI)
    fix sid' key d i name h ctx p r a opts and handler :: "nat generated_handler" and n :: "nat peer"
    assume "grpcServer (self ?ws) = Some sid'" "registered sid' key (calls ?ws) = Some (d, i)"
      and m: "(name, ForeignHandler h) \<in> set (Methods d)" "handler_of h = Some handler" and r: "greqs n p = Some r"
    then have k: "sid' = 0" "key = ''g.A''" "d = Greeter_ServiceDesc\<lparr>ServiceName := ''g.A''\<rparr>"
      using started(2) only by (auto simp: sid)
    have h: "handler = (if name = ''SayHello'' then Greeter_SayHello_Handler else Greeter_SayHelloWithError_Handler)"
      "name = ''SayHello'' \<or> name = ''SayHelloWithError''"
      using m by (auto simp: k Greeter_ServiceDesc_def handler_of_def)
    have tracer: "map_option (\<lambda>tr. OpenTracingServerInterceptor sample_env []) (unary_tracer sid' (calls ?ws)) =
        Some (OpenTracingServerInterceptor sample_env [])"
      using started(3) by (simp add: k sid)
    have path: "(''/'' @ key @ ''/'' @ name = ''/g.A/SayHello'') = (name = ''SayHello'')" using h(2) by (auto simp: k)
    have dec: "decodes r (copy_in r)" by (simp add: decodes_def copy_in_def)
    show "\<exists>sctx dec trailer. arrives ctx sctx \<and> decodes r dec \<and>
        (\<forall>resp err ts. handler provider_value sctx dec
             (map_option (\<lambda>tr. OpenTracingServerInterceptor sample_env []) (unary_tracer sid' (calls ?ws))) (below n) =
             (Inr (resp, err), ts) \<longrightarrow>
           (\<exists>err'. (err' = None \<longleftrightarrow> err = None) \<and>
              ClientConn_Invoke (greeter_wire f) conn ctx (''/'' @ key @ ''/'' @ name) (VPtr p) (VPtr a) opts n =
                (Inr (trailer, err'), copied a resp err ts n)))"
      unfolding tracer h(1)
      by (intro exI [of _ "f ctx"] exI [of _ "copy_in r"] exI [of _ "[(''served-by'', [''g.A''])]"] conjI allI impI dec arrives)
        (simp add: greeter_wire_def r path del: append.simps)
  qed
qed

definition wire_env :: "nat peer client_env" where
  "wire_env = \<lparr> cl_grpc = greeter_wire (\<lambda>_. Background), cl_tls = sample_tls, cl_udp = (\<lambda>a n. (None, Some (ForeignError 3))),
     ReflectResponse = (\<lambda>res reply w. (Inr None, w)), fmt_panic = (\<lambda>p. ''bad reply'') \<rparr>"

definition wire_client :: "nat peer TripleClient" where
  "wire_client = \<lparr> stubInvoker = Some (greeter_stub (cl_grpc wire_env)
       (NewGreeterClient \<lparr> timeout = DefaultTimeout, grpcConn = Some 5 \<rparr>)),
     triplConn = None, opt = NewTripleOption [] \<rparr>"

definition wire_world :: "nat peer kworld" where
  "wire_world =
     \<lparr> logs = [], grpcCodecs = [], codecFactoryMap = Map.empty, codecInWrapperSerializerTypeMap = Map.empty,
       clock = 1000, cancels = [], dials = [], rpcs = [], closes = [],
       net = \<lparr> greqs = [3 \<mapsto> \<lparr>hello_Name = ''laurence''\<rparr>], gusers = Map.empty, gfresh = 4, gevents = [],
         below = \<lparr> trace = [], next_span = 0, ext = gstore0 \<rparr> \<rparr> \<rparr>"


end
