(* ===== verification/Propagation.thy ===== *)
theory Propagation
  imports Client_Interceptor Server_Interceptor
begin

text \<open>
  The two interceptors of \<open>src/pkg/tracing\<close> together: what the client interceptor puts into the
  outgoing metadata, the server interceptor finds again, so that the server's span continues the
  client's trace. The two run in different processes: \<open>env\<close> and \<open>senv\<close> are their tracers and libraries.

  Between them lie the tracer's wire format and gRPC's transport, both outside the repository. The
  tracer's contract is the one OpenTracing documents for a carrier: \<open>Extract\<close> gives back the
  span context whose \<open>Inject\<close> made exactly the entries that it finds under its keys, and header
  keys compare in lower case. The transport's is that the receiver sees the sender's values under
  every key the sender used; it may add keys of its own.
\<close>

definition propagation_contract :: "tenv \<Rightarrow> tenv \<Rightarrow> bool" where
  "propagation_contract cenv senv \<longleftrightarrow>
     (\<forall>sc sets pairs. tracer_Inject cenv sc = (sets, None) \<longrightarrow>
        (\<forall>(key, v) \<in> set sets. map snd (filter (\<lambda>(k, x). k = ToLower key) pairs) = added_values sets (ToLower key)) \<longrightarrow>
        fst (tracer_Extract senv pairs) = Some sc)"

definition delivered :: "tenv \<Rightarrow> tenv \<Rightarrow> Ctx \<Rightarrow> Ctx \<Rightarrow> bool" where
  "delivered cenv senv cctx sctx \<longleftrightarrow>
     (\<exists>sent received. FromOutgoingContext cenv cctx = Some sent \<and> FromIncomingContext senv sctx = Some received \<and>
        md_wf received \<and> (\<forall>k. md_get sent k \<noteq> [] \<longrightarrow> md_get received k = md_get sent k))"

text \<open>The caller's own outgoing metadata: proper, and none of the tracer's keys in it.\<close>

definition unused_keys :: "tenv \<Rightarrow> Ctx \<Rightarrow> (string \<times> string) list \<Rightarrow> bool" where
  "unused_keys env ctx sets \<longleftrightarrow>
     (\<forall>(key, v) \<in> set sets. md_get (case FromOutgoingContext env ctx of None \<Rightarrow> [] | Some md \<Rightarrow> md) (ToLower key) = [])"

section \<open>Facts\<close>

lemma client_sends:
  assumes "CallNext ctx' r \<in> set (drop (length (trace s))
    (trace (snd (OpenTracingClientInterceptor env [] ctx method req resp rest invoker s))))"
  shows "ctx' = NewOutgoingContext env ctx (injected_md env ctx (next_span s))"
  using assms unfolding OpenTracingClientInterceptor_def
  by (auto simp: Let_def go_simps run_simps finish_span_def inject_events_def tag_events_def
      split: prod.splits sum.splits option.splits if_splits)

lemma server_starts:
  "\<exists>tr. trace (snd (OpenTracingServerInterceptor env [] ctx req fullMethod handler s)) =
     trace s @ StartSpan (next_span s) fullMethod
       [RPCServerOption (fst (extractSpanContext env ctx)), gRPCComponentTag] # tr"
  unfolding OpenTracingServerInterceptor_def
  by (auto simp: Let_def go_simps run_simps finish_span_def split: prod.split sum.split option.split)

lemma extract_injected:
  assumes "propagation_contract env senv" "tracer_Inject env (span_Context env sid) = (sets, None)"
    and "unused_keys env ctx sets" "outgoing_contract env"
    and "delivered env senv (NewOutgoingContext env ctx (injected_md env ctx sid)) sctx"
  shows "fst (extractSpanContext senv sctx) = Some (span_Context env sid)"
proof -
  let ?sent = "injected_md env ctx sid"
  obtain received where r: "FromIncomingContext senv sctx = Some received" "md_wf received"
      "\<And>k. md_get ?sent k \<noteq> [] \<Longrightarrow> md_get received k = md_get ?sent k"
    using assms(4,5) by (auto simp: delivered_def outgoing_contract_def)
  have "map snd (filter (\<lambda>(k, x). k = ToLower key) (carrier_pairs received)) = added_values sets (ToLower key)"
    if "(key, v) \<in> set sets" for key v
  proof -
    have "md_get ?sent (ToLower key) = added_values sets (ToLower key)"
      using assms(2,3) that by (auto simp: injected_md_def md_get_fold_Set unused_keys_def)
    moreover have "added_values sets (ToLower key) \<noteq> []"
      using that by (force simp: added_values_def filter_empty_conv)
    ultimately show ?thesis
      using r(2,3) by (simp add: carrier_pairs_eq values_of_pairs md_wf_def)
  qed
  then have "\<forall>(key, v) \<in> set sets. map snd (filter (\<lambda>(k, x). k = ToLower key) (carrier_pairs received)) =
      added_values sets (ToLower key)" by blast
  with assms(1,2) have "fst (tracer_Extract senv (carrier_pairs received)) = Some (span_Context env sid)"
    unfolding propagation_contract_def by blast
  then show ?thesis by (simp add: extractSpanContext_def r(1))
qed

section \<open>Property\<close>

text \<open>C4: A trace crosses the wire. When the client interceptor makes an RPC under a new span and the
  context of that RPC is delivered to a server, the span that the server interceptor starts there has
  the client's span as its parent: the injected entries survive the lower-casing, the merging with
  the caller's own metadata and the walk over the received map, in whatever order it is walked and
  whatever the transport added. The caller's metadata must not use the tracer's own keys.\<close>

theorem trace_crosses_the_wire:
  assumes "propagation_contract env senv" "outgoing_contract env"
    and "tracer_Inject env (span_Context env (next_span s)) = (sets, None)" "unused_keys env ctx sets"
    and "CallNext ctx' r \<in> set (drop (length (trace s))
      (trace (snd (OpenTracingClientInterceptor env [] ctx method req resp rest invoker s))))"
    and "delivered env senv ctx' sctx"
  shows "\<exists>tr. trace (snd (OpenTracingServerInterceptor senv [] sctx req' fullMethod handler s')) =
    trace s' @ StartSpan (next_span s') fullMethod
      [RPCServerOption (Some (span_Context env (next_span s))), ComponentTag ''gRPC''] # tr"
proof -
  have "fst (extractSpanContext senv sctx) = Some (span_Context env (next_span s))"
    using extract_injected [OF assms(1,3,4,2)] client_sends [OF assms(5)] assms(6) by simp
  then show ?thesis
    using server_starts [of senv sctx req' fullMethod handler s'] by (simp add: gRPCComponentTag_def)
qed

section \<open>A concrete trace\<close>

lemma lower_uber: "ToLower ''Uber-Trace-Id'' = ''uber-trace-id''"
  by code_simp

lemma sample_propagation: "propagation_contract sample_env sample_env"
proof -
  have "fst (tracer_Extract sample_env pairs) = Some (SpanContext n)"
    if "map snd (filter (\<lambda>(k, x). k = ''uber-trace-id'') pairs) = [replicate n CHR ''1'']" for pairs n
  proof -
    from that obtain k where "filter (\<lambda>(k, x). k = ''uber-trace-id'') pairs = [(k, replicate n CHR ''1'')]" by auto
    then show ?thesis by (simp add: sample_env_def)
  qed
  then show ?thesis
    unfolding propagation_contract_def
    by (auto simp: lower_uber added_values_def sample_env_def split: spanctx.splits)
qed

text \<open>A caller with one header of its own, and the server's side of the wire, where the transport has
  added a header and the map is walked in another order.\<close>

definition caller_ctx :: Ctx where
  "caller_ctx = NewOutgoingContext sample_env Background [(''a'', [''1''])]"

definition server_ctx :: Ctx where
  "server_ctx = WithValue (ForeignKey 1)
     (md_value [(''uber-trace-id'', [''11'']), (''user-agent'', [''go'']), (''a'', [''1''])]) Background"

theorem trace_crosses_the_wire_witness:
  "\<exists>tr. trace (snd (OpenTracingServerInterceptor sample_env [] server_ctx VNil ''/g/M''
      (\<lambda>ctx req w. (Inr (VNil, None), w)) \<lparr>trace = [], next_span = 40, ext = ()\<rparr>)) =
    StartSpan 40 ''/g/M'' [RPCServerOption (Some (SpanContext 2)), ComponentTag ''gRPC''] # tr"
proof -
  let ?s = "\<lparr>trace = [], next_span = 2, ext = ()\<rparr>"
  let ?out = "NewOutgoingContext sample_env caller_ctx (injected_md sample_env caller_ctx 2)"
  have inj: "tracer_Inject sample_env (span_Context sample_env (next_span ?s)) = ([(''Uber-Trace-Id'', ''11'')], None)"
    by (simp add: sample_env_def numeral_eq_Suc)
  have md0: "FromOutgoingContext sample_env caller_ctx = Some [(''a'', [''1''])]"
    using sample_outgoing_contract by (simp add: caller_ctx_def outgoing_contract_def)
  have unused: "unused_keys sample_env caller_ctx [(''Uber-Trace-Id'', ''11'')]"
    by (simp add: unused_keys_def md0 lower_uber md_get_def)
  have sent: "FromOutgoingContext sample_env ?out = Some [(''a'', [''1'']), (''uber-trace-id'', [''11''])]"
    using sample_outgoing_contract inj
    by (simp add: outgoing_contract_def injected_md_def md0 metadata_Set_def lower_uber md_get_def)
  have lower: "ToLower ''a'' = ''a''" "ToLower ''user-agent'' = ''user-agent''" "ToLower ''uber-trace-id'' = ''uber-trace-id''"
    by code_simp+
  have recv: "FromIncomingContext sample_env server_ctx =
      Some [(''uber-trace-id'', [''11'']), (''user-agent'', [''go'']), (''a'', [''1''])]"
    by (simp add: server_ctx_def sample_env_def WithValue_def)
  have del: "delivered sample_env sample_env ?out server_ctx"
    unfolding delivered_def
    by (intro exI [of _ "[(''a'', [''1'']), (''uber-trace-id'', [''11''])]"]
        exI [of _ "[(''uber-trace-id'', [''11'']), (''user-agent'', [''go'']), (''a'', [''1''])]"])
      (auto simp: sent recv md_wf_def lower md_get_def)
  have call: "CallNext ?out VNil \<in> set (drop (length (trace ?s)) (trace (snd (OpenTracingClientInterceptor sample_env []
      caller_ctx ''/g/M'' VNil VNil () (\<lambda>ctx m req resp x w. (Inr ([], None), w)) ?s))))"
    unfolding OpenTracingClientInterceptor_def
    by (simp add: Let_def go_simps run_simps finish_span_def)
  have sc: "span_Context sample_env 2 = SpanContext 2" by (simp add: sample_env_def)
  from trace_crosses_the_wire [OF sample_propagation sample_outgoing_contract inj unused call del,
      where req' = VNil and fullMethod = "''/g/M''" and handler = "\<lambda>ctx req w. (Inr (VNil, None), w)"
        and s' = "\<lparr>trace = [], next_span = 40, ext = ()\<rparr>"]
  show ?thesis by (simp add: sc)
qed

end
