(* ===== verification/Distributed_Trace.thy ===== *)
theory Distributed_Trace
  imports Greeter_End_To_End Propagation
begin

text \<open>
  One call, one trace: a client and a server that both have a Jaeger address, with the greeter between them. The
  client's constructor hands its interceptor to the dial (\<open>NewTripleClient\<close>), the server's to the gRPC server
  (\<open>newGrpcServerWithCodec\<close>); gRPC runs the first around every call of the connection and the second around the
  handler, and carries the metadata from one to the other.

  The world below the client's store has two sides: what the client's tracer was told, and the server process of
  \<open>Greeter_End_To_End\<close>. The transport \<open>wire\<close> is gRPC without the client's interceptor; the contract \<open>intercepts\<close>
  says how a connection dialled with an interceptor uses it.
\<close>

record 's sides =
  client_side :: "unit tw"
  server_side :: "'s gstore tw"

type_synonym 's wide = "'s sides gstore"

text \<open>The transport sees the client's objects and the server; the interceptor sees the client's tracer.\<close>

definition to_peer :: "'s wide \<Rightarrow> 's peer" where
  "to_peer n = \<lparr> greqs = greqs n, gusers = gusers n, gfresh = gfresh n, gevents = gevents n, below = server_side (below n) \<rparr>"

definition from_peer :: "'s wide \<Rightarrow> 's peer \<Rightarrow> 's wide" where
  "from_peer n q = n\<lparr>greqs := greqs q, gusers := gusers q, gfresh := gfresh q, gevents := gevents q,
     below := (below n)\<lparr>server_side := below q\<rparr>\<rparr>"

definition on_peer :: "('s peer, 'a) go \<Rightarrow> ('s wide, 'a) go" where
  "on_peer m n = (case m (to_peer n) of (r, q) \<Rightarrow> (r, from_peer n q))"

definition with_tracer :: "('s wide tw, 'a) go \<Rightarrow> ('s wide, 'a) go" where
  "with_tracer m n =
     (case m \<lparr>trace = trace (client_side (below n)), next_span = next_span (client_side (below n)), ext = n\<rparr> of
        (r, t) \<Rightarrow> (r, (ext t)\<lparr>below := (below (ext t))\<lparr>client_side :=
          \<lparr>trace = trace t, next_span = next_span t, ext = ()\<rparr>\<rparr>\<rparr>))"

text \<open>The tracer whose unary interceptor is among the dial options.\<close>

fun dial_tracer :: "dial_option list \<Rightarrow> Tracer option" where
  "dial_tracer [] = None"
| "dial_tracer (WithUnaryInterceptor tr # opts) = Some tr"
| "dial_tracer (_ # opts) = dial_tracer opts"

definition intercepts ::
    "(Tracer \<Rightarrow> tenv) \<Rightarrow> dial_option list \<Rightarrow> 's wide grpc_env \<Rightarrow> nat option \<Rightarrow> 's peer grpc_env \<Rightarrow> bool" where
  "intercepts tracers dopts env conn wire \<longleftrightarrow> (\<forall>ctx method req reply opts.
     let invoker = (\<lambda>ctx method req reply opts. on_peer (ClientConn_Invoke wire conn ctx method req reply opts))
     in ClientConn_Invoke env conn ctx method req reply opts =
       (case dial_tracer dopts of
          None \<Rightarrow> invoker ctx method req reply opts
        | Some tr \<Rightarrow> with_tracer (OpenTracingClientInterceptor (tracers tr) [] ctx method req reply opts invoker)))"

text \<open>gRPC delivers well-formed outgoing metadata.\<close>

definition arrives :: "tenv \<Rightarrow> tenv \<Rightarrow> Ctx \<Rightarrow> Ctx \<Rightarrow> bool" where
  "arrives cenv senv ctx sctx \<longleftrightarrow>
     (\<forall>sent. FromOutgoingContext cenv ctx = Some sent \<longrightarrow> md_wf sent \<longrightarrow> delivered cenv senv ctx sctx)"

section \<open>Facts\<close>

lemma dial_tracer_append: "dial_tracer (xs @ ys) = (case dial_tracer xs of None \<Rightarrow> dial_tracer ys | Some tr \<Rightarrow> Some tr)"
  by (induction xs rule: dial_tracer.induct) simp_all

lemma dialled_tracer:
  assumes "JaegerAddress o0 \<noteq> []"
  shows "dial_tracer (dial_opts udp o0 creds) = Some (client_tracer udp o0)"
  using assms by (simp add: dial_opts_def tracing_dial_opts_def)

lemma to_from_peer [simp]:
  "to_peer (from_peer n q) = q" "client_side (below (from_peer n q)) = client_side (below n)"
  "gusers (from_peer n q) = gusers q" "gfresh (from_peer n q) = gfresh q" "server_side (below (from_peer n q)) = below q"
  "greqs (to_peer n) = greqs n" "gfresh (to_peer n) = gfresh n" "gusers (to_peer n) = gusers n"
  "below (to_peer n) = server_side (below n)"
  by (simp_all add: to_peer_def from_peer_def)

text \<open>What an intercepted call tells the client's tracer when the transport returns.\<close>

definition call_span :: "tenv \<Rightarrow> nat \<Rightarrow> string \<Rightarrow> Ctx \<Rightarrow> goval \<Rightarrow> goerror option \<Rightarrow> span_event list" where
  "call_span env sid path ctx req err =
     [StartSpan sid path [ChildOf (parent_context env ctx), SpanKindRPCClient, gRPCComponentTag]] @ inject_events env sid @
     [CallNext (NewOutgoingContext env ctx (injected_md env ctx sid)) req] @ failure_events env sid err True @ [FinishSpan sid]"

lemma intercepted_call:
  assumes "intercepts tracers dopts env conn wire" "dial_tracer dopts = Some tr"
    and sid: "sid = next_span (client_side (below n))"
    and run: "ClientConn_Invoke wire conn (NewOutgoingContext (tracers tr) ctx (injected_md (tracers tr) ctx sid)) path req reply opts
      (to_peer n) = (Inr (trailer, err), q)"
  shows "ClientConn_Invoke env conn ctx path req reply opts n = (Inr (trailer, err),
    (from_peer n q)\<lparr>below := (below (from_peer n q))\<lparr>client_side :=
      \<lparr>trace = trace (client_side (below n)) @ call_span (tracers tr) sid path ctx req err, next_span = Suc sid, ext = ()\<rparr>\<rparr>\<rparr>)"
proof -
  have "on_peer (ClientConn_Invoke wire conn (NewOutgoingContext (tracers tr) ctx (injected_md (tracers tr) ctx sid)) path req reply opts) n =
      (Inr (trailer, err), from_peer n q)"
    by (simp add: on_peer_def run)
  with assms(1,2) show ?thesis
    by (simp add: intercepts_def with_tracer_def OpenTracingClientInterceptor_def Let_def go_simps run_simps
        finish_span_def failure_events_def call_span_def sid split: option.split)
qed

lemma built_tracer:
  assumes "NewTripleClient env (GreeterClientImpl_GetDubboStub (cl_grpc env)) (Some o0) w0 = (Inr (Some t, None), w1)"
    and "CodecType o0 = PBCodecName" "usable (Logger o0)" "JaegerAddress o0 \<noteq> []"
    and dials: "dials w1 = dials w0 @ [(dctx, addr, dopts)]"
  shows "dial_tracer dopts = Some (client_tracer (cl_udp env) o0)"
proof -
  obtain k where k: "log_sink (Logger o0) = Some k" using assms(3) by (auto simp: usable_sink)
  obtain creds err where c: "getClientTlsCertificate (cl_tls env) o0 = (creds, err)" by force
  have o0: "effective_option (Some o0) = o0" by (simp add: effective_option_def)
  show ?thesis
  proof (cases err)
    case (Some e)
    then show ?thesis using assms(1) NewTripleClient_tls_error [OF o0 c [unfolded Some] k] by simp
  next
    case None
    have "dopts = dial_opts (cl_udp env) o0 creds"
      using assms(1,2) dials
      by (auto simp: NewTripleClient_dials [OF o0 c [unfolded None]] Let_def getInvoker_def
          GreeterClientImpl_GetDubboStub_def go_simps)
    with dialled_tracer [OF assms(4)] show ?thesis by simp
  qed
qed

text \<open>The metadata an intercepted call sends is the caller's and the tracer's, so it arrives.\<close>

lemma injected_arrives:
  assumes "arrives cenv senv (NewOutgoingContext cenv ctx (injected_md cenv ctx sid)) sctx" "outgoing_contract cenv"
    and "\<forall>md. FromOutgoingContext cenv ctx = Some md \<longrightarrow> md_wf md"
  shows "delivered cenv senv (NewOutgoingContext cenv ctx (injected_md cenv ctx sid)) sctx"
proof -
  have "md_wf (injected_md cenv ctx sid)"
    using assms(3) by (simp add: injected_md_def md_wf_fold_Set split: option.split)
  with assms(1,2) show ?thesis by (auto simp: arrives_def outgoing_contract_def)
qed

section \<open>Property\<close>



section \<open>A concrete trace\<close>

text \<open>The server hands its handlers the metadata that the client sent.\<close>

definition incoming :: "Ctx \<Rightarrow> Ctx" where
  "incoming ctx = (case FromOutgoingContext sample_env ctx of
     None \<Rightarrow> Background | Some md \<Rightarrow> WithValue (ForeignKey 1) (md_value md) Background)"

lemma incoming_arrives: "arrives sample_env sample_env ctx (incoming ctx)"
  unfolding arrives_def
proof (intro allI impI)
  fix sent
  assume sent: "FromOutgoingContext sample_env ctx = Some sent" "md_wf sent"
  have "FromIncomingContext sample_env (incoming ctx) = Some sent"
    by (simp add: incoming_def sent(1)) (simp add: sample_env_def WithValue_def)
  with sent show "delivered sample_env sample_env ctx (incoming ctx)" by (auto simp: delivered_def)
qed

definition traced_grpc :: "nat wide grpc_env" where
  "traced_grpc =
     \<lparr> DialContext = (\<lambda>ctx addr opts. (Some 5, None)),
       ClientConn_Invoke = (\<lambda>conn ctx method req reply opts.
         with_tracer (OpenTracingClientInterceptor sample_env [] ctx method req reply opts
           (\<lambda>ctx method req reply opts. on_peer (ClientConn_Invoke (greeter_wire incoming) conn ctx method req reply opts)))),
       NewClientStream = (\<lambda>ctx conn method opts n. (Inr (None, Some EOF), n)) \<rparr>"

definition traced_env :: "nat wide client_env" where
  "traced_env = \<lparr> cl_grpc = traced_grpc, cl_tls = sample_tls, cl_udp = (\<lambda>a n. (None, Some (ForeignError 3))),
     ReflectResponse = (\<lambda>res reply w. (Inr None, w)), fmt_panic = (\<lambda>p. ''bad reply'') \<rparr>"

definition traced_client :: "nat wide TripleClient" where
  "traced_client = \<lparr> stubInvoker = Some (greeter_stub traced_grpc (NewGreeterClient \<lparr> timeout = Timeout traced_option, grpcConn = Some 5 \<rparr>)),
     triplConn = None, opt = traced_option \<rparr>"

definition traced_world :: "nat wide kworld" where
  "traced_world =
     \<lparr> logs = [], grpcCodecs = [], codecFactoryMap = Map.empty, codecInWrapperSerializerTypeMap = Map.empty,
       clock = 1000, cancels = [], dials = [], rpcs = [], closes = [],
       net = \<lparr> greqs = [3 \<mapsto> \<lparr>hello_Name = ''laurence''\<rparr>], gusers = Map.empty, gfresh = 4, gevents = [],
         below = \<lparr> client_side = \<lparr> trace = [], next_span = 2, ext = () \<rparr>,
           server_side = \<lparr> trace = [], next_span = 0, ext = gstore0 \<rparr> \<rparr> \<rparr> \<rparr>"



end
