(* ===== verification/Server_Lifecycle.thy ===== *)
theory Server_Lifecycle
  imports Server
begin

text \<open>
  The server object over its whole life: any sequence of \<open>Start\<close>, \<open>Stop\<close> and
  \<open>RefreshService\<close> calls (\<open>src/pkg/triple/dubbo3_server.go\<close>, lines 76 to 79 and 253 to 306),
  including calls that panic part-way and are recovered by the caller, with the rest of the process
  changing the service map, the descriptors and the codec registry in between.

  gRPC documents that all services must be registered before \<open>Serve\<close> is called. The predicate
  \<open>ordered\<close> states this discipline, and what goes with it, of the sequence of calls; it is an
  invariant of every reachable state.
\<close>

section \<open>The discipline\<close>

definition created :: "nat \<Rightarrow> server_event list \<Rightarrow> bool" where
  "created s cs \<longleftrightarrow> list_ex (\<lambda>c. case c of NewServer s' _ \<Rightarrow> s' = s | _ \<Rightarrow> False) cs"

definition served :: "nat \<Rightarrow> server_event list \<Rightarrow> bool" where
  "served s cs \<longleftrightarrow> list_ex (\<lambda>c. case c of GoServe s' _ \<Rightarrow> s' = s | _ \<Rightarrow> False) cs"

definition listened :: "nat \<Rightarrow> server_event list \<Rightarrow> bool" where
  "listened l cs \<longleftrightarrow> list_ex (\<lambda>c. case c of Listen _ (Inr l') \<Rightarrow> l' = l | _ \<Rightarrow> False) cs"

text \<open>What may be called after the calls \<open>cs\<close>.\<close>

fun allowed :: "server_event list \<Rightarrow> server_event \<Rightarrow> bool" where
  "allowed cs (NewServer s _) \<longleftrightarrow> \<not> created s cs \<and> \<not> served s cs"
| "allowed cs (RegisterService s _ _) \<longleftrightarrow> created s cs \<and> \<not> served s cs"
| "allowed cs (SetGRPCServer _ s) \<longleftrightarrow> created s cs \<and> \<not> served s cs"
| "allowed cs (GoServe s l) \<longleftrightarrow> created s cs \<and> \<not> served s cs \<and> (case l of None \<Rightarrow> True | Some x \<Rightarrow> listened x cs)"
| "allowed cs (StopServer s) \<longleftrightarrow> served s cs"
| "allowed cs (CloseListener l) \<longleftrightarrow> listened l cs"
| "allowed cs _ \<longleftrightarrow> True"

primrec ordered_from :: "server_event list \<Rightarrow> server_event list \<Rightarrow> bool" where
  "ordered_from cs [] \<longleftrightarrow> True"
| "ordered_from cs (e # es) \<longleftrightarrow> allowed cs e \<and> ordered_from (cs @ [e]) es"

definition ordered :: "server_event list \<Rightarrow> bool" where
  "ordered cs \<longleftrightarrow> ordered_from [] cs"

lemma ordered_from_append:
  "ordered_from cs (xs @ ys) \<longleftrightarrow> ordered_from cs xs \<and> ordered_from (cs @ xs) ys"
  by (induction xs arbitrary: cs) auto

lemma ordered_append [simp]: "ordered (xs @ ys) \<longleftrightarrow> ordered xs \<and> ordered_from xs ys"
  by (simp add: ordered_def ordered_from_append)

lemma ordered_Nil [simp]: "ordered []"
  by (simp add: ordered_def)

lemma marks_append [simp]:
  "created s (xs @ ys) \<longleftrightarrow> created s xs \<or> created s ys"
  "served s (xs @ ys) \<longleftrightarrow> served s xs \<or> served s ys"
  "listened l (xs @ ys) \<longleftrightarrow> listened l xs \<or> listened l ys"
  by (auto simp: created_def served_def listened_def)

lemma marks_Cons [simp]:
  "created s (e # es) \<longleftrightarrow> (case e of NewServer s' _ \<Rightarrow> s' = s | _ \<Rightarrow> False) \<or> created s es"
  "served s (e # es) \<longleftrightarrow> (case e of GoServe s' _ \<Rightarrow> s' = s | _ \<Rightarrow> False) \<or> served s es"
  "listened l (e # es) \<longleftrightarrow> (case e of Listen _ (Inr l') \<Rightarrow> l' = l | _ \<Rightarrow> False) \<or> listened l es"
  "\<not> created s []" "\<not> served s []" "\<not> listened l []"
  by (simp_all add: created_def served_def listened_def)

section \<open>The life of a server\<close>

text \<open>\<open>outside\<close>: the rest of the process may change anything but the private state of the server
  and the calls it made.\<close>

inductive life :: "server_env \<Rightarrow> 'w sworld \<Rightarrow> bool" for env :: server_env where
  new: "calls w = [] \<Longrightarrow> self w = NewTripleServer m o0 \<Longrightarrow> life env w"
| start: "life env w \<Longrightarrow> life env (snd (TripleServer_Start env w))"
| stop: "life env w \<Longrightarrow> life env (snd (TripleServer_Stop w))"
| refresh: "life env w \<Longrightarrow> life env (snd (TripleServer_RefreshService env w))"
| outside: "life env w \<Longrightarrow> calls w' = calls w \<Longrightarrow> next_server w' = next_server w \<Longrightarrow>
    lst (self w') = lst (self w) \<Longrightarrow> grpcServer (self w') = grpcServer (self w) \<Longrightarrow> life env w'"

text \<open>The invariant.\<close>

definition tidy :: "'w sworld \<Rightarrow> bool" where
  "tidy w \<longleftrightarrow> ordered (calls w) \<and>
     (\<forall>s. created s (calls w) \<or> served s (calls w) \<longrightarrow> s < next_server w) \<and>
     (\<forall>s. grpcServer (self w) = Some s \<longrightarrow> served s (calls w)) \<and>
     (\<forall>l. lst (self w) = Some l \<longrightarrow> listened l (calls w))"

text \<open>While a new server is being filled, with the listeners \<open>ls\<close> open.\<close>

definition filling :: "nat list \<Rightarrow> nat \<Rightarrow> 'w sworld \<Rightarrow> bool" where
  "filling ls sid w \<longleftrightarrow> tidy w \<and> created sid (calls w) \<and> \<not> served sid (calls w) \<and>
     (\<forall>l \<in> set ls. listened l (calls w))"

lemma tidy_parts [simp]:
  "tidy (w\<lparr>logs := x\<rparr>) = tidy w" "tidy (w\<lparr>descs := y\<rparr>) = tidy w" "tidy (w\<lparr>next_desc := n\<rparr>) = tidy w"
  "tidy (w\<lparr>self := (self w)\<lparr>registeredKey := k\<rparr>\<rparr>) = tidy w"
  by (simp_all add: tidy_def)

lemma filling_parts [simp]:
  "filling ls s (w\<lparr>logs := x\<rparr>) = filling ls s w" "filling ls s (w\<lparr>descs := y\<rparr>) = filling ls s w"
  "filling ls s (w\<lparr>next_desc := n\<rparr>) = filling ls s w"
  "filling ls s (w\<lparr>self := (self w)\<lparr>registeredKey := k\<rparr>\<rparr>) = filling ls s w"
  by (simp_all add: filling_def tidy_def)

lemma filling_tidy: "filling ls s w \<Longrightarrow> tidy w"
  by (simp add: filling_def)

lemma keeps_log [keeps_rules]: "(\<And>w x. I w \<Longrightarrow> I (w\<lparr>logs := x\<rparr>)) \<Longrightarrow> keeps I (log_stmt l c)"
  unfolding log_stmt_def by (intro keeps_rules) simp

lemma keeps_emit [keeps_rules]:
  "(\<And>w. I w \<Longrightarrow> I (w\<lparr>calls := calls w @ [e]\<rparr>)) \<Longrightarrow> keeps I (emit_ev e)"
  unfolding emit_ev_def by (rule keeps_modify)

lemma keeps_self [keeps_rules]:
  "(\<And>w. I w \<Longrightarrow> I (w\<lparr>self := f (self w)\<rparr>)) \<Longrightarrow> keeps I (on_self f)"
  unfolding on_self_def by (rule keeps_modify)

lemma filling_emit:
  assumes "filling ls sid w" "e = RegisterService sid d v \<or> e = SetGRPCServer v sid"
  shows "filling ls sid (w\<lparr>calls := calls w @ [e]\<rparr>)"
  using assms by (auto simp: filling_def tidy_def)

text \<open>Registering one service keeps the server fillable, also when it panics.\<close>

lemma register_value_filling [keeps_rules]: "keeps (filling ls sid) (register_value sid key v)"
  unfolding register_value_def
  by (auto simp: filling_emit split: option.split intro!: keeps_rules)

lemma newGrpcServerWithCodec_filling:
  "triple (\<lambda>w. tidy w \<and> (\<forall>l \<in> set ls. listened l (calls w)))
     (newGrpcServerWithCodec env o0 :: ('w sworld, nat) go) (filling ls) tidy"
proof (unfold triple_def, intro allI impI)
  fix w :: "'w sworld"
  assume t: "tidy w \<and> (\<forall>l \<in> set ls. listened l (calls w))"
  show "case newGrpcServerWithCodec env o0 w of (Inl p, s) \<Rightarrow> tidy s | (Inr sid, s) \<Rightarrow> filling ls sid s"
  proof (cases "snd (getServerTlsCertificate (sv_tls env) o0) \<noteq> None \<longrightarrow> usable (Logger o0)")
    case True
    have "filling ls (next_server w) (built env o0 w)"
      using t by (auto simp: filling_def tidy_def codec_notice_def less_Suc_eq)
    with True show ?thesis by (simp add: newGrpcServerWithCodec_run)
  next
    case False
    with t show ?thesis by (simp add: newGrpcServerWithCodec_panic)
  qed
qed

text \<open>The common part of \<open>Start\<close> and \<open>RefreshService\<close>: a new server is filled from the
  service map, then \<open>rest\<close> puts it in charge.\<close>

lemma fill_new_server:
  fixes rest :: "nat \<Rightarrow> ('w sworld, unit) go"
  assumes "\<And>sid m. keeps (filling ls sid) (body sid m)"
    and "\<And>sid. triple (filling ls sid) (rest sid) (\<lambda>_. tidy) tidy"
  shows "triple (\<lambda>w. tidy w \<and> (\<forall>l \<in> set ls. listened l (calls w)))
    (go_bind (newGrpcServerWithCodec env o0) (\<lambda>sid.
      go_bind (go_gets (\<lambda>w. rpcServiceMap (self w))) (\<lambda>m0.
      go_bind (go_deref m0) (\<lambda>m. go_then (body sid m) (rest sid))))) (\<lambda>_. tidy) tidy"
  by (rule triple_bind [OF newGrpcServerWithCodec_filling],
      intro triple_keeps_bind keeps_simple triple_keeps_then assms) (erule filling_tidy)+

lemma Start_tidy: "keeps tidy (TripleServer_Start env :: ('w sworld, unit) go)"
proof -
  have serve: "triple (filling [lis] sid)
      (go_then (emit_ev (GoServe sid (Some lis)))
        (go_then (on_self (\<lambda>t. t\<lparr>lst := Some lis\<rparr>)) (on_self (\<lambda>t. t\<lparr>grpcServer := Some sid\<rparr>))) :: ('w sworld, unit) go)
      (\<lambda>_. tidy) tidy" for sid lis
    by (auto simp: triple_def go_simps filling_def tidy_def)
  let ?listening = "\<lambda>r w. tidy w \<and> (case r of Inl _ \<Rightarrow> True | Inr l \<Rightarrow> \<forall>x \<in> set [l]. listened x (calls w))"
  have listen: "triple tidy (emit_ev (Listen a r) :: ('w sworld, unit) go) (\<lambda>_. ?listening r) tidy" for a r
    by (auto simp: triple_def tidy_def split: sum.split)
  show ?thesis
    unfolding TripleServer_Start_def keeps_def
    by (intro triple_keeps_bind keeps_simple triple_then [OF listen])
      (auto split: sum.split intro!: triple_panic fill_new_server [where ls = "[_]", simplified] keeps_rules serve)
qed

lemma Stop_tidy: "keeps tidy (TripleServer_Stop :: ('w sworld, unit) go)"
  by (auto simp: keeps_def triple_def TripleServer_Stop_def go_simps go_deref_def tidy_def split: option.split)

lemma Refresh_tidy: "keeps tidy (TripleServer_RefreshService env :: ('w sworld, unit) go)"
proof -
  let ?swap = "\<lambda>a sid. go_bind (go_gets (\<lambda>w :: 'w sworld. grpcServer (self w))) (\<lambda>old0.
       go_bind (go_deref old0) (\<lambda>old.
       go_then (emit_ev (StopServer old))
       (go_bind (go_gets (\<lambda>w. lst (self w))) (\<lambda>l0.
        go_bind (go_deref l0) (\<lambda>l.
        go_then (emit_ev (CloseListener l))
        (go_bind (go_gets (\<lambda>w. net_Listen env (calls w) a)) (\<lambda>r.
         go_then (emit_ev (Listen a r))
         (let lis = (case r of Inl _ \<Rightarrow> None | Inr x \<Rightarrow> Some x)
          in go_then (emit_ev (GoServe sid lis))
            (go_then (on_self (\<lambda>t. t\<lparr>grpcServer := Some sid\<rparr>))
            (on_self (\<lambda>t. t\<lparr>lst := lis\<rparr>)))))))))))"
  have swap: "triple (filling [] sid) (?swap a sid) (\<lambda>_. tidy) tidy" for a sid
    by (auto simp: triple_def go_simps go_deref_def filling_def tidy_def Let_def split: option.split sum.split)
  show ?thesis
    unfolding TripleServer_RefreshService_def keeps_def
    by (rule triple_keeps_bind [OF keeps_simple(3)], assumption, rule triple_keeps_then [OF keeps_log])
      (auto intro!: fill_new_server [where ls = "[]", simplified, OF _ swap] keeps_rules)
qed

section \<open>The contract of an operation\<close>

text \<open>What the caller of any operation of the server may rely on: the discipline holds afterwards,
  whether the operation returned or panicked.\<close>

locale server_operation =
  fixes operation :: "('w sworld, unit) go"
  assumes operation_tidy: "keeps tidy operation"
begin

lemma step: "tidy w \<Longrightarrow> tidy (snd (operation w))"
  by (rule keepsD [OF operation_tidy])

end

interpretation op_start: server_operation "TripleServer_Start env" for env
  by unfold_locales (rule Start_tidy)

interpretation op_stop: server_operation TripleServer_Stop
  by unfold_locales (rule Stop_tidy)

interpretation op_refresh: server_operation "TripleServer_RefreshService env" for env
  by unfold_locales (rule Refresh_tidy)

inductive_cases life_cases: "life env w"

lemma life_tidy: "life env w \<Longrightarrow> tidy w"
proof (induction rule: life.induct)
  case (new w m o0)
  then show ?case by (simp add: tidy_def NewTripleServer_def Let_def)
next
  case (outside w w')
  then show ?case by (simp add: tidy_def)
qed (simp_all add: op_start.step op_stop.step op_refresh.step)

section \<open>Properties\<close>

text \<open>C6: Over the whole life of a server object, through any sequence of \<open>Start\<close>, \<open>Stop\<close>
  and \<open>RefreshService\<close> calls, panicking ones included, and whatever the rest of the process does
  to the service map in between: a service is registered on a gRPC server only after that server was
  created and before it starts to serve, as gRPC requires; no server starts to serve twice; only
  servers that serve are stopped and only listeners that were opened are closed.\<close>

theorem registered_before_served:
  assumes "life env w" "calls w = xs @ e # ys"
  shows "(case e of
      RegisterService s d v \<Rightarrow> created s xs \<and> \<not> served s xs
    | SetGRPCServer v s \<Rightarrow> created s xs \<and> \<not> served s xs
    | GoServe s l \<Rightarrow> created s xs \<and> \<not> served s xs \<and> (\<forall>x. l = Some x \<longrightarrow> listened x xs)
    | NewServer s opts \<Rightarrow> \<not> created s xs
    | StopServer s \<Rightarrow> served s xs
    | CloseListener l \<Rightarrow> listened l xs
    | _ \<Rightarrow> True)"
proof -
  have "allowed xs e" using life_tidy [OF assms(1)] assms(2) by (simp add: tidy_def)
  then show ?thesis by (cases e) (auto split: option.splits)
qed

text \<open>Nothing serves yet, and nothing new starts to.\<close>

definition idle :: "server_event set \<Rightarrow> 'w sworld \<Rightarrow> bool" where
  "idle G w \<longleftrightarrow> grpcServer (self w) = None \<and> (\<forall>s l. GoServe s l \<in> set (calls w) \<longrightarrow> GoServe s l \<in> G)"

lemma idle_building:
  "keeps (idle G) (newGrpcServerWithCodec env o0 :: ('w sworld, nat) go)"
  "keeps (idle G) (register_value sid key v)"
proof -
  show "keeps (idle G) (newGrpcServerWithCodec env o0 :: ('w sworld, nat) go)"
    by (cases "snd (getServerTlsCertificate (sv_tls env) o0) \<noteq> None \<longrightarrow> usable (Logger o0)")
      (auto simp: keeps_def triple_def idle_def codec_notice_def newGrpcServerWithCodec_run newGrpcServerWithCodec_panic)
  show "keeps (idle G) (register_value sid key v)"
    unfolding register_value_def
    by (auto simp: idle_def split: option.split intro!: keeps_rules)
qed

lemma Refresh_idle: "triple (idle G) (TripleServer_RefreshService env :: ('w sworld, unit) go) (\<lambda>_ _. False) (idle G)"
proof -
  have stop: "triple (idle G) (go_bind (go_gets (\<lambda>w :: 'w sworld. grpcServer (self w)))
      (\<lambda>old0. go_bind (go_deref old0) k)) (\<lambda>_ _. False) (idle G)" for k :: "nat \<Rightarrow> ('w sworld, unit) go"
    by (auto simp: triple_def go_simps idle_def)
  show ?thesis
    unfolding TripleServer_RefreshService_def
    by (intro triple_keeps_bind keeps_simple triple_keeps_then keeps_log idle_building keeps_each stop)
      (auto simp: idle_def intro: idle_building)
qed

lemma Start_lst:
  "triple (\<lambda>w'. w' = w) (TripleServer_Start env :: ('w sworld, unit) go)
     (\<lambda>_ w'. \<exists>lis. net_Listen env (calls w) (Location (server_opt (self w))) = Inr lis \<and> lst (self w') = Some lis) (\<lambda>_. True)"
proof -
  let ?listen = "\<lambda>o0. net_Listen env (calls w) (Location o0)"
  have last: "triple (\<lambda>_. True) (go_then (on_self (\<lambda>t. t\<lparr>lst := Some lis\<rparr>)) (on_self (\<lambda>t. t\<lparr>grpcServer := Some sid\<rparr>)))
      (\<lambda>_ (w' :: 'w sworld). \<exists>l. Inr lis = Inr l \<and> lst (self w') = Some l) (\<lambda>_. True)" for lis sid
    by (simp add: triple_def go_simps)
  let ?goal = "\<lambda>_ (w' :: 'w sworld). \<exists>lis. ?listen (server_opt (self w)) = Inr lis \<and> lst (self w') = Some lis"
  have read: "triple (\<lambda>w'. w' = w) (go_bind (go_gets f) g) Q E"
    if "triple (\<lambda>w'. w' = w) (g (f w)) Q E" for f and g :: "'b \<Rightarrow> ('w sworld, unit) go" and Q E
    using that by (simp add: triple_def go_simps)
  have emit: "triple (\<lambda>w'. w' = w) (go_then (emit_ev e) n) Q (\<lambda>_. True)"
    if "triple (\<lambda>_. True) n Q (\<lambda>_. True)" for e and n :: "('w sworld, unit) go" and Q
    using that by (simp add: triple_def go_simps)
  show ?thesis
    unfolding TripleServer_Start_def
    by (intro read emit, cases "?listen (server_opt (self w))")
      (auto intro!: triple_panic triple_keeps_bind triple_keeps_then keeps_True last [simplified])
qed

text \<open>Before a server was started there is nothing to stop or to refresh: \<open>Stop\<close> on a new
  server panics, and so does \<open>RefreshService\<close>, after it has built and filled a gRPC server that
  nobody will ever serve. After a \<open>Start\<close> that returned, \<open>Stop\<close> closes exactly the
  listener that was opened, once per call; it does not stop the gRPC server.\<close>

theorem stop_and_refresh_need_start:
  fixes w :: "'w sworld"
  shows "(self w = NewTripleServer m o0 \<longrightarrow>
      TripleServer_Stop w = (Inl NilDereference, w) \<and>
      (\<exists>p w'. TripleServer_RefreshService env w = (Inl p, w') \<and> (\<forall>s l. GoServe s l \<in> set (calls w') \<longrightarrow> GoServe s l \<in> set (calls w)))) \<and>
    (fst (TripleServer_Start env w) = Inr () \<longrightarrow>
      (\<exists>lis. lst (self (snd (TripleServer_Start env w))) = Some lis \<and>
        net_Listen env (calls w) (Location (server_opt (self w))) = Inr lis \<and>
        TripleServer_Stop (snd (TripleServer_Start env w)) =
          (Inr (), (snd (TripleServer_Start env w))\<lparr>calls := calls (snd (TripleServer_Start env w)) @ [CloseListener lis]\<rparr>)))"
proof -
  have "TripleServer_Stop w = (Inl NilDereference, w)" if "self w = NewTripleServer m o0"
    using that by (simp add: TripleServer_Stop_def NewTripleServer_def Let_def)
  moreover have "\<exists>p w'. TripleServer_RefreshService env w = (Inl p, w') \<and>
      (\<forall>s l. GoServe s l \<in> set (calls w') \<longrightarrow> GoServe s l \<in> set (calls w))" if "self w = NewTripleServer m o0"
  proof -
    have "idle (set (calls w)) w" using that by (simp add: idle_def NewTripleServer_def Let_def)
    with Refresh_idle show ?thesis by (rule triple_outcome) (auto simp: idle_def)
  qed
  moreover have "\<exists>lis. lst (self (snd (TripleServer_Start env w))) = Some lis \<and>
        net_Listen env (calls w) (Location (server_opt (self w))) = Inr lis" if "fst (TripleServer_Start env w) = Inr ()"
    by (rule triple_outcome [OF Start_lst [of w env] refl]) (use that in auto)
  ultimately show ?thesis
    by (auto simp: TripleServer_Stop_def go_simps)
qed

section \<open>Concrete lives\<close>

definition started :: "nat sworld" where
  "started = snd (TripleServer_Start sample_server_env (sample_sworld (NewTripleOption [WithLocation ''up:1''])))"

lemma started_run:
  "fst (TripleServer_Start sample_server_env (sample_sworld (NewTripleOption [WithLocation ''up:1'']))) = Inr ()"
  "calls started = [Listen ''up:1'' (Inr 0), NewServer 0 [Creds InsecureCredentials],
      RegisterService 0 (sample_desc\<lparr>ServiceName := ''g.A''\<rparr>) 1] @
      RegisterService 0 (sample_desc\<lparr>ServiceName := ''g.B''\<rparr>) 2 #
      [RegisterService 0 (createGrpcDesc ''u.C'' 3) 3, GoServe 0 (Some 0)]"
  using Start_run [of "sample_sworld (NewTripleOption [WithLocation ''up:1''])" sample_services sample_server_env 0]
    sample_registrable sample_registrations [of 0]
  by (simp_all add: started_def NewTripleServer_def sample_opts)

lemma started_life: "life sample_server_env started"
  unfolding started_def
  by (rule life.start, rule life.new [where m = "Some sample_services"
      and ?o0.0 = "Some (NewTripleOption [WithLocation ''up:1''])"]) simp_all

theorem registered_before_served_witness:
  "life sample_server_env started \<and>
   created 0 [Listen ''up:1'' (Inr 0), NewServer 0 [Creds InsecureCredentials],
      RegisterService 0 (sample_desc\<lparr>ServiceName := ''g.A''\<rparr>) 1]"
  using registered_before_served [OF started_life started_run(2)] started_life by simp

theorem stop_and_refresh_need_start_witness:
  "fst (TripleServer_Stop (sample_sworld zero_option)) = Inl NilDereference \<and>
   (\<exists>p w'. TripleServer_RefreshService sample_server_env (sample_sworld zero_option) = (Inl p, w')) \<and>
   lst (self started) = Some 0"
  using stop_and_refresh_need_start [of "sample_sworld zero_option" "Some sample_services" "Some zero_option" sample_server_env]
    stop_and_refresh_need_start [of "sample_sworld (NewTripleOption [WithLocation ''up:1''])" "Some sample_services"
      "Some zero_option" sample_server_env]
    started_run(1)
  by (auto simp: started_def NewTripleServer_def)

end
