(* ===== verification/Server_Concurrency.thy ===== *)
theory Server_Concurrency
  imports Server_Lifecycle Schedules
begin

text \<open>
  One server object used by several goroutines at once (\<open>src/pkg/triple/dubbo3_server.go\<close>). The object has no
  lock; its fields, the service map, the descriptors and the registry are shared. Here \<open>Start\<close>, \<open>Stop\<close> and
  \<open>RefreshService\<close> are cut into their statements: a goroutine is at a program point \<open>srv_pc\<close>, \<open>srv_next\<close> is
  the statement there, and a schedule says who goes next. A statement that reads and writes one field, or that
  makes one call, is one step; renaming a shared descriptor and registering it are two. A panic ends the call.

  Shown: a goroutine that runs alone does what the operations of \<open>Server\<close> do, and every call ends; the discipline
  of \<open>Server_Lifecycle\<close> survives any interleaving; what does not survive is the ownership of the listener.
\<close>

section \<open>Statements\<close>

text \<open>What follows the loop over the services.\<close>

datatype after_fill = ServeOn nat | SwapIn

datatype 'w srv_pc =
    Start_Listen
  | Start_New nat
  | Refresh_Log
  | Refresh_New
  | Fill_Range after_fill nat
  | Fill_Each after_fill nat "(goval \<times> 'w service) list"
  | Fill_Register after_fill nat goval "'w service" nat "(goval \<times> 'w service) list"
  | Fill_Reflect after_fill nat goval "'w service" "(goval \<times> 'w service) list"
  | Start_Serve nat nat
  | Start_SetLst nat nat
  | Start_SetServer nat
  | Refresh_Stop nat
  | Refresh_Close nat
  | Refresh_Listen nat
  | Refresh_Serve nat "nat option"
  | Refresh_SetServer nat "nat option"
  | Refresh_SetLst "nat option"
  | Stop_Close
  | Returned
  | Panicked panic

text \<open>The descriptor of a service, renamed or new, and its address.\<close>

definition name_desc :: "goval \<Rightarrow> 'w service \<Rightarrow> ('w sworld, nat) go" where
  "name_desc key value =
     (case as_grpc value of
        Some desc \<Rightarrow>
          go_bind (go_lift (assert_string key)) (\<lambda>k.
          go_bind (go_deref desc) (\<lambda>p.
          go_bind (go_gets (\<lambda>w. descs w p)) (\<lambda>d0.
          go_bind (go_deref d0) (\<lambda>d.
          go_then (go_modify (\<lambda>w. w\<lparr>descs := (descs w)(p \<mapsto> d\<lparr>ServiceName := k\<rparr>)\<rparr>)) (go_return p)))))
      | None \<Rightarrow>
          go_bind (go_lift (assert_string key)) (\<lambda>k.
          case as_unary value of
            None \<Rightarrow> go_panic BadTypeAssertion
          | Some _ \<Rightarrow>
              go_bind (go_gets next_desc) (\<lambda>p.
              go_then (go_modify (\<lambda>w. w\<lparr>descs := (descs w)(p \<mapsto> createGrpcDesc k (svc_id value)),
                next_desc := Suc p\<rparr>)) (go_return p))))"

fun is_reflection :: "goval \<Rightarrow> bool" where
  "is_reflection (VString s) = (s = ''grpc.reflection.v1alpha.ServerReflection'')"
| "is_reflection _ = False"

definition reflect_service :: "nat \<Rightarrow> goval \<Rightarrow> 'w service \<Rightarrow> ('w sworld, unit) go" where
  "reflect_service sid key value =
     go_when (is_reflection key)
       (if as_grpc value \<noteq> None \<and> as_reflect value
        then emit_ev (SetGRPCServer (svc_id value) sid) else go_panic BadTypeAssertion)"

definition mark_registered :: "after_fill \<Rightarrow> goval \<Rightarrow> ('w sworld, unit) go" where
  "mark_registered k key =
     (case k of
        ServeOn _ \<Rightarrow>
          go_bind (go_lift (assert_string key)) (\<lambda>s.
          on_self (\<lambda>t. t\<lparr>registeredKey := (registeredKey t)(s \<mapsto> True)\<rparr>))
      | SwapIn \<Rightarrow> go_return ())"

definition listen_on :: "server_env \<Rightarrow> ('w sworld, goerror + nat) go" where
  "listen_on env =
     go_bind (go_gets (\<lambda>w. Location (server_opt (self w)))) (\<lambda>a.
     go_bind (go_gets (\<lambda>w. net_Listen env (calls w) a)) (\<lambda>r.
     go_then (emit_ev (Listen a r)) (go_return r)))"

fun srv_next :: "server_env \<Rightarrow> 'w srv_pc \<Rightarrow> ('w sworld, 'w srv_pc) go" where
  "srv_next env Start_Listen =
     go_bind (listen_on env) (\<lambda>r.
       case r of Inl err \<Rightarrow> go_panic (ExplicitPanic (sv_text env err)) | Inr lis \<Rightarrow> go_return (Start_New lis))"
| "srv_next env (Start_New lis) =
     go_bind (go_gets (\<lambda>w. server_opt (self w))) (\<lambda>o0.
     go_bind (newGrpcServerWithCodec env o0) (\<lambda>sid. go_return (Fill_Range (ServeOn lis) sid)))"
| "srv_next env Refresh_Log =
     go_bind (go_gets (\<lambda>w. server_opt (self w))) (\<lambda>o0.
     go_then (log_stmt (Logger o0) (Debugf ''TripleServer.Refresh: call refresh services'' [])) (go_return Refresh_New))"
| "srv_next env Refresh_New =
     go_bind (go_gets (\<lambda>w. server_opt (self w))) (\<lambda>o0.
     go_bind (newGrpcServerWithCodec env o0) (\<lambda>sid. go_return (Fill_Range SwapIn sid)))"
| "srv_next env (Fill_Range k sid) =
     go_bind (go_gets (\<lambda>w. rpcServiceMap (self w))) (\<lambda>m0.
     go_bind (go_deref m0) (\<lambda>m. go_return (Fill_Each k sid m)))"
| "srv_next env (Fill_Each k sid []) =
     go_return (case k of ServeOn lis \<Rightarrow> Start_Serve lis sid | SwapIn \<Rightarrow> Refresh_Stop sid)"
| "srv_next env (Fill_Each k sid ((key, value) # es)) =
     go_then (mark_registered k key)
     (go_bind (name_desc key value) (\<lambda>p. go_return (Fill_Register k sid key value p es)))"
| "srv_next env (Fill_Register k sid key value p es) =
     go_bind (go_gets (\<lambda>w. the (descs w p))) (\<lambda>d.
     go_then (emit_ev (RegisterService sid d (svc_id value))) (go_return (Fill_Reflect k sid key value es)))"
| "srv_next env (Fill_Reflect k sid key value es) =
     go_then (reflect_service sid key value) (go_return (Fill_Each k sid es))"
| "srv_next env (Start_Serve lis sid) =
     go_then (emit_ev (GoServe sid (Some lis))) (go_return (Start_SetLst lis sid))"
| "srv_next env (Start_SetLst lis sid) =
     go_then (on_self (\<lambda>t. t\<lparr>lst := Some lis\<rparr>)) (go_return (Start_SetServer sid))"
| "srv_next env (Start_SetServer sid) =
     go_then (on_self (\<lambda>t. t\<lparr>grpcServer := Some sid\<rparr>)) (go_return Returned)"
| "srv_next env (Refresh_Stop sid) =
     go_bind (go_gets (\<lambda>w. grpcServer (self w))) (\<lambda>old0.
     go_bind (go_deref old0) (\<lambda>old. go_then (emit_ev (StopServer old)) (go_return (Refresh_Close sid))))"
| "srv_next env (Refresh_Close sid) =
     go_bind (go_gets (\<lambda>w. lst (self w))) (\<lambda>l0.
     go_bind (go_deref l0) (\<lambda>l. go_then (emit_ev (CloseListener l)) (go_return (Refresh_Listen sid))))"
| "srv_next env (Refresh_Listen sid) =
     go_bind (listen_on env) (\<lambda>r.
       go_return (Refresh_Serve sid (case r of Inl _ \<Rightarrow> None | Inr x \<Rightarrow> Some x)))"
| "srv_next env (Refresh_Serve sid lis) =
     go_then (emit_ev (GoServe sid lis)) (go_return (Refresh_SetServer sid lis))"
| "srv_next env (Refresh_SetServer sid lis) =
     go_then (on_self (\<lambda>t. t\<lparr>grpcServer := Some sid\<rparr>)) (go_return (Refresh_SetLst lis))"
| "srv_next env (Refresh_SetLst lis) = go_then (on_self (\<lambda>t. t\<lparr>lst := lis\<rparr>)) (go_return Returned)"
| "srv_next env Stop_Close = go_then TripleServer_Stop (go_return Returned)"
| "srv_next env Returned = go_return Returned"
| "srv_next env (Panicked p) = go_return (Panicked p)"

section \<open>Schedules\<close>

record 'w conc =
  shared :: "'w sworld"
  pcs :: "'w srv_pc list"

fun finished :: "'w srv_pc \<Rightarrow> bool" where
  "finished Returned = True"
| "finished (Panicked _) = True"
| "finished _ = False"

fun landed :: "panic + 'w srv_pc \<Rightarrow> 'w srv_pc" where
  "landed (Inl p) = Panicked p"
| "landed (Inr pc) = pc"

definition conc_step :: "server_env \<Rightarrow> nat \<Rightarrow> 'w conc \<Rightarrow> 'w conc option" where
  "conc_step env g c =
     (if g < length (pcs c) \<and> \<not> finished (pcs c ! g)
      then case srv_next env (pcs c ! g) (shared c) of
             (r, w) \<Rightarrow> Some \<lparr> shared = w, pcs = (pcs c)[g := landed r] \<rparr>
      else None)"

text \<open>Any number of calls, begun at any time, while the rest of the process changes what it may change.\<close>

inductive conc_reach :: "server_env \<Rightarrow> 'w conc \<Rightarrow> bool" for env :: server_env where
  new: "calls w = [] \<Longrightarrow> self w = NewTripleServer m o0 \<Longrightarrow> conc_reach env \<lparr> shared = w, pcs = [] \<rparr>"
| call: "conc_reach env c \<Longrightarrow> pc \<in> {Start_Listen, Refresh_Log, Stop_Close} \<Longrightarrow>
    conc_reach env (c\<lparr>pcs := pcs c @ [pc]\<rparr>)"
| step: "conc_reach env c \<Longrightarrow> conc_step env g c = Some c' \<Longrightarrow> conc_reach env c'"
| outside: "conc_reach env c \<Longrightarrow> calls w' = calls (shared c) \<Longrightarrow> next_server w' = next_server (shared c) \<Longrightarrow>
    lst (self w') = lst (self (shared c)) \<Longrightarrow> grpcServer (self w') = grpcServer (self (shared c)) \<Longrightarrow>
    conc_reach env (c\<lparr>shared := w'\<rparr>)"

section \<open>Facts: a goroutine that runs alone\<close>

lemma go_bind_assoc: "go_bind (go_bind m f) g = go_bind m (\<lambda>x. go_bind (f x) g)"
  by (rule ext) (simp add: go_bind_def split: prod.split sum.split)

lemma go_bind_return [simp]: "go_bind (go_return x) f = f x" "go_bind (go_panic p) f = go_panic p"
  by (simp_all add: go_bind_def fun_eq_iff)

lemma go_then_bind: "go_then m n = go_bind m (\<lambda>_. n)"
  by (simp add: go_then_def)

lemma keeps_bind_cong:
  assumes "keeps I m" "I s" "\<And>x s'. I s' \<Longrightarrow> f x s' = g x s'"
  shows "go_bind m f s = go_bind m g s"
  using assms by (auto simp: keeps_def triple_def go_bind_def split: prod.splits sum.splits)

text \<open>What is left of a call at each point.\<close>

definition serve_started :: "nat \<Rightarrow> nat \<Rightarrow> ('w sworld, unit) go" where
  "serve_started lis sid =
     go_then (emit_ev (GoServe sid (Some lis)))
     (go_then (on_self (\<lambda>t. t\<lparr>lst := Some lis\<rparr>)) (on_self (\<lambda>t. t\<lparr>grpcServer := Some sid\<rparr>)))"

definition set_both :: "nat \<Rightarrow> nat option \<Rightarrow> ('w sworld, unit) go" where
  "set_both sid lis = go_then (on_self (\<lambda>t. t\<lparr>grpcServer := Some sid\<rparr>)) (on_self (\<lambda>t. t\<lparr>lst := lis\<rparr>))"

definition listen_and_serve :: "server_env \<Rightarrow> nat \<Rightarrow> ('w sworld, unit) go" where
  "listen_and_serve env sid =
     go_bind (listen_on env) (\<lambda>r.
       let lis = (case r of Inl _ \<Rightarrow> None | Inr x \<Rightarrow> Some x) in go_then (emit_ev (GoServe sid lis)) (set_both sid lis))"

definition close_old :: "server_env \<Rightarrow> nat \<Rightarrow> ('w sworld, unit) go" where
  "close_old env sid =
     go_bind (go_gets (\<lambda>w. lst (self w))) (\<lambda>l0.
     go_bind (go_deref l0) (\<lambda>l. go_then (emit_ev (CloseListener l)) (listen_and_serve env sid)))"

definition swap_in :: "server_env \<Rightarrow> nat \<Rightarrow> ('w sworld, unit) go" where
  "swap_in env sid =
     go_bind (go_gets (\<lambda>w. grpcServer (self w))) (\<lambda>old0.
     go_bind (go_deref old0) (\<lambda>old. go_then (emit_ev (StopServer old)) (close_old env sid)))"

definition fill_body :: "after_fill \<Rightarrow> nat \<Rightarrow> goval \<times> 'w service \<Rightarrow> ('w sworld, unit) go" where
  "fill_body k sid = (\<lambda>(key, value). go_then (mark_registered k key) (register_value sid key value))"

definition fill_loop :: "server_env \<Rightarrow> after_fill \<Rightarrow> nat \<Rightarrow> (goval \<times> 'w service) list \<Rightarrow> ('w sworld, unit) go" where
  "fill_loop env k sid es =
     go_then (go_each (fill_body k sid) es)
     (case k of ServeOn lis \<Rightarrow> serve_started lis sid | SwapIn \<Rightarrow> swap_in env sid)"

definition fill_range :: "server_env \<Rightarrow> after_fill \<Rightarrow> nat \<Rightarrow> ('w sworld, unit) go" where
  "fill_range env k sid =
     go_bind (go_gets (\<lambda>w. rpcServiceMap (self w))) (\<lambda>m0. go_bind (go_deref m0) (fill_loop env k sid))"

definition fill_new :: "server_env \<Rightarrow> after_fill \<Rightarrow> ('w sworld, unit) go" where
  "fill_new env k =
     go_bind (go_gets (\<lambda>w. server_opt (self w))) (\<lambda>o0. go_bind (newGrpcServerWithCodec env o0) (fill_range env k))"

fun srv_rest :: "server_env \<Rightarrow> 'w srv_pc \<Rightarrow> ('w sworld, unit) go" where
  "srv_rest env Start_Listen =
     go_bind (listen_on env) (\<lambda>r.
       case r of Inl err \<Rightarrow> go_panic (ExplicitPanic (sv_text env err)) | Inr lis \<Rightarrow> fill_new env (ServeOn lis))"
| "srv_rest env (Start_New lis) = fill_new env (ServeOn lis)"
| "srv_rest env Refresh_Log =
     go_bind (go_gets (\<lambda>w. server_opt (self w))) (\<lambda>o0.
     go_then (log_stmt (Logger o0) (Debugf ''TripleServer.Refresh: call refresh services'' [])) (fill_new env SwapIn))"
| "srv_rest env Refresh_New = fill_new env SwapIn"
| "srv_rest env (Fill_Range k sid) = fill_range env k sid"
| "srv_rest env (Fill_Each k sid es) = fill_loop env k sid es"
| "srv_rest env (Fill_Register k sid key value p es) =
     go_bind (go_gets (\<lambda>w. the (descs w p))) (\<lambda>d.
     go_then (emit_ev (RegisterService sid d (svc_id value)))
     (go_then (reflect_service sid key value) (fill_loop env k sid es)))"
| "srv_rest env (Fill_Reflect k sid key value es) = go_then (reflect_service sid key value) (fill_loop env k sid es)"
| "srv_rest env (Start_Serve lis sid) = serve_started lis sid"
| "srv_rest env (Start_SetLst lis sid) =
     go_then (on_self (\<lambda>t. t\<lparr>lst := Some lis\<rparr>)) (on_self (\<lambda>t. t\<lparr>grpcServer := Some sid\<rparr>))"
| "srv_rest env (Start_SetServer sid) = on_self (\<lambda>t. t\<lparr>grpcServer := Some sid\<rparr>)"
| "srv_rest env (Refresh_Stop sid) = swap_in env sid"
| "srv_rest env (Refresh_Close sid) = close_old env sid"
| "srv_rest env (Refresh_Listen sid) = listen_and_serve env sid"
| "srv_rest env (Refresh_Serve sid lis) = go_then (emit_ev (GoServe sid lis)) (set_both sid lis)"
| "srv_rest env (Refresh_SetServer sid lis) = set_both sid lis"
| "srv_rest env (Refresh_SetLst lis) = on_self (\<lambda>t. t\<lparr>lst := lis\<rparr>)"
| "srv_rest env Stop_Close = TripleServer_Stop"
| "srv_rest env Returned = go_return ()"
| "srv_rest env (Panicked p) = go_panic p"

lemmas rest_defs = serve_started_def set_both_def listen_and_serve_def close_old_def swap_in_def
  fill_range_def [abs_def] fill_new_def

lemma is_reflection_iff: "is_reflection key \<longleftrightarrow> key = VString ''grpc.reflection.v1alpha.ServerReflection''"
  by (cases key) simp_all

lemma register_value_steps:
  "register_value sid key value =
     go_bind (name_desc key value) (\<lambda>p.
     go_bind (go_gets (\<lambda>w. the (descs w p))) (\<lambda>d.
     go_then (emit_ev (RegisterService sid d (svc_id value))) (reflect_service sid key value)))"
  by (cases "as_grpc value"; cases "as_unary value")
    (simp_all only: register_value_def name_desc_def reflect_service_def is_reflection_iff go_then_bind go_bind_assoc go_bind_return option.case)

lemma go_bind_unit: "go_bind m (\<lambda>_ :: unit. go_return ()) = m"
  by (rule ext) (simp add: go_bind_def split: prod.split sum.split)

text \<open>A call is its next statement, then what is left of it.\<close>

lemma srv_rest_next: "srv_rest env pc = go_bind (srv_next env pc) (srv_rest env)"
proof (induction env pc rule: srv_next.induct)
  case (1 env)
  then show ?case by (simp add: go_bind_assoc) (auto intro!: arg_cong [where f = "go_bind m" for m] split: sum.split)
next
  case (6 env k sid)
  then show ?case by (simp add: fill_loop_def go_then_bind split: after_fill.split)
next
  case (7 env k sid key v es)
  then show ?case
    by (simp only: srv_rest.simps srv_next.simps fill_loop_def fill_body_def go_each.simps prod.case register_value_steps
        go_then_bind go_bind_assoc go_bind_return)
qed (simp_all only: srv_rest.simps srv_next.simps rest_defs go_then_bind go_bind_assoc go_bind_return go_bind_unit Let_def)

text \<open>The operations read their options once; a call reads them statement by statement. Nothing a call does
  changes them.\<close>

lemma fill_body_cases:
  "fill_body (ServeOn lis) sid = (\<lambda>(key, value).
     go_bind (go_lift (assert_string key)) (\<lambda>k.
     go_then (on_self (\<lambda>t. t\<lparr>registeredKey := (registeredKey t)(k \<mapsto> True)\<rparr>)) (register_value sid key value)))"
  "fill_body SwapIn sid = (\<lambda>(key, value). register_value sid key value)"
  by (simp_all only: fill_body_def mark_registered_def after_fill.case go_then_bind go_bind_assoc go_bind_return)

lemma srv_rest_Start: "srv_rest env Start_Listen = TripleServer_Start env"
proof (rule ext)
  fix w :: "'a sworld"
  show "srv_rest env Start_Listen w = TripleServer_Start env w"
    by (cases "net_Listen env (calls w) (Location (server_opt (self w)))")
      (simp_all add: TripleServer_Start_def listen_on_def go_then_run go_bind_run fill_new_def fill_range_def [abs_def]
        fill_loop_def [abs_def] fill_body_cases serve_started_def)
qed

lemma opt_kept [keeps_rules]:
  "keeps (\<lambda>w. server_opt (self w) = o1) (register_value sid key v :: ('w sworld, unit) go)"
  unfolding register_value_def by (auto split: option.split intro!: keeps_rules)

lemma opt_kept_new [keeps_rules]:
  "keeps (\<lambda>w. server_opt (self w) = o1) (newGrpcServerWithCodec env o0 :: ('w sworld, nat) go)"
proof -
  have "case newGrpcServerWithCodec env o0 w of (Inl p, s) \<Rightarrow> server_opt (self s) = server_opt (self w)
      | (Inr sid, s) \<Rightarrow> server_opt (self s) = server_opt (self w)" for w :: "'w sworld"
    by (cases "snd (getServerTlsCertificate (sv_tls env) o0) \<noteq> None \<longrightarrow> usable (Logger o0)")
      (simp_all add: newGrpcServerWithCodec_run newGrpcServerWithCodec_panic)
  then show ?thesis by (fastforce simp: keeps_def triple_def split: prod.splits sum.splits)
qed

definition swap_at :: "server_env \<Rightarrow> triple_option \<Rightarrow> nat \<Rightarrow> ('w sworld, unit) go" where
  "swap_at env o0 sid =
      go_bind (go_gets (\<lambda>w. grpcServer (self w))) (\<lambda>old0.
       go_bind (go_deref old0) (\<lambda>old.
       go_then (emit_ev (StopServer old))
       (go_bind (go_gets (\<lambda>w. lst (self w))) (\<lambda>l0.
        go_bind (go_deref l0) (\<lambda>l.
        go_then (emit_ev (CloseListener l))
        (go_bind (go_gets (\<lambda>w. net_Listen env (calls w) (Location o0))) (\<lambda>r.
         go_then (emit_ev (Listen (Location o0) r))
         (let lis = (case r of Inl _ \<Rightarrow> None | Inr x \<Rightarrow> Some x)
          in go_then (emit_ev (GoServe sid lis))
            (go_then (on_self (\<lambda>t. t\<lparr>grpcServer := Some sid\<rparr>))
            (on_self (\<lambda>t. t\<lparr>lst := lis\<rparr>)))))))))))"

lemma swap_in_at: "server_opt (self w) = o0 \<Longrightarrow> swap_in env sid w = swap_at env o0 sid w"
  by (cases "grpcServer (self w)"; cases "lst (self w)")
    (simp_all add: swap_at_def swap_in_def close_old_def listen_and_serve_def set_both_def listen_on_def go_then_run
      go_bind_run Let_def)

lemma srv_rest_Refresh: "srv_rest env Refresh_Log = TripleServer_RefreshService env"
proof (rule ext)
  fix w :: "'a sworld"
  define o0 where "o0 = server_opt (self w)"
  let ?I = "\<lambda>v :: 'a sworld. server_opt (self v) = o0"
  have loop: "fill_loop env SwapIn sid m v =
      go_then (go_each (\<lambda>(key, value). register_value sid key value) m) (swap_at env o0 sid) v" if "?I v" for sid m v
    unfolding fill_loop_def after_fill.case fill_body_cases go_then_bind using that
    by (intro keeps_bind_cong [where I = ?I] swap_in_at) (auto intro!: keeps_rules)
  have range: "fill_range env SwapIn sid v =
      go_bind (go_gets (\<lambda>w. rpcServiceMap (self w))) (\<lambda>m0. go_bind (go_deref m0) (\<lambda>m.
        go_then (go_each (\<lambda>(key, value). register_value sid key value) m) (swap_at env o0 sid))) v" if "?I v" for sid v
    unfolding fill_range_def using that by (intro keeps_bind_cong [where I = ?I] loop) (auto intro!: keeps_rules)
  have new: "fill_new env SwapIn v =
      go_bind (newGrpcServerWithCodec env o0) (\<lambda>sid.
      go_bind (go_gets (\<lambda>w. rpcServiceMap (self w))) (\<lambda>m0. go_bind (go_deref m0) (\<lambda>m.
        go_then (go_each (\<lambda>(key, value). register_value sid key value) m) (swap_at env o0 sid)))) v" if "?I v" for v
  proof -
    have "fill_new env SwapIn v = go_bind (newGrpcServerWithCodec env o0) (fill_range env SwapIn) v"
      using that by (simp add: fill_new_def)
    also have "\<dots> = go_bind (newGrpcServerWithCodec env o0) (\<lambda>sid.
      go_bind (go_gets (\<lambda>w. rpcServiceMap (self w))) (\<lambda>m0. go_bind (go_deref m0) (\<lambda>m.
        go_then (go_each (\<lambda>(key, value). register_value sid key value) m) (swap_at env o0 sid)))) v"
      by (rule keeps_bind_cong [where I = ?I, OF opt_kept_new that range])
    finally show ?thesis .
  qed
  have "srv_rest env Refresh_Log w = go_bind (log_stmt (Logger o0) (Debugf ''TripleServer.Refresh: call refresh services'' []))
      (\<lambda>_. fill_new env SwapIn) w"
    by (simp add: o0_def go_then_bind)
  also have "\<dots> = go_bind (log_stmt (Logger o0) (Debugf ''TripleServer.Refresh: call refresh services'' []))
      (\<lambda>_. go_bind (newGrpcServerWithCodec env o0) (\<lambda>sid.
      go_bind (go_gets (\<lambda>w. rpcServiceMap (self w))) (\<lambda>m0. go_bind (go_deref m0) (\<lambda>m.
        go_then (go_each (\<lambda>(key, value). register_value sid key value) m) (swap_at env o0 sid))))) w"
    by (rule keeps_bind_cong [where I = ?I, OF keeps_log _ new]) (simp_all add: o0_def)
  also have "\<dots> = TripleServer_RefreshService env w"
    unfolding TripleServer_RefreshService_def swap_at_def go_then_bind by (simp add: o0_def)
  finally show "srv_rest env Refresh_Log w = TripleServer_RefreshService env w" .
qed

text \<open>Every statement brings a call closer to its end: the phase of the call, and in the loop the services left.\<close>

fun pc_rank :: "'w srv_pc \<Rightarrow> nat \<times> nat" where
  "pc_rank Start_Listen = (9, 0)"
| "pc_rank (Start_New _) = (8, 0)"
| "pc_rank Refresh_Log = (9, 0)"
| "pc_rank Refresh_New = (8, 0)"
| "pc_rank (Fill_Range _ _) = (7, 0)"
| "pc_rank (Fill_Each _ _ es) = (6, 3 * length es)"
| "pc_rank (Fill_Register _ _ _ _ _ es) = (6, 3 * length es + 2)"
| "pc_rank (Fill_Reflect _ _ _ _ es) = (6, 3 * length es + 1)"
| "pc_rank (Start_Serve _ _) = (5, 0)"
| "pc_rank (Start_SetLst _ _) = (4, 0)"
| "pc_rank (Start_SetServer _) = (3, 0)"
| "pc_rank (Refresh_Stop _) = (5, 5)"
| "pc_rank (Refresh_Close _) = (5, 4)"
| "pc_rank (Refresh_Listen _) = (5, 3)"
| "pc_rank (Refresh_Serve _ _) = (5, 2)"
| "pc_rank (Refresh_SetServer _ _) = (5, 1)"
| "pc_rank (Refresh_SetLst _) = (5, 0)"
| "pc_rank Stop_Close = (5, 0)"
| "pc_rank Returned = (0, 0)"
| "pc_rank (Panicked _) = (0, 0)"

definition closer :: "('w srv_pc \<times> 'w srv_pc) set" where
  "closer = inv_image (less_than <*lex*> less_than) pc_rank"

lemma wf_closer: "wf closer"
  by (simp add: closer_def wf_lex_prod)

lemma next_closer: "srv_next env pc w = (Inr pc', w') \<Longrightarrow> \<not> finished pc \<Longrightarrow> (pc', pc) \<in> closer"
  by (induction env pc rule: srv_next.induct)
    (auto simp: closer_def go_bind_run go_then_run split: sum.splits prod.splits after_fill.splits)

text \<open>Alone, a goroutine runs to the end of its call.\<close>

lemma alone_runs:
  "\<exists>n. run_schedule (conc_step env) (replicate n 0) \<lparr> shared = w, pcs = [pc] \<rparr> =
     Some \<lparr> shared = snd (srv_rest env pc w),
       pcs = [case fst (srv_rest env pc w) of Inl p \<Rightarrow> Panicked p | Inr _ \<Rightarrow> Returned] \<rparr>"
proof (induction pc arbitrary: w rule: wf_induct_rule [OF wf_closer])
  case (1 pc)
  show ?case
  proof (cases "finished pc")
    case True
    then show ?thesis by (intro exI [of _ 0]) (cases pc; simp)
  next
    case False
    obtain r w' where r: "srv_next env pc w = (r, w')" by force
    then have step: "conc_step env 0 \<lparr> shared = w, pcs = [pc] \<rparr> = Some \<lparr> shared = w', pcs = [landed r] \<rparr>"
      using False by (simp add: conc_step_def)
    show ?thesis
    proof (cases r)
      case (Inl p)
      with r step show ?thesis by (intro exI [of _ 1]) (simp add: srv_rest_next [of env pc] go_bind_run)
    next
      case (Inr pc')
      with 1 [OF next_closer [OF r [unfolded Inr] False], of w'] obtain n where
        "run_schedule (conc_step env) (replicate n 0) \<lparr> shared = w', pcs = [pc'] \<rparr> =
         Some \<lparr> shared = snd (srv_rest env pc' w'),
           pcs = [case fst (srv_rest env pc' w') of Inl p \<Rightarrow> Panicked p | Inr _ \<Rightarrow> Returned] \<rparr>" by blast
      with r step Inr show ?thesis by (intro exI [of _ "Suc n"]) (simp add: srv_rest_next [of env pc] go_bind_run)
    qed
  qed
qed

section \<open>Facts: the discipline under every interleaving\<close>

text \<open>The server that a goroutine is filling, and what it knows about servers and listeners it has seen.\<close>

fun fills :: "'w srv_pc \<Rightarrow> nat option" where
  "fills (Fill_Range _ sid) = Some sid"
| "fills (Fill_Each _ sid _) = Some sid"
| "fills (Fill_Register _ sid _ _ _ _) = Some sid"
| "fills (Fill_Reflect _ sid _ _ _) = Some sid"
| "fills (Start_Serve _ sid) = Some sid"
| "fills (Refresh_Stop sid) = Some sid"
| "fills (Refresh_Close sid) = Some sid"
| "fills (Refresh_Listen sid) = Some sid"
| "fills (Refresh_Serve sid _) = Some sid"
| "fills _ = None"

fun bound :: "server_event list \<Rightarrow> nat option \<Rightarrow> bool" where
  "bound cs None = True"
| "bound cs (Some l) = listened l cs"

fun knows :: "server_event list \<Rightarrow> 'w srv_pc \<Rightarrow> bool" where
  "knows cs (Start_New lis) = listened lis cs"
| "knows cs (Fill_Range (ServeOn lis) _) = listened lis cs"
| "knows cs (Fill_Each (ServeOn lis) _ _) = listened lis cs"
| "knows cs (Fill_Register (ServeOn lis) _ _ _ _ _) = listened lis cs"
| "knows cs (Fill_Reflect (ServeOn lis) _ _ _ _) = listened lis cs"
| "knows cs (Start_Serve lis _) = listened lis cs"
| "knows cs (Start_SetLst lis sid) = (listened lis cs \<and> served sid cs)"
| "knows cs (Start_SetServer sid) = served sid cs"
| "knows cs (Refresh_Serve _ lis) = bound cs lis"
| "knows cs (Refresh_SetServer sid lis) = (served sid cs \<and> bound cs lis)"
| "knows cs (Refresh_SetLst lis) = bound cs lis"
| "knows cs _ = True"

definition pc_ok :: "server_event list \<Rightarrow> 'w srv_pc \<Rightarrow> bool" where
  "pc_ok cs pc \<longleftrightarrow> knows cs pc \<and> (\<forall>s. fills pc = Some s \<longrightarrow> created s cs \<and> \<not> served s cs)"

lemma bound_append: "bound cs l \<Longrightarrow> bound (cs @ es) l"
  by (cases l) simp_all

lemma knows_append: "knows cs pc \<Longrightarrow> knows (cs @ es) pc"
  by (induction cs pc rule: knows.induct) (simp_all add: bound_append)

text \<open>What a statement may do to the shared state, as far as other goroutines are concerned.\<close>

definition undisturbed :: "'w srv_pc \<Rightarrow> 'w sworld \<Rightarrow> 'w srv_pc \<Rightarrow> 'w sworld \<Rightarrow> bool" where
  "undisturbed pc w pc' w' \<longleftrightarrow>
     (\<exists>es. calls w' = calls w @ es \<and> (\<forall>s. served s es \<longrightarrow> fills pc = Some s)) \<and>
     (\<forall>s. fills pc' = Some s \<longrightarrow> fills pc = Some s \<or> next_server w \<le> s)"

lemma quiet_statements:
  "name_desc key v w = (r, w') \<Longrightarrow> calls w' = calls w \<and> next_server w' = next_server w \<and> self w' = self w"
  "mark_registered k key w = (u, w') \<Longrightarrow> calls w' = calls w \<and> next_server w' = next_server w \<and>
     lst (self w') = lst (self w) \<and> grpcServer (self w') = grpcServer (self w) \<and> server_opt (self w') = server_opt (self w)"
  "log_stmt l c w = (u', w') \<Longrightarrow> calls w' = calls w \<and> next_server w' = next_server w \<and> self w' = self w"
  by (auto simp: name_desc_def mark_registered_def log_stmt_def go_bind_run go_then_run go_lift_def go_deref_def on_self_def
      split: option.splits sum.splits prod.splits after_fill.splits)

lemma newGrpc_outcome:
  assumes "newGrpcServerWithCodec env o0 w = (r, w')"
  shows "(\<exists>p. r = Inl p \<and> w' = w) \<or> r = Inr (next_server w) \<and> w' = built env o0 w"
  using assms newGrpcServerWithCodec_run [of env o0 w] newGrpcServerWithCodec_panic [of env o0 w] by fastforce

lemma built_ok:
  assumes "tidy w"
  shows "tidy (built env o0 w)" "created (next_server w) (calls (built env o0 w))"
    "\<not> served (next_server w) (calls (built env o0 w))"
    "\<exists>es. calls (built env o0 w) = calls w @ es \<and> (\<forall>s. \<not> served s es)"
proof -
  have quiet: "\<not> created s (codec_notice ct w)" "\<not> served s (codec_notice ct w)" "ordered_from cs (codec_notice ct w)"
    for s ct cs by (simp_all add: codec_notice_def)
  have old: "created s (calls w) \<or> served s (calls w) \<Longrightarrow> s < next_server w" for s using assms by (auto simp: tidy_def)
  then have new: "\<not> created (next_server w) (calls w)" "\<not> served (next_server w) (calls w)" by blast+
  then show "\<not> served (next_server w) (calls (built env o0 w))" using quiet by auto
  show "tidy (built env o0 w)"
    using assms quiet old new by (auto simp: tidy_def less_Suc_eq ordered_from_append)
qed (auto simp: codec_notice_def intro!: exI)

lemma next_ok:
  assumes "srv_next env pc w = (r, w')" "tidy w" "pc_ok (calls w) pc" "\<not> finished pc"
  shows "tidy w' \<and> pc_ok (calls w') (landed r) \<and> undisturbed pc w (landed r) w'"
  using assms
proof (induction env pc rule: srv_next.induct)
  case (1 env)
  then show ?case
    by (auto simp: listen_on_def go_bind_run go_then_run tidy_def pc_ok_def undisturbed_def split: sum.splits)
next
  case (2 env lis)
  then show ?case using built_ok [of w env "server_opt (self w)"]
    by (auto simp: go_bind_run pc_ok_def undisturbed_def dest!: newGrpc_outcome split: sum.splits prod.splits simp del: built_fields(5))
next
  case (3 env)
  then show ?case
    by (auto simp: go_bind_run go_then_run tidy_def pc_ok_def undisturbed_def dest!: quiet_statements(3) split: sum.splits prod.splits)
next
  case (4 env)
  then show ?case using built_ok [of w env "server_opt (self w)"]
    by (auto simp: go_bind_run pc_ok_def undisturbed_def dest!: newGrpc_outcome split: sum.splits prod.splits simp del: built_fields(5))
next
  case (5 env k sid)
  then show ?case
    by (cases k) (auto simp: go_bind_run go_deref_def tidy_def pc_ok_def undisturbed_def split: option.splits)
next
  case (6 env k sid)
  then show ?case
    by (cases k) (auto simp: tidy_def pc_ok_def undisturbed_def)
next
  case (7 env k sid key v es)
  then show ?case
    by (cases k) (auto simp: go_bind_run go_then_run tidy_def pc_ok_def undisturbed_def dest!: quiet_statements(1,2) split: sum.splits prod.splits)
next
  case (8 env k sid key v p es)
  then show ?case
    by (cases k) (auto simp: go_bind_run go_then_run tidy_def pc_ok_def undisturbed_def)
next
  case (9 env k sid key v es)
  then show ?case
    by (cases k) (auto simp: reflect_service_def go_bind_run go_then_run tidy_def pc_ok_def undisturbed_def split: if_splits)
qed (auto simp: listen_on_def go_bind_run go_then_run go_deref_def tidy_def pc_ok_def undisturbed_def TripleServer_Stop_def
  bound_append
  split: option.splits sum.splits)

text \<open>The invariant: the discipline, what every goroutine relies on, and that no two fill the same server.\<close>

definition conc_inv :: "'w conc \<Rightarrow> bool" where
  "conc_inv c \<longleftrightarrow> tidy (shared c) \<and>
     (\<forall>i < length (pcs c). pc_ok (calls (shared c)) (pcs c ! i)) \<and>
     (\<forall>i < length (pcs c). \<forall>j < length (pcs c). i \<noteq> j \<longrightarrow> fills (pcs c ! i) \<noteq> None \<longrightarrow>
        fills (pcs c ! i) \<noteq> fills (pcs c ! j))"

lemma conc_inv_step:
  assumes "conc_step env g c = Some c'" "conc_inv c"
  shows "conc_inv c'"
proof -
  obtain r w' where g: "g < length (pcs c)" "\<not> finished (pcs c ! g)" "srv_next env (pcs c ! g) (shared c) = (r, w')"
    and c': "c' = \<lparr> shared = w', pcs = (pcs c)[g := landed r] \<rparr>"
    using assms(1) by (auto simp: conc_step_def split: if_splits prod.splits)
  have inv: "tidy (shared c)" "\<And>i. i < length (pcs c) \<Longrightarrow> pc_ok (calls (shared c)) (pcs c ! i)"
    and apart: "\<And>i j. i < length (pcs c) \<Longrightarrow> j < length (pcs c) \<Longrightarrow> i \<noteq> j \<Longrightarrow> fills (pcs c ! i) \<noteq> None \<Longrightarrow>
        fills (pcs c ! i) \<noteq> fills (pcs c ! j)"
    using assms(2) by (auto simp: conc_inv_def)
  from next_ok [OF g(3) inv(1) inv(2) [OF g(1)] g(2)] obtain es where
    mine: "tidy w'" "pc_ok (calls w') (landed r)" and es: "calls w' = calls (shared c) @ es"
    "\<And>s. served s es \<Longrightarrow> fills (pcs c ! g) = Some s"
    and got: "\<And>s. fills (landed r) = Some s \<Longrightarrow> fills (pcs c ! g) = Some s \<or> next_server (shared c) \<le> s"
    by (auto simp: undisturbed_def)
  have others: "pc_ok (calls w') (pcs c ! i)" if "i < length (pcs c)" "i \<noteq> g" for i
    using inv(2) [OF that(1)] apart [OF that(1) g(1) that(2)] es(2) by (auto simp: es(1) pc_ok_def knows_append)
  have old: "s < next_server (shared c)" if "i < length (pcs c)" "fills (pcs c ! i) = Some s" for i s
    using inv(1) inv(2) [OF that(1)] that(2) by (auto simp: pc_ok_def tidy_def)
  have mine_apart: "fills (landed r) \<noteq> fills (pcs c ! i)" if i: "i < length (pcs c)" "i \<noteq> g" "fills (pcs c ! i) \<noteq> None" for i
  proof
    assume "fills (landed r) = fills (pcs c ! i)"
    with i(3) obtain s where s: "fills (pcs c ! i) = Some s" "fills (landed r) = Some s" by auto
    from got [OF s(2)] old [OF i(1) s(1)] have "fills (pcs c ! g) = Some s" by simp
    with apart [OF i(1) g(1) i(2,3)] s(1) show False by simp
  qed
  have "pc_ok (calls w') ((pcs c)[g := landed r] ! i)" if "i < length (pcs c)" for i
    using mine(2) others that by (cases "i = g") simp_all
  moreover have "fills ((pcs c)[g := landed r] ! i) \<noteq> fills ((pcs c)[g := landed r] ! j)"
    if "i < length (pcs c)" "j < length (pcs c)" "i \<noteq> j" "fills ((pcs c)[g := landed r] ! i) \<noteq> None" for i j
  proof (cases "i = g")
    case True
    with that mine_apart [of j] show ?thesis by (cases "fills (pcs c ! j)") auto
  next
    case False
    with that mine_apart [of i] apart [of i j] show ?thesis by (cases "j = g") auto
  qed
  ultimately show ?thesis using mine(1) by (simp add: conc_inv_def c')
qed

interpretation concurrent: step_invariant "conc_step env" conc_inv for env
  by unfold_locales (rule conc_inv_step)

lemma conc_reach_inv: "conc_reach env c \<Longrightarrow> conc_inv c"
proof (induction rule: conc_reach.induct)
  case (new w m o0)
  then show ?case by (simp add: conc_inv_def tidy_def NewTripleServer_def Let_def)
next
  case (call c pc)
  have "pc_ok cs pc" "fills pc = None" for cs using call(2) by (auto simp: pc_ok_def)
  with call(3) show ?case by (auto simp: conc_inv_def nth_append less_Suc_eq)
next
  case (step c g c')
  then show ?case by (blast intro: concurrent.step_keeps)
next
  case (outside c w')
  then show ?case by (simp add: conc_inv_def tidy_def)
qed


lemma panicked_closer: "\<not> finished pc \<Longrightarrow> (Panicked p, pc) \<in> closer"
  by (cases pc) (auto simp: closer_def)

lemma conc_step_closer:
  assumes "g < length (pcs c)" "\<not> finished (pcs c ! g)"
  shows "\<exists>pc' w'. conc_step env g c = Some \<lparr> shared = w', pcs = (pcs c)[g := pc'] \<rparr> \<and> (pc', pcs c ! g) \<in> closer"
proof -
  obtain r w' where r: "srv_next env (pcs c ! g) (shared c) = (r, w')" by force
  then have "(landed r, pcs c ! g) \<in> closer"
    using assms(2) by (cases r) (auto intro: panicked_closer next_closer)
  with r assms show ?thesis by (intro exI [of _ "landed r"] exI [of _ w']) (simp add: conc_step_def)
qed

section \<open>Properties\<close>

text \<open>C15: The discipline survives concurrency. Any number of goroutines call \<open>Start\<close>, \<open>Stop\<close> and
  \<open>RefreshService\<close> on one server object, interleaved statement by statement and begun at any time, while the rest
  of the process changes the service map, the descriptors and the registry: a service is still registered on a
  gRPC server only after that server was created and before it serves, no server serves twice, only serving
  servers are stopped, only opened listeners are closed, and no two goroutines fill the same server.\<close>

theorem registered_before_served_concurrently:
  assumes "conc_reach env c" "calls (shared c) = xs @ e # ys"
  shows "(case e of
      RegisterService s d v \<Rightarrow> created s xs \<and> \<not> served s xs
    | SetGRPCServer v s \<Rightarrow> created s xs \<and> \<not> served s xs
    | GoServe s l \<Rightarrow> created s xs \<and> \<not> served s xs \<and> (\<forall>x. l = Some x \<longrightarrow> listened x xs)
    | NewServer s opts \<Rightarrow> \<not> created s xs
    | StopServer s \<Rightarrow> served s xs
    | CloseListener l \<Rightarrow> listened l xs
    | _ \<Rightarrow> True) \<and>
    (\<forall>i < length (pcs c). \<forall>j < length (pcs c). \<forall>s. i \<noteq> j \<longrightarrow> fills (pcs c ! i) = Some s \<longrightarrow> fills (pcs c ! j) \<noteq> Some s)"
proof -
  have inv: "conc_inv c" by (rule conc_reach_inv [OF assms(1)])
  then have "allowed xs e" using assms(2) by (simp add: conc_inv_def tidy_def)
  then have "case e of
      RegisterService s d v \<Rightarrow> created s xs \<and> \<not> served s xs
    | SetGRPCServer v s \<Rightarrow> created s xs \<and> \<not> served s xs
    | GoServe s l \<Rightarrow> created s xs \<and> \<not> served s xs \<and> (\<forall>x. l = Some x \<longrightarrow> listened x xs)
    | NewServer s opts \<Rightarrow> \<not> created s xs
    | StopServer s \<Rightarrow> served s xs
    | CloseListener l \<Rightarrow> listened l xs
    | _ \<Rightarrow> True"
    by (cases e) (auto split: option.splits)
  moreover have "fills (pcs c ! j) \<noteq> Some s"
    if "i < length (pcs c)" "j < length (pcs c)" "i \<noteq> j" "fills (pcs c ! i) = Some s" for i j s
    using inv that by (metis conc_inv_def option.distinct(1))
  ultimately show ?thesis by blast
qed

definition outcome_pc :: "panic + unit \<Rightarrow> 'w srv_pc" where
  "outcome_pc r = (case r of Inl p \<Rightarrow> Panicked p | Inr _ \<Rightarrow> Returned)"

text \<open>C16: The statements refine the operations. A goroutine that runs alone from the beginning of a call reaches
  the end of it, in the state and with the result or panic of \<open>TripleServer_Start\<close>,
  \<open>TripleServer_RefreshService\<close> or \<open>TripleServer_Stop\<close>. In any company a call that has not ended can take its next
  statement, which moves only this call, and closer to its end in a well-founded order.\<close>

theorem statements_refine_operations:
  fixes w :: "'w sworld"
  shows "(\<exists>n. run_schedule (conc_step env) (replicate n 0) \<lparr> shared = w, pcs = [Start_Listen] \<rparr> =
        Some \<lparr> shared = snd (TripleServer_Start env w), pcs = [outcome_pc (fst (TripleServer_Start env w))] \<rparr>) \<and>
    (\<exists>n. run_schedule (conc_step env) (replicate n 0) \<lparr> shared = w, pcs = [Refresh_Log] \<rparr> =
        Some \<lparr> shared = snd (TripleServer_RefreshService env w),
          pcs = [outcome_pc (fst (TripleServer_RefreshService env w))] \<rparr>) \<and>
    (\<exists>n. run_schedule (conc_step env) (replicate n 0) \<lparr> shared = w, pcs = [Stop_Close] \<rparr> =
        Some \<lparr> shared = snd (TripleServer_Stop w), pcs = [outcome_pc (fst (TripleServer_Stop w))] \<rparr>) \<and>
    wf (closer :: ('w srv_pc \<times> 'w srv_pc) set) \<and>
    (\<forall>(c :: 'w conc) g. g < length (pcs c) \<and> \<not> finished (pcs c ! g) \<longrightarrow>
      (\<exists>pc' w'. conc_step env g c = Some \<lparr> shared = w', pcs = (pcs c)[g := pc'] \<rparr> \<and> (pc', pcs c ! g) \<in> closer))"
  using alone_runs [of env w Start_Listen] alone_runs [of env w Refresh_Log] alone_runs [of env w Stop_Close]
    wf_closer conc_step_closer [of _ _ env]
  unfolding outcome_pc_def srv_rest_Start srv_rest_Refresh srv_rest.simps(18) by blast

section \<open>Facts: who owns the listener\<close>

text \<open>The listeners that are open after a sequence of calls, with their addresses: closing a listener closes it,
  and stopping a gRPC server closes those it serves.\<close>

fun net_event :: "server_event \<Rightarrow> (string \<times> nat) list \<times> (nat \<times> nat) list \<Rightarrow> (string \<times> nat) list \<times> (nat \<times> nat) list" where
  "net_event (Listen a (Inr l)) (opened, serving) = (opened @ [(a, l)], serving)"
| "net_event (CloseListener l) (opened, serving) = (filter (\<lambda>(a, l'). l' \<noteq> l) opened, serving)"
| "net_event (GoServe s (Some l)) (opened, serving) = (opened, serving @ [(s, l)])"
| "net_event (StopServer s) (opened, serving) = (filter (\<lambda>(a, l). (s, l) \<notin> set serving) opened, serving)"
| "net_event _ os = os"

definition open_listeners :: "server_event list \<Rightarrow> (string \<times> nat) list" where
  "open_listeners cs = fst (fold net_event cs ([], []))"

text \<open>An address can be bound only while nobody listens on it, and a new listener is not one of the open ones.\<close>

definition exclusive :: "server_env \<Rightarrow> bool" where
  "exclusive env \<longleftrightarrow> (\<forall>cs a l. net_Listen env cs a = Inr l \<longrightarrow>
     (\<forall>(a', l') \<in> set (open_listeners cs). a' \<noteq> a \<and> l' \<noteq> l))"

text \<open>\<open>held k w\<close>: at most the listener \<open>k\<close> is open, at the configured address.\<close>

definition held :: "nat option \<Rightarrow> 'w sworld \<Rightarrow> bool" where
  "held k w \<longleftrightarrow> (\<forall>(a, l) \<in> set (open_listeners (calls w)). k = Some l \<and> a = Location (server_opt (self w)))"

lemma open_listeners_more:
  "open_listeners (cs @ [Listen a (Inr l)]) = open_listeners cs @ [(a, l)]"
  "open_listeners (cs @ [Listen a (Inl err)]) = open_listeners cs"
  "open_listeners (cs @ [CloseListener l]) = filter (\<lambda>(a, l'). l' \<noteq> l) (open_listeners cs)"
  "open_listeners (cs @ [GoServe s k]) = open_listeners cs"
  "set (open_listeners (cs @ [StopServer s])) \<subseteq> set (open_listeners cs)"
  "open_listeners (cs @ [RegisterService s d v]) = open_listeners cs"
  "open_listeners (cs @ [SetGRPCServer v s]) = open_listeners cs"
  "open_listeners (cs @ [NewServer s opts]) = open_listeners cs"
  "open_listeners (cs @ codec_notice ct u @ [NewServer s opts]) = open_listeners cs"
proof -
  obtain opened serving where cs: "fold net_event cs ([], []) = (opened, serving)" by force
  show "set (open_listeners (cs @ [StopServer s])) \<subseteq> set (open_listeners cs)"
    by (auto simp: open_listeners_def cs)
  show "open_listeners (cs @ [GoServe s k]) = open_listeners cs"
    by (cases k) (simp_all add: open_listeners_def cs)
  show "open_listeners (cs @ [Listen a (Inr l)]) = open_listeners cs @ [(a, l)]"
    "open_listeners (cs @ [CloseListener l]) = filter (\<lambda>(a, l'). l' \<noteq> l) (open_listeners cs)"
    by (simp_all add: open_listeners_def cs)
qed (simp_all add: open_listeners_def codec_notice_def)

text \<open>In a call that runs alone: which listener is held at each point.\<close>

fun holder :: "'w srv_pc \<Rightarrow> 'w sworld \<Rightarrow> nat option" where
  "holder (Start_New lis) w = Some lis"
| "holder (Fill_Range (ServeOn lis) _) w = Some lis"
| "holder (Fill_Each (ServeOn lis) _ _) w = Some lis"
| "holder (Fill_Register (ServeOn lis) _ _ _ _ _) w = Some lis"
| "holder (Fill_Reflect (ServeOn lis) _ _ _ _) w = Some lis"
| "holder (Start_Serve lis _) w = Some lis"
| "holder (Start_SetLst lis _) w = Some lis"
| "holder (Refresh_Listen _) w = None"
| "holder (Refresh_Serve _ lis) w = lis"
| "holder (Refresh_SetServer _ lis) w = lis"
| "holder (Refresh_SetLst lis) w = lis"
| "holder _ w = lst (self w)"

lemma listen_held:
  assumes "listen_on env w = (Inr r, w')" "exclusive env" "held k w"
  shows "case r of Inl _ \<Rightarrow> held k w' | Inr lis \<Rightarrow> held (Some lis) w'"
    "lst (self w') = lst (self w)"
proof -
  have r: "r = net_Listen env (calls w) (Location (server_opt (self w)))"
    and w': "w' = w\<lparr>calls := calls w @ [Listen (Location (server_opt (self w))) r]\<rparr>"
    using assms(1) by (auto simp: listen_on_def go_bind_run go_then_run)
  have "open_listeners (calls w) = []" if "r = Inr lis" for lis
  proof (rule ccontr)
    assume "open_listeners (calls w) \<noteq> []"
    then obtain a l where "(a, l) \<in> set (open_listeners (calls w))" by (metis last_in_set surj_pair)
    with assms(2,3) r that show False by (fastforce simp: exclusive_def held_def)
  qed
  then show "case r of Inl _ \<Rightarrow> held k w' | Inr lis \<Rightarrow> held (Some lis) w'"
    using assms(3) by (cases r) (simp_all add: w' held_def open_listeners_more)
  show "lst (self w') = lst (self w)" by (simp add: w')
qed

lemma held_cong:
  "held k w \<Longrightarrow> set (open_listeners (calls w')) \<subseteq> set (open_listeners (calls w)) \<Longrightarrow>
     server_opt (self w') = server_opt (self w) \<Longrightarrow> held k w'"
  by (auto simp: held_def)

lemma next_held:
  assumes "srv_next env pc w = (Inr pc', w')" "exclusive env" "\<not> finished pc" "held (holder pc w) w"
  shows "held (holder pc' w') w'"
  using assms
proof (induction env pc rule: srv_next.induct)
  case (1 env)
  then obtain lis where "listen_on env w = (Inr (Inr lis), w')" "pc' = Start_New lis"
    by (auto simp: go_bind_run split: prod.splits sum.splits)
  with 1 listen_held(1) [of env w "Inr lis" w'] show ?case by auto
next
  case (2 env lis)
  then show ?case
    by (auto simp: go_bind_run open_listeners_more elim!: held_cong dest!: newGrpc_outcome split: sum.splits prod.splits)
next
  case (3 env)
  then show ?case
    by (auto simp: go_bind_run go_then_run elim!: held_cong dest!: quiet_statements(3) split: sum.splits prod.splits)
next
  case (4 env)
  then show ?case
    by (auto simp: go_bind_run open_listeners_more elim!: held_cong dest!: newGrpc_outcome split: sum.splits prod.splits)
next
  case (5 env k sid)
  then show ?case by (cases k) (auto simp: go_bind_run go_deref_def split: option.splits)
next
  case (6 env k sid)
  then show ?case by (cases k) auto
next
  case (7 env k sid key v es)
  then show ?case
    by (cases k) (auto simp: go_bind_run go_then_run elim!: held_cong dest!: quiet_statements(1,2) split: sum.splits prod.splits)
next
  case (8 env k sid key v p es)
  then show ?case by (cases k) (auto simp: go_bind_run go_then_run open_listeners_more elim!: held_cong)
next
  case (9 env k sid key v es)
  then show ?case
    by (cases k) (auto simp: reflect_service_def go_bind_run go_then_run open_listeners_more elim!: held_cong split: if_splits)
next
  case (13 env sid)
  then obtain old where w': "pc' = Refresh_Close sid" "w' = w\<lparr>calls := calls w @ [StopServer old]\<rparr>"
    by (auto simp: go_bind_run go_then_run go_deref_def split: option.splits)
  have "held (lst (self w)) w'"
    by (rule held_cong [of _ w]) (use 13(4) in \<open>simp_all add: w' open_listeners_more(5)\<close>)
  with w' show ?case by simp
next
  case (15 env sid)
  then obtain r where "listen_on env w = (Inr r, w')" "pc' = Refresh_Serve sid (case r of Inl _ \<Rightarrow> None | Inr x \<Rightarrow> Some x)"
    by (auto simp: go_bind_run split: prod.splits sum.splits)
  with 15 listen_held(1) [of env w r w' None] show ?case by (auto split: sum.splits)
qed (auto simp: go_bind_run go_then_run go_deref_def TripleServer_Stop_def open_listeners_more held_def split: option.splits)

text \<open>A call that returns hands the listener over to the object.\<close>

lemma rest_held:
  assumes "exclusive env" "srv_rest env pc w = (Inr u, w')" "held (holder pc w) w"
  shows "held (lst (self w')) w'"
  using assms(2,3)
proof (induction pc arbitrary: w rule: wf_induct_rule [OF wf_closer])
  case (1 pc)
  show ?case
  proof (cases "finished pc")
    case True
    with 1(2,3) show ?thesis by (cases pc) auto
  next
    case False
    from 1(2) obtain pc' w1 where w1: "srv_next env pc w = (Inr pc', w1)" "srv_rest env pc' w1 = (Inr u, w')"
      unfolding srv_rest_next [of env pc] by (auto simp: go_bind_run split: prod.splits sum.splits)
    from 1(1) [OF next_closer [OF w1(1) False] w1(2)] next_held [OF w1(1) assms(1) False 1(3)] show ?thesis .
  qed
qed

text \<open>A life without panics, one call after the other.\<close>

inductive calm :: "server_env \<Rightarrow> 'w sworld \<Rightarrow> bool" for env :: server_env where
  new: "calls w = [] \<Longrightarrow> self w = NewTripleServer m o0 \<Longrightarrow> calm env w"
| start: "calm env w \<Longrightarrow> TripleServer_Start env w = (Inr (), w') \<Longrightarrow> calm env w'"
| stop: "calm env w \<Longrightarrow> TripleServer_Stop w = (Inr (), w') \<Longrightarrow> calm env w'"
| refresh: "calm env w \<Longrightarrow> TripleServer_RefreshService env w = (Inr (), w') \<Longrightarrow> calm env w'"
| outside: "calm env w \<Longrightarrow> calls w' = calls w \<Longrightarrow> lst (self w') = lst (self w) \<Longrightarrow>
    server_opt (self w') = server_opt (self w) \<Longrightarrow> calm env w'"

lemma calm_held:
  assumes "calm env w" "exclusive env"
  shows "held (lst (self w)) w"
  using assms(1)
proof induction
  case (new w m o0)
  then show ?case by (simp add: held_def open_listeners_def)
next
  case (start w w')
  with rest_held [OF assms(2), of Start_Listen w] show ?case by (simp add: srv_rest_Start [symmetric])
next
  case (stop w w')
  with rest_held [OF assms(2), of Stop_Close w] show ?case by simp
next
  case (refresh w w')
  with rest_held [OF assms(2), of Refresh_Log w] show ?case by (simp add: srv_rest_Refresh [symmetric])
next
  case (outside w w')
  then show ?case by (simp add: held_def)
qed

text \<open>C21: Used by one goroutine at a time, a server loses no listener. Through any sequence of \<open>Start\<close>, \<open>Stop\<close> and
  \<open>RefreshService\<close> calls that return, on a system where an address can be bound only while nobody listens on it,
  every listener that is open is the one in the field \<open>lst\<close>, at the configured address; so there is at most
  one, and after a \<open>Stop\<close> none.\<close>

theorem sequential_calls_own_listener:
  assumes "calm env w" "exclusive env"
  shows "(\<forall>(a, l) \<in> set (open_listeners (calls w)). lst (self w) = Some l \<and> a = Location (server_opt (self w))) \<and>
    (\<forall>w'. TripleServer_Stop w = (Inr (), w') \<longrightarrow> open_listeners (calls w') = [])"
proof -
  have held: "held (lst (self w)) w" by (rule calm_held [OF assms])
  moreover have "open_listeners (calls w') = []" if "TripleServer_Stop w = (Inr (), w')" for w'
    using that held
    by (auto simp: TripleServer_Stop_def go_bind_run go_deref_def open_listeners_more held_def filter_empty_conv split: option.splits)
  ultimately show ?thesis by (simp add: held_def)
qed

section \<open>Concrete schedules\<close>

text \<open>A system that refuses to bind an address twice and numbers its listeners.\<close>

fun listener_no :: "server_event \<Rightarrow> nat" where
  "listener_no (Listen _ (Inr l)) = l"
| "listener_no _ = 0"

definition port_env :: server_env where
  "port_env = sample_server_env\<lparr>net_Listen := (\<lambda>cs a.
     if a \<in> set (map fst (open_listeners cs)) then Inl (ForeignError 4)
     else Inr (Suc (sum_list (map listener_no cs))))\<rparr>"

lemma open_listener_listened: "(a, l) \<in> set (open_listeners cs) \<Longrightarrow> Listen a (Inr l) \<in> set cs"
proof (induction cs rule: rev_induct)
  case (snoc e cs)
  obtain opened serving where cs: "fold net_event cs ([], []) = (opened, serving)" by force
  with snoc show ?case
    by (cases "(e, (opened, serving))" rule: net_event.cases) (auto simp: open_listeners_def)
qed (simp add: open_listeners_def)

lemma port_env_exclusive: "exclusive port_env"
proof -
  have "l' \<le> sum_list (map listener_no cs)" if "(a', l') \<in> set (open_listeners cs)" for a' l' cs
    using open_listener_listened [OF that] by (intro member_le_sum_list) force+
  then show ?thesis by (force simp: exclusive_def port_env_def split: if_splits)
qed

text \<open>A new server with the services \<open>m\<close>, and three calls begun on it.\<close>

definition shop_world :: "(goval \<times> nat service) list \<Rightarrow> nat sworld" where
  "shop_world m = (sample_sworld (NewTripleOption [WithLocation ''up:1'']))\<lparr>self :=
     NewTripleServer (Some m) (Some (NewTripleOption [WithLocation ''up:1'']))\<rparr>"

definition shop :: "(goval \<times> nat service) list \<Rightarrow> nat conc" where
  "shop m = \<lparr> shared = shop_world m, pcs = [Start_Listen, Refresh_Log, Refresh_Log] \<rparr>"

lemma shop_reach: "conc_reach env (shop m)"
proof -
  have "conc_reach env \<lparr> shared = shop_world m, pcs = [] \<rparr>"
    by (rule conc_reach.new [where m = "Some m" and ?o0.0 = "Some (NewTripleOption [WithLocation ''up:1''])"])
      (simp_all add: shop_world_def sample_sworld_def)
  from conc_reach.call [OF conc_reach.call [OF conc_reach.call [OF this, of Start_Listen], of Refresh_Log], of Refresh_Log]
  show ?thesis by (simp add: shop_def)
qed

lemma run_reach: "run_schedule (conc_step env) gs c = Some c' \<Longrightarrow> conc_reach env c \<Longrightarrow> conc_reach env c'"
  by (induction gs arbitrary: c) (auto split: bind_splits intro: conc_reach.step)

text \<open>What is looked at in the end: which calls have returned, who serves which listener, who was stopped, and
  the registrations with the names they were made under.\<close>

fun returned :: "'w srv_pc \<Rightarrow> bool" where
  "returned Returned = True"
| "returned _ = False"

definition serving_pairs :: "server_event list \<Rightarrow> (nat \<times> nat) list" where
  "serving_pairs cs = snd (fold net_event cs ([], []))"

definition stopped_servers :: "server_event list \<Rightarrow> nat list" where
  "stopped_servers cs = concat (map (\<lambda>e. case e of StopServer s \<Rightarrow> [s] | _ \<Rightarrow> []) cs)"

definition registrations :: "nat \<Rightarrow> server_event list \<Rightarrow> (string \<times> nat) list" where
  "registrations sid cs =
     concat (map (\<lambda>e. case e of RegisterService s d v \<Rightarrow> if s = sid then [(ServiceName d, v)] else [] | _ \<Rightarrow> []) cs)"

text \<open>One call starts the server; then two refreshes go together up to the point where they bind the address, or
  up to the point where they name the first service.\<close>

definition lost_schedule :: "nat list" where
  "lost_schedule = replicate 7 0 @ replicate 6 1 @ replicate 6 2 @ [1, 2, 1, 1, 1, 2, 2, 2]"

definition misnaming_schedule :: "nat list" where
  "misnaming_schedule = replicate 13 0 @ replicate 4 1 @ replicate 7 2 @ [1]"

definition two_services :: "(goval \<times> nat service) list" where
  "two_services = take 2 sample_services"

lemma lost_run:
  "map_option (\<lambda>c. (map returned (pcs c), lst (self (shared c)), grpcServer (self (shared c)),
        open_listeners (calls (shared c)), serving_pairs (calls (shared c)), stopped_servers (calls (shared c))))
     (run_schedule (conc_step port_env) lost_schedule (shop [])) =
   Some ([True, True, True], None, Some 2, [(''up:1'', 2)], [(0, 1), (1, 2)], [0, 0])"
  by code_simp

lemma misnaming_run:
  "map_option (\<lambda>c. (registrations 0 (calls (shared c)), registrations 1 (calls (shared c))))
     (run_schedule (conc_step port_env) misnaming_schedule (shop two_services)) =
   Some ([(''g.A'', 1), (''g.B'', 2)], [(''g.B'', 1)])"
  by code_simp


theorem registered_before_served_concurrently_witness:
  "\<exists>(c :: nat conc) xs l ys. conc_reach port_env c \<and> calls (shared c) = xs @ GoServe 1 l # ys \<and> created 1 xs \<and> \<not> served 1 xs"
proof -
  obtain c where c: "run_schedule (conc_step port_env) lost_schedule (shop []) = Some c"
    and pairs: "serving_pairs (calls (shared c)) = [(0, 1), (1, 2)]"
    using lost_run by auto
  have "(s, l) \<in> set (serving_pairs cs) \<Longrightarrow> GoServe s (Some l) \<in> set cs" for s l cs
  proof (induction cs rule: rev_induct)
    case (snoc e cs)
    obtain opened serving where cs: "fold net_event cs ([], []) = (opened, serving)" by force
    with snoc show ?case
      by (cases "(e, (opened, serving))" rule: net_event.cases) (auto simp: serving_pairs_def)
  qed (simp add: serving_pairs_def)
  then have "GoServe 1 (Some 2) \<in> set (calls (shared c))" by (simp add: pairs)
  then obtain xs ys where "calls (shared c) = xs @ GoServe 1 (Some 2) # ys" by (auto simp: in_set_conv_decomp)
  with registered_before_served_concurrently [OF run_reach [OF c shop_reach] this] run_reach [OF c shop_reach]
  show ?thesis by auto
qed

theorem statements_refine_operations_witness:
  "\<exists>n. run_schedule (conc_step port_env) (replicate n 0) \<lparr> shared = shop_world [], pcs = [Start_Listen] \<rparr> =
     Some \<lparr> shared = snd (TripleServer_Start port_env (shop_world [])),
       pcs = [outcome_pc (fst (TripleServer_Start port_env (shop_world [])))] \<rparr>"
  using statements_refine_operations [of port_env "shop_world []"] by blast

lemma shop_starts: "\<exists>w. TripleServer_Start port_env (shop_world []) = (Inr (), w) \<and> lst (self w) = Some 1 \<and>
    open_listeners (calls w) = [(''up:1'', 1)]"
  by (simp add: TripleServer_Start_def go_simps newGrpcServerWithCodec_run shop_world_def NewTripleServer_def port_env_def
      sample_sworld_def open_listeners_def sample_opts)

theorem sequential_calls_own_listener_witness:
  "\<exists>w :: nat sworld. calm port_env w \<and> open_listeners (calls w) = [(''up:1'', 1)] \<and>
     (\<exists>w'. TripleServer_Stop w = (Inr (), w') \<and> open_listeners (calls w') = [])"
proof -
  obtain w where w: "TripleServer_Start port_env (shop_world []) = (Inr (), w)" "lst (self w) = Some 1"
    "open_listeners (calls w) = [(''up:1'', 1)]" using shop_starts by blast
  have "calm port_env (shop_world [])"
    by (rule calm.new [where m = "Some []" and ?o0.0 = "Some (NewTripleOption [WithLocation ''up:1''])"])
      (simp_all add: shop_world_def sample_sworld_def)
  then have "calm port_env w" by (rule calm.start [OF _ w(1)])
  with sequential_calls_own_listener [OF this port_env_exclusive] w(2,3) show ?thesis
    by (intro exI [of _ w]) (simp add: TripleServer_Stop_def go_simps)
qed

end
