(* ===== verification/Example_Client.thy ===== *)
theory Example_Client
  imports Example_Server
begin

text \<open>
  \<open>src/example/dubbo/go-client/cmd/client.go\<close>: the four calls of the example client, its \<open>main\<close>, and
  the load test with two thousand goroutines.

  The functions of \<open>greeterProvider\<close> are nil until the framework's \<open>config.Load\<close> fills them in, so they
  are options, and what \<open>Load\<close> makes of them is an argument. The expression
  \<open>err.(*common.TripleError).StacksTrace()\<close> is an argument too: \<open>TripleError\<close> is an interface
  without that method, so the source has no meaning for it; what remains is that a type assertion on a nil
  error panics.

  The load test is a transition system: the main goroutine and the goroutines of the current round take
  turns in any order, one atomic action at a time, and a call may return or panic in any way.
\<close>

section \<open>The calls\<close>

record 'm GreeterClientImpl =
  impl_SayHelloStream :: "(Ctx \<Rightarrow> ('m gstore, 'm gstore msg_stream option \<times> goerror option) go) option"
  impl_SayHello :: "'m greeter_method option"
  impl_SayHelloWithError :: "'m greeter_method option"

definition greeterProvider :: "'m GreeterClientImpl" where
  "greeterProvider = \<lparr> impl_SayHelloStream = None, impl_SayHello = None, impl_SayHelloWithError = None \<rparr>"

definition demo_ctx :: Ctx where
  "demo_ctx = WithValue (TripleCtxKey TripleRequestID) (VString ''triple-request-id-demo'') Background"

text \<open>\<open>if err != nil { panic(err) }\<close>; \<open>etext\<close> is what the panic prints.\<close>

definition panic_on :: "(goerror \<Rightarrow> string) \<Rightarrow> goerror option \<Rightarrow> ('s, unit) go" where
  "panic_on etext err = (case err of None \<Rightarrow> go_return () | Some e \<Rightarrow> go_panic (ExplicitPanic (etext e)))"

definition testSayHello :: "(goerror \<Rightarrow> string) \<Rightarrow> 'm GreeterClientImpl \<Rightarrow> ('m gstore, unit) go" where
  "testSayHello etext impl =
     go_then (say (LogInfof ''testSayHello'' []))
     (go_bind (alloc_HelloRequest \<lparr> hello_Name = ''laurence'' \<rparr>) (\<lambda>req.
      go_bind (go_deref (impl_SayHello impl)) (\<lambda>SayHello.
      go_bind (SayHello demo_ctx (Some req)) (\<lambda>(usr, err).
      go_then (panic_on etext err)
      (say (LogInfof (''get response user = %+v'' @ newline) [ArgVal (ptr_val usr)]))))))"

definition testSayHelloWithError ::
    "(goerror \<Rightarrow> panic + string) \<Rightarrow> 'm GreeterClientImpl \<Rightarrow> ('m gstore, unit) go" where
  "testSayHelloWithError stacksTrace impl =
     go_then (say (LogInfof ''testSayHelloWithError'' []))
     (go_bind (alloc_HelloRequest \<lparr> hello_Name = ''laurence'' \<rparr>) (\<lambda>req.
      go_bind (go_deref (impl_SayHelloWithError impl)) (\<lambda>SayHelloWithError.
      go_bind (SayHelloWithError demo_ctx (Some req)) (\<lambda>(usr, err).
      go_bind (case err of None \<Rightarrow> go_panic BadTypeAssertion | Some e \<Rightarrow> go_lift (stacksTrace e)) (\<lambda>stacks.
      say (LogInfof ''GetResponse error = %+v, rspUser = %+v'' [ArgText stacks, ArgVal (ptr_val usr)]))))))"

definition testSayHelloStream :: "(goerror \<Rightarrow> string) \<Rightarrow> 'm GreeterClientImpl \<Rightarrow> ('m gstore, unit) go" where
  "testSayHelloStream etext impl =
     go_then (say (LogInfof ''testSayHelloStream'' []))
     (go_bind (alloc_HelloRequest \<lparr> hello_Name = ''laurence'' \<rparr>) (\<lambda>req.
      go_bind (go_deref (impl_SayHelloStream impl)) (\<lambda>SayHelloStream.
      go_bind (SayHelloStream demo_ctx) (\<lambda>(client, err).
      go_then (panic_on etext err)
      (go_bind (go_deref client) (\<lambda>c.
       go_bind (greeterSayHelloStreamClient_Send c (Some req)) (\<lambda>err.
       go_then (panic_on etext err)
       (go_bind (greeterSayHelloStreamClient_Recv c) (\<lambda>(usr, err).
        go_then (panic_on etext err)
        (go_bind (load_User usr) (\<lambda>u.
          say (LogInfof (''Receive user = %+v'' @ newline) [ArgUser u]))))))))))))"

text \<open>\<open>init\<close> and \<open>main\<close>.\<close>

definition client_init :: "('m gstore, unit) go" where
  "client_init = go_then (say SetConsumerService) (say (SetMutexProfileFraction 1))"

definition client_main ::
    "('m GreeterClientImpl \<Rightarrow> ('m gstore, 'm GreeterClientImpl) go) \<Rightarrow> (goerror \<Rightarrow> string) \<Rightarrow> (goerror \<Rightarrow> panic + string)
     \<Rightarrow> ('m gstore, unit) go" where
  "client_main Load etext stacksTrace =
     go_then (say (GoListenAndServe ''0.0.0.0:6061''))
     (go_bind (Load greeterProvider) (\<lambda>impl.
      go_then (say (Sleep (second * 3)))
      (go_then (testSayHello etext impl)
      (testSayHelloWithError stacksTrace impl))))"

section \<open>The load test\<close>

text \<open>Where a goroutine is. After its deferred \<open>wg.Done()\<close> it is finished; the flag says how its call
  went.\<close>

datatype worker =
    Calling
  | CountBad goerror | LogBad goerror | DoneBad
  | CountGood "nat option" | LogGood "nat option" | DoneGood
  | Unwinding panic
  | Finished bool

datatype par_pc = NewRound | AddOne nat | GoFunc nat | WaitAll | PrintGood | PrintBad | Pause

record par =
  mpc :: par_pc
  workers :: "worker list"
  wg :: int
  goodCounter :: u32
  badCounter :: u32
  pout :: "gevent list"
  crashed :: "panic option"

definition parallelCalls :: nat where
  "parallelCalls = 2000"

definition wg_Done :: "par \<Rightarrow> par" where
  "wg_Done p = (if wg p - 1 < 0 then p\<lparr>crashed := Some (ExplicitPanic ''sync: negative WaitGroup counter'')\<rparr>
     else p\<lparr>wg := wg p - 1\<rparr>)"

text \<open>The loop body of \<open>testSayHelloWithHighParallel\<close>: every round has a wait group and counters of its
  own.\<close>

definition par_main_step :: "par \<Rightarrow> par option" where
  "par_main_step p =
     (case mpc p of
        NewRound \<Rightarrow> Some (p\<lparr>wg := 0, goodCounter := 0, badCounter := 0, workers := [], mpc := AddOne 0\<rparr>)
      | AddOne i \<Rightarrow> Some (if i < parallelCalls then p\<lparr>wg := wg p + 1, mpc := GoFunc i\<rparr> else p\<lparr>mpc := WaitAll\<rparr>)
      | GoFunc i \<Rightarrow> Some (p\<lparr>workers := workers p @ [Calling], mpc := AddOne (Suc i)\<rparr>)
      | WaitAll \<Rightarrow> if wg p = 0 then Some (p\<lparr>mpc := PrintGood\<rparr>) else None
      | PrintGood \<Rightarrow> Some (p\<lparr>pout := pout p @ [Println [ArgText ''goodCounter = '', ArgCount (goodCounter p)]], mpc := PrintBad\<rparr>)
      | PrintBad \<Rightarrow> Some (p\<lparr>pout := pout p @ [Println [ArgText ''badCounter = '', ArgCount (badCounter p)]], mpc := Pause\<rparr>)
      | Pause \<Rightarrow> Some (p\<lparr>pout := pout p @ [Sleep (second * 5)], mpc := NewRound\<rparr>))"

text \<open>The goroutine's function. An unrecovered panic of the call runs the deferred \<open>wg.Done()\<close> and ends
  the process.\<close>

definition worker_step :: "nat \<Rightarrow> panic + nat option \<times> goerror option \<Rightarrow> par \<Rightarrow> par option" where
  "worker_step i reply p =
     (if i < length (workers p) then
        (let goto = (\<lambda>w. p\<lparr>workers := (workers p)[i := w]\<rparr>)
         in case workers p ! i of
              Calling \<Rightarrow> Some (goto (case reply of
                  Inl e \<Rightarrow> Unwinding e | Inr (usr, Some e) \<Rightarrow> CountBad e | Inr (usr, None) \<Rightarrow> CountGood usr))
            | CountBad e \<Rightarrow> Some ((goto (LogBad e))\<lparr>badCounter := badCounter p + 1\<rparr>)
            | LogBad e \<Rightarrow> Some ((goto DoneBad)\<lparr>pout := pout p @ [LogError [ArgErr e]]\<rparr>)
            | DoneBad \<Rightarrow> Some (wg_Done (goto (Finished False)))
            | CountGood usr \<Rightarrow> Some ((goto (LogGood usr))\<lparr>goodCounter := goodCounter p + 1\<rparr>)
            | LogGood usr \<Rightarrow> Some ((goto DoneGood)\<lparr>pout := pout p @
                [LogInfof (''Receive user = %+v'' @ newline) [ArgVal (ptr_val usr)]]\<rparr>)
            | DoneGood \<Rightarrow> Some (wg_Done (goto (Finished True)))
            | Unwinding e \<Rightarrow> Some ((wg_Done (goto (Finished False)))\<lparr>crashed := Some e\<rparr>)
            | Finished _ \<Rightarrow> None)
      else None)"

datatype par_label = MainGo | Worker nat "panic + nat option \<times> goerror option"

definition par_step :: "par_label \<Rightarrow> par \<Rightarrow> par option" where
  "par_step l p =
     (if crashed p \<noteq> None then None
      else (case l of MainGo \<Rightarrow> par_main_step p | Worker i reply \<Rightarrow> worker_step i reply p))"

definition par0 :: par where
  "par0 = \<lparr> mpc = NewRound, workers = [], wg = 0, goodCounter = 0, badCounter = 0,
     pout = [LogInfof ''testSayHello'' []], crashed = None \<rparr>"

inductive par_reach :: "par \<Rightarrow> bool" where
  par_start: "par_reach par0"
| par_next: "par_reach p \<Longrightarrow> par_step l p = Some p' \<Longrightarrow> par_reach p'"

section \<open>Facts: counting goroutines\<close>

definition tally :: "(worker \<Rightarrow> nat) \<Rightarrow> par \<Rightarrow> nat" where
  "tally f p = sum_list (map f (workers p))"

lemma tally_update:
  assumes "i < length (workers p)" "workers p' = (workers p)[i := w]"
  shows "tally f p' + f (workers p ! i) = tally f p + f w"
proof -
  have "sum_list ((map f (workers p))[i := f w]) + map f (workers p) ! i = sum_list (map f (workers p)) + f w"
    using assms(1) elem_le_sum_list [of i "map f (workers p)"] by (simp add: sum_list_update)
  with assms show ?thesis by (simp add: tally_def map_update)
qed

lemma tally_0_iff: "tally f p = 0 \<longleftrightarrow> (\<forall>w \<in> set (workers p). f w = 0)"
  by (simp add: tally_def)

lemma tally_le:
  assumes "\<And>w. f w + g w \<le> 1"
  shows "tally f p + tally g p \<le> length (workers p)"
proof -
  have "sum_list (map f ws) + sum_list (map g ws) \<le> length ws" for ws
  proof (induction ws)
    case (Cons w ws)
    then show ?case using assms [of w] by simp
  qed simp
  then show ?thesis by (simp add: tally_def)
qed

text \<open>What a goroutine contributes to the good and the bad counter and to the wait group, and how many
  actions it still has to perform.\<close>

fun good_of :: "worker \<Rightarrow> nat" where
  "good_of (LogGood _) = 1" | "good_of DoneGood = 1" | "good_of (Finished b) = (if b then 1 else 0)" | "good_of _ = 0"

fun bad_of :: "worker \<Rightarrow> nat" where
  "bad_of (LogBad _) = 1" | "bad_of DoneBad = 1" | "bad_of (Finished b) = (if b then 0 else 1)" | "bad_of _ = 0"

fun open_of :: "worker \<Rightarrow> nat" where
  "open_of (Finished _) = 0" | "open_of _ = 1"

fun actions_left :: "worker \<Rightarrow> nat" where
  "actions_left Calling = 4"
| "actions_left (CountBad _) = 3" | "actions_left (LogBad _) = 2" | "actions_left DoneBad = 1"
| "actions_left (CountGood _) = 3" | "actions_left (LogGood _) = 2" | "actions_left DoneGood = 1"
| "actions_left (Unwinding _) = 1" | "actions_left (Finished _) = 0"

text \<open>How far the spawning loop is: the goroutines it has started, and whether it has added one to the wait
  group that is not started yet.\<close>

fun spawned :: "par_pc \<Rightarrow> nat \<Rightarrow> bool" where
  "spawned (AddOne i) n \<longleftrightarrow> n = i \<and> i \<le> parallelCalls"
| "spawned (GoFunc i) n \<longleftrightarrow> n = i \<and> i < parallelCalls"
| "spawned NewRound n \<longleftrightarrow> n = parallelCalls \<or> n = 0"
| "spawned _ n \<longleftrightarrow> n = parallelCalls"

fun pending :: "par_pc \<Rightarrow> nat" where
  "pending (GoFunc _) = 1" | "pending _ = 0"

definition past_wait :: "par_pc \<Rightarrow> bool" where
  "past_wait l \<longleftrightarrow> l \<in> {PrintGood, PrintBad, Pause, NewRound}"

definition par_inv :: "par \<Rightarrow> bool" where
  "par_inv p \<longleftrightarrow> goodCounter p = of_nat (tally good_of p) \<and> badCounter p = of_nat (tally bad_of p) \<and>
     wg p = int (tally open_of p + pending (mpc p)) \<and> spawned (mpc p) (length (workers p)) \<and>
     (past_wait (mpc p) \<longrightarrow> wg p = 0)"

lemma tally_cong: "workers p' = workers p \<Longrightarrow> tally f p' = tally f p"
  by (simp add: tally_def)

lemma par_inv_main:
  assumes "par_inv p" "par_main_step p = Some p'"
  shows "par_inv p'"
  using assms
  by (cases "mpc p") (auto simp: par_inv_def par_main_step_def past_wait_def tally_def split: if_splits)

text \<open>A step of a goroutine replaces its state and changes one of the three counters accordingly.\<close>

lemma worker_step_effect:
  assumes "worker_step i reply p = Some p'" "crashed p' = None" "crashed p = None"
  shows "i < length (workers p) \<and> mpc p' = mpc p \<and> (\<exists>w. workers p' = (workers p)[i := w] \<and>
    open_of (workers p ! i) = 1 \<and>
    goodCounter p' + of_nat (good_of (workers p ! i)) = goodCounter p + of_nat (good_of w) \<and>
    badCounter p' + of_nat (bad_of (workers p ! i)) = badCounter p + of_nat (bad_of w) \<and>
    wg p' + int (open_of (workers p ! i)) = wg p + int (open_of w) \<and> actions_left w < actions_left (workers p ! i))"
  using assms
  by (cases "workers p ! i")
    (auto simp: worker_step_def wg_Done_def Let_def split: if_splits sum.splits option.splits prod.splits)

lemma par_inv_worker:
  assumes "par_inv p" "worker_step i reply p = Some p'" "crashed p' = None" "crashed p = None"
  shows "par_inv p'"
proof -
  obtain w where i: "i < length (workers p)" and w: "workers p' = (workers p)[i := w]"
    and m: "mpc p' = mpc p" "open_of (workers p ! i) = 1"
    and good: "goodCounter p' + of_nat (good_of (workers p ! i)) = goodCounter p + of_nat (good_of w)"
    and bad: "badCounter p' + of_nat (bad_of (workers p ! i)) = badCounter p + of_nat (bad_of w)"
    and wg: "wg p' + int (open_of (workers p ! i)) = wg p + int (open_of w)"
    using worker_step_effect [OF assms(2-4)] by blast
  note t = tally_update [OF i w]
  have word: "(x :: u32) + of_nat a = of_nat b + of_nat c \<Longrightarrow> d + a = b + c \<Longrightarrow> x = of_nat d" for x a b c d
    by (metis add_right_cancel of_nat_add)
  have "goodCounter p' = of_nat (tally good_of p')"
    using word [OF _ t [of good_of]] good assms(1) by (simp add: par_inv_def)
  moreover have "badCounter p' = of_nat (tally bad_of p')"
    using word [OF _ t [of bad_of]] bad assms(1) by (simp add: par_inv_def)
  moreover have "wg p' = int (tally open_of p' + pending (mpc p'))"
    using t [of open_of] wg assms(1) by (simp add: par_inv_def m)
  moreover have "\<not> past_wait (mpc p)"
  proof
    assume "past_wait (mpc p)"
    then have "tally open_of p = 0" using assms(1) by (simp add: par_inv_def)
    then show False using i m(2) by (auto simp: tally_0_iff dest: nth_mem)
  qed
  ultimately show ?thesis using assms(1) by (simp add: par_inv_def m w)
qed

interpretation load_test: step_invariant par_step "\<lambda>p. crashed p = None \<longrightarrow> par_inv p"
proof unfold_locales
  fix l p p'
  assume "par_step l p = Some p'" "crashed p = None \<longrightarrow> par_inv p"
  then show "crashed p' = None \<longrightarrow> par_inv p'"
    by (cases l) (auto simp: par_step_def intro: par_inv_main par_inv_worker split: if_splits)
qed

lemma par_reach_inv: "par_reach p \<Longrightarrow> crashed p = None \<Longrightarrow> par_inv p"
proof (induction rule: par_reach.induct)
  case par_start
  show ?case by (simp add: par0_def par_inv_def tally_def past_wait_def)
next
  case (par_next p l p')
  then have "crashed p = None \<longrightarrow> par_inv p" by simp
  from load_test.step_keeps [OF par_next.hyps(2) this] par_next.prems show ?case by simp
qed

text \<open>Once every goroutine is finished, the tallies count the two outcomes.\<close>

lemma finished_tallies:
  assumes "\<And>w. w \<in> set ws \<Longrightarrow> \<exists>b. w = Finished b"
  shows "sum_list (map good_of ws) = length (filter (\<lambda>w. w = Finished True) ws)"
    and "sum_list (map bad_of ws) = length (filter (\<lambda>w. w = Finished False) ws)"
    and "sum_list (map good_of ws) + sum_list (map bad_of ws) = length ws"
  using assms by (induction ws) fastforce+

text \<open>The actions left in a round, over all goroutines.\<close>

fun main_left :: "par_pc \<Rightarrow> nat" where
  "main_left (AddOne i) = (parallelCalls - i) * 6 + 5"
| "main_left (GoFunc i) = (parallelCalls - i) * 6 + 4"
| "main_left WaitAll = 4"
| "main_left PrintGood = 3"
| "main_left PrintBad = 2"
| "main_left Pause = 1"
| "main_left NewRound = 0"

definition round_left :: "par \<Rightarrow> nat" where
  "round_left p = tally actions_left p + main_left (mpc p)"

lemma round_left_main:
  assumes "par_inv p" "par_main_step p = Some p'" "mpc p \<noteq> NewRound"
  shows "round_left p' < round_left p"
  using assms
  by (cases "mpc p") (auto simp: par_inv_def par_main_step_def round_left_def tally_def diff_mult_distrib split: if_splits)

lemma worker_step_decreases:
  assumes "worker_step i reply p = Some p'"
  shows "i < length (workers p) \<and> mpc p' = mpc p \<and>
    (\<exists>w. workers p' = (workers p)[i := w] \<and> actions_left w < actions_left (workers p ! i))"
  using assms
  by (cases "workers p ! i")
    (auto simp: worker_step_def wg_Done_def Let_def split: if_splits sum.splits option.splits prod.splits)

lemma round_left_worker:
  assumes "worker_step i reply p = Some p'"
  shows "round_left p' < round_left p"
proof -
  obtain w where w: "i < length (workers p)" "workers p' = (workers p)[i := w]" "mpc p' = mpc p"
      "actions_left w < actions_left (workers p ! i)"
    using worker_step_decreases [OF assms] by blast
  from tally_update [OF w(1,2), of actions_left] w(3,4) show ?thesis by (simp add: round_left_def)
qed

text \<open>The steps of one round: those of the system until main is about to start the next.\<close>

definition round_step :: "par_label \<Rightarrow> par \<Rightarrow> par option" where
  "round_step l p = (if mpc p = NewRound then None else par_step l p)"

interpretation one_round: step_variant round_step "\<lambda>p. crashed p = None \<longrightarrow> par_inv p" round_left
proof unfold_locales
  fix l p p'
  assume "round_step l p = Some p'" and inv: "crashed p = None \<longrightarrow> par_inv p"
  then have step: "par_step l p = Some p'" "mpc p \<noteq> NewRound" by (simp_all add: round_step_def split: if_splits)
  show "crashed p' = None \<longrightarrow> par_inv p'" by (rule load_test.step_keeps [OF step(1) inv])
  show "round_left p' < round_left p"
    using step inv round_left_main [of p p'] round_left_worker [of _ _ p p']
    by (cases l) (auto simp: par_step_def split: if_splits)
qed

lemma open_of_01: "open_of w = 0 \<or> open_of w = 1"
  by (cases w) simp_all

lemma worker_can_step:
  assumes "i < length (workers p)" "open_of (workers p ! i) = 1"
  shows "worker_step i reply p \<noteq> None"
  using assms by (cases "workers p ! i") (simp_all add: worker_step_def Let_def)

section \<open>Properties\<close>


text \<open>C27: Every round of the load test ends. In any reachable state that has not crashed some goroutine or
  main can go on, so nobody is stuck; and from the moment a round has begun, no schedule whatever can perform
  more than 12005 actions before the next round begins or a call has crashed the process.\<close>

theorem parallel_round_ends:
  assumes "par_reach p" "crashed p = None"
  shows "(\<exists>l. par_step l p \<noteq> None) \<and>
    (run_schedule round_step ls p = Some p' \<longrightarrow> length ls \<le> round_left p) \<and>
    (mpc p = NewRound \<longrightarrow> (\<exists>p1. par_step MainGo p = Some p1 \<and>
       (run_schedule round_step ls p1 = Some p' \<longrightarrow> length ls \<le> 12005)))"
proof -
  have inv: "par_inv p" by (rule par_reach_inv [OF assms])
  have "\<exists>l. par_step l p \<noteq> None"
  proof (cases "mpc p = WaitAll \<and> wg p \<noteq> 0")
    case True
    then obtain w where "w \<in> set (workers p)" "open_of w \<noteq> 0"
      using inv by (auto simp: par_inv_def tally_0_iff)
    then obtain i where "i < length (workers p)" "open_of (workers p ! i) = 1"
      using open_of_01 by (metis in_set_conv_nth)
    from worker_can_step [OF this, of "Inr (None, None)"] assms(2) show ?thesis
      by (intro exI [of _ "Worker i (Inr (None, None))"]) (simp add: par_step_def)
  next
    case False
    then show ?thesis
      using assms(2) by (intro exI [of _ MainGo]) (cases "mpc p"; simp add: par_step_def par_main_step_def)
  qed
  moreover have "length ls \<le> round_left p" if "run_schedule round_step ls p = Some p'"
    using one_round.run_bounded [OF that] inv by simp
  moreover have "\<exists>p1. par_step MainGo p = Some p1 \<and>
      (run_schedule round_step ls p1 = Some p' \<longrightarrow> length ls \<le> 12005)" if new: "mpc p = NewRound"
  proof -
    obtain p1 where p1: "par_step MainGo p = Some p1" "round_left p1 = 12005"
      using new assms(2)
      by (simp add: par_step_def par_main_step_def round_left_def tally_def parallelCalls_def)
    have "par_reach p1" by (rule par_next [OF assms(1) p1(1)])
    then have "crashed p1 = None \<longrightarrow> par_inv p1" using par_reach_inv by blast
    with p1 one_round.run_bounded [of ls p1 p'] show ?thesis by auto
  qed
  ultimately show ?thesis by blast
qed

text \<open>Addresses that were not handed out yet are free.\<close>

definition fresh_ok :: "'m gstore \<Rightarrow> bool" where
  "fresh_ok s \<longleftrightarrow> (\<forall>a \<ge> gfresh s. gusers s a = None)"

text \<open>The state in which a test makes its call.\<close>

definition opened :: "string \<Rightarrow> 'm gstore \<Rightarrow> 'm gstore" where
  "opened x s = s\<lparr>gevents := gevents s @ [LogInfof x []], greqs := (greqs s)(gfresh s \<mapsto> \<lparr>hello_Name = ''laurence''\<rparr>),
     gfresh := Suc (gfresh s)\<rparr>"

lemma opened_fields [simp]:
  "gevents (opened x s) = gevents s @ [LogInfof x []]" "gusers (opened x s) = gusers s"
  "greqs (opened x s) (gfresh s) = Some \<lparr>hello_Name = ''laurence''\<rparr>"
  by (simp_all add: opened_def)

lemma fresh_ok_opened: "fresh_ok s \<Longrightarrow> fresh_ok (opened x s)"
  by (simp add: fresh_ok_def opened_def)

text \<open>The client's view of a provider method across the framework and the network: for the same request
  value it answers with an equal user, fails exactly when the provider does, and leaves the client's own
  output and the users it already has alone.\<close>

definition answers_like :: "'m greeter_method \<Rightarrow> 'n greeter_method \<Rightarrow> bool" where
  "answers_like f g \<longleftrightarrow> (\<forall>ctx p q r s t. fresh_ok s \<longrightarrow> greqs s p = Some r \<longrightarrow> greqs t q = Some r \<longrightarrow>
     (\<exists>u err s' v err' t'. f ctx (Some p) s = (Inr (Some u, err), s') \<and> g ctx (Some q) t = (Inr (Some v, err'), t') \<and>
        gusers s' u = gusers t' v \<and> (err = None \<longleftrightarrow> err' = None) \<and> gevents s' = gevents s \<and>
        fresh_ok s' \<and> (\<forall>a x. gusers s a = Some x \<longrightarrow> gusers s' a = Some x)))"

lemma answers_like_SayHello:
  assumes "answers_like f (gs_SayHello (GreeterProvider :: unit GreeterServer))" "fresh_ok s" "greqs s p = Some \<lparr>hello_Name = name\<rparr>"
  shows "\<exists>u s'. f ctx (Some p) s = (Inr (Some u, None), s') \<and> gevents s' = gevents s \<and>
    gusers s' u = Some \<lparr>user_Name = name, user_Id = ''12345'', user_Age = 21\<rparr> \<and>
    fresh_ok s' \<and> (\<forall>a x. gusers s a = Some x \<longrightarrow> gusers s' a = Some x)"
proof -
  define t :: "unit gstore" where
    "t = \<lparr> greqs = [0 \<mapsto> \<lparr>hello_Name = name\<rparr>], gusers = Map.empty, gfresh = 1, gevents = [], below = () \<rparr>"
  have "gs_SayHello GreeterProvider ctx (Some 0) t = (Inr (Some 1, None),
      answered (provider_lines ctx name) \<lparr>user_Name = name, user_Id = ''12345'', user_Age = 21\<rparr> t)"
    by (simp add: t_def GreeterProvider_def GreeterProvider_SayHello_def provider_lines_def answered_def go_simps run_simps)
  with assms(1) [unfolded answers_like_def, rule_format, OF assms(2,3), of t 0 ctx] show ?thesis
    by (auto simp: t_def answered_def)
qed

lemma answers_like_SayHelloWithError:
  assumes "answers_like f (gs_SayHelloWithError (GreeterProvider :: unit GreeterServer))"
    "fresh_ok s" "greqs s p = Some \<lparr>hello_Name = name\<rparr>"
  shows "\<exists>u e s'. f ctx (Some p) s = (Inr (Some u, Some e), s') \<and> gevents s' = gevents s \<and>
    gusers s' u = Some \<lparr>user_Name = name, user_Id = ''12345'', user_Age = 21\<rparr> \<and>
    fresh_ok s' \<and> (\<forall>a x. gusers s a = Some x \<longrightarrow> gusers s' a = Some x)"
proof -
  define t :: "unit gstore" where
    "t = \<lparr> greqs = [0 \<mapsto> \<lparr>hello_Name = name\<rparr>], gusers = Map.empty, gfresh = 1, gevents = [], below = () \<rparr>"
  have "gs_SayHelloWithError GreeterProvider ctx (Some 0) t = (Inr (Some 1, Some (PkgError ''user defined error'')),
      answered (provider_lines ctx name) \<lparr>user_Name = name, user_Id = ''12345'', user_Age = 21\<rparr> t)"
    by (simp add: t_def GreeterProvider_def GreeterProvider_SayHelloWithError_def provider_lines_def answered_def
        go_simps run_simps)
  with assms(1) [unfolded answers_like_def, rule_format, OF assms(2,3), of t 0 ctx] show ?thesis
    by (auto simp: t_def answered_def)
qed


section \<open>A stream between the two programs\<close>

text \<open>A gRPC stream delivers messages in order and loses none, so its state is seen as two queues, requests and
  answers. The server's end takes from the one and adds to the other; \<open>run_server\<close> is what the server's
  handler, in a process of its own, makes of them.\<close>

type_synonym wire = "HelloRequest list \<times> User list"

definition server_end :: "wire gstore msg_stream" where
  "server_end =
     \<lparr> stream_SendMsg = (\<lambda>v s. case v of
         VPtr p \<Rightarrow> (Inr None, s\<lparr>below := (fst (below s), snd (below s) @ [the (gusers s p)])\<rparr>)
       | _ \<Rightarrow> (Inr (Some EOF), s)),
       stream_RecvMsg = (\<lambda>v s. case (v, fst (below s)) of
         (VPtr p, r # rs) \<Rightarrow> (Inr None, s\<lparr>greqs := (greqs s)(p \<mapsto> r), below := (rs, snd (below s))\<rparr>)
       | _ \<Rightarrow> (Inr (Some EOF), s)) \<rparr>"

definition run_server :: "wire \<Rightarrow> wire" where
  "run_server q = below (snd (Greeter_SayHelloStream_Handler
     \<lparr> as_Dubbo3GrpcService = Some None, as_GreeterServer = Some GreeterProvider \<rparr> server_end
     \<lparr> greqs = Map.empty, gusers = Map.empty, gfresh = 0, gevents = [], below = q \<rparr>))"

text \<open>The contract of the client's end: sending adds the request to the queue; receiving waits until the server
  has run if no answer is there, and stores the first answer. \<open>view\<close> shows the queues in gRPC's state.\<close>

definition stream_contract :: "('m \<Rightarrow> wire) \<Rightarrow> 'm gstore msg_stream \<Rightarrow> bool" where
  "stream_contract view c \<longleftrightarrow>
     (\<forall>s p r. greqs s p = Some r \<longrightarrow> (\<exists>b. stream_SendMsg c (VPtr p) s = (Inr None, s\<lparr>below := b\<rparr>) \<and>
        view b = (fst (view (below s)) @ [r], snd (view (below s))))) \<and>
     (\<forall>s p rs u us.
        (if snd (view (below s)) = [] then run_server (view (below s)) else view (below s)) = (rs, u # us) \<longrightarrow>
        (\<exists>b. stream_RecvMsg c (VPtr p) s = (Inr None, s\<lparr>gusers := (gusers s)(p \<mapsto> u), below := b\<rparr>) \<and> view b = (rs, us)))"

lemma run_server_one:
  "run_server ([\<lparr>hello_Name = name\<rparr>], []) = ([], [\<lparr>user_Name = ''hello '' @ name, user_Id = ''123456789'', user_Age = 18\<rparr>])"
  by (simp add: run_server_def Greeter_SayHelloStream_Handler_def GreeterProvider_def GreeterProvider_SayHelloStream_def
      greeterSayHelloStreamServer_Recv_def greeterSayHelloStreamServer_Send_def server_end_def ptr_val_def go_simps run_simps)


section \<open>Concrete runs\<close>

text \<open>The queues themselves as the state of gRPC.\<close>

definition client_end :: "wire gstore msg_stream" where
  "client_end =
     \<lparr> stream_SendMsg = (\<lambda>v s. case v of
         VPtr p \<Rightarrow> (Inr None, s\<lparr>below := (fst (below s) @ [the (greqs s p)], snd (below s))\<rparr>)
       | _ \<Rightarrow> (Inr (Some EOF), s)),
       stream_RecvMsg = (\<lambda>v s.
         let q = (if snd (below s) = [] then run_server (below s) else below s)
         in case (v, snd q) of
           (VPtr p, u # us) \<Rightarrow> (Inr None, s\<lparr>gusers := (gusers s)(p \<mapsto> u), below := (fst q, us)\<rparr>)
         | _ \<Rightarrow> (Inr (Some EOF), s\<lparr>below := q\<rparr>)) \<rparr>"

lemma client_end_contract: "stream_contract id client_end"
  by (auto simp: stream_contract_def client_end_def Let_def)


text \<open>A round of the load test in which every call succeeds before the next one is made.\<close>

definition spawning :: "nat \<Rightarrow> par" where
  "spawning i = \<lparr> mpc = AddOne i, workers = replicate i (Finished True), wg = 0, goodCounter = of_nat i, badCounter = 0,
     pout = LogInfof ''testSayHello'' [] # replicate i (LogInfof (''Receive user = %+v'' @ newline) [ArgVal VNil]),
     crashed = None \<rparr>"

lemma spawning_reach: "i \<le> parallelCalls \<Longrightarrow> par_reach (spawning i)"
proof (induction i)
  case 0
  have "par_step MainGo par0 = Some (spawning 0)"
    by (simp add: par_step_def par_main_step_def par0_def spawning_def)
  then show ?case by (rule par_next [OF par_start])
next
  case (Suc i)
  let ?s = "spawning i"
  let ?w = "\<lambda>w n. ?s\<lparr>mpc := AddOne (Suc i), workers := replicate i (Finished True) @ [w], wg := 1, goodCounter := n\<rparr>"
  let ?l = "Worker i (Inr (None, None))"
  let ?line = "LogInfof (''Receive user = %+v'' @ newline) [ArgVal VNil]"
  have upd: "(replicate i (Finished True) @ [w])[i := w'] = replicate i (Finished True) @ [w']"
      "(replicate i (Finished True) @ [w]) ! i = w" for w w'
    by (simp_all add: list_update_append nth_append)
  note run = par_step_def par_main_step_def worker_step_def wg_Done_def spawning_def upd ptr_val_def
  have steps: "par_step MainGo ?s = Some (?s\<lparr>wg := 1, mpc := GoFunc i\<rparr>)"
      "par_step MainGo (?s\<lparr>wg := 1, mpc := GoFunc i\<rparr>) = Some (?w Calling (of_nat i))"
      "par_step ?l (?w Calling (of_nat i)) = Some (?w (CountGood None) (of_nat i))"
      "par_step ?l (?w (CountGood None) (of_nat i)) = Some (?w (LogGood None) (of_nat i + 1))"
      "par_step ?l (?w (LogGood None) (of_nat i + 1)) = Some ((?w DoneGood (of_nat i + 1))\<lparr>pout := pout ?s @ [?line]\<rparr>)"
      "par_step ?l ((?w DoneGood (of_nat i + 1))\<lparr>pout := pout ?s @ [?line]\<rparr>) = Some (spawning (Suc i))"
    using Suc.prems by (simp_all add: run replicate_append_same add.commute)
  show ?case
    using Suc.IH Suc.prems steps by (meson Suc_leD par_next)
qed

definition printing :: par where
  "printing = (spawning parallelCalls)\<lparr>mpc := PrintGood\<rparr>"

lemma printing_reach: "par_reach printing"
proof -
  have "par_step MainGo (spawning parallelCalls) = Some ((spawning parallelCalls)\<lparr>mpc := WaitAll\<rparr>)"
      "par_step MainGo ((spawning parallelCalls)\<lparr>mpc := WaitAll\<rparr>) = Some printing"
    by (simp_all add: par_step_def par_main_step_def spawning_def printing_def)
  then show ?thesis using spawning_reach [OF order.refl] par_next by blast
qed


theorem parallel_round_ends_witness:
  "run_schedule round_step [MainGo, MainGo] (spawning 0) \<noteq> None \<and> length [MainGo, MainGo] \<le> round_left (spawning 0)"
proof -
  obtain p' where "run_schedule round_step [MainGo, MainGo] (spawning 0) = Some p'"
    by (simp add: round_step_def par_step_def par_main_step_def spawning_def parallelCalls_def)
  with parallel_round_ends [OF spawning_reach, of 0 "[MainGo, MainGo]" p'] show ?thesis by (simp add: spawning_def)
qed

text \<open>A framework that answers in place of the provider.\<close>

definition stand_in :: "goerror option \<Rightarrow> unit greeter_method" where
  "stand_in err ctx p s =
     (case Option.bind p (greqs s) of
        None \<Rightarrow> (Inl NilDereference, s)
      | Some r \<Rightarrow> (Inr (Some (gfresh s), err),
          s\<lparr>gusers := (gusers s)(gfresh s \<mapsto> \<lparr>user_Name = hello_Name r, user_Id = ''12345'', user_Age = 21\<rparr>),
            gfresh := Suc (gfresh s)\<rparr>))"

lemma stand_in_answers:
  "answers_like (stand_in None) (gs_SayHello (GreeterProvider :: unit GreeterServer))"
  "answers_like (stand_in (Some (StatusError codes_Unknown ''user defined error'')))
     (gs_SayHelloWithError (GreeterProvider :: unit GreeterServer))"
  by (auto simp: answers_like_def stand_in_def fresh_ok_def GreeterProvider_def GreeterProvider_SayHello_def
      GreeterProvider_SayHelloWithError_def go_simps run_simps)

definition unit_store :: "unit gstore" where
  "unit_store = \<lparr> greqs = Map.empty, gusers = Map.empty, gfresh = 0, gevents = [], below = () \<rparr>"

definition connected :: "unit GreeterClientImpl" where
  "connected = greeterProvider\<lparr>impl_SayHello := Some (stand_in None),
     impl_SayHelloWithError := Some (stand_in (Some (StatusError codes_Unknown ''user defined error'')))\<rparr>"


end
