(* ===== verification/Package_Tests.thy ===== *)
theory Package_Tests
  imports Example_Client
begin

text \<open>
  The repository's tests as programs: \<open>src/pkg/config/config_test.go\<close> and the integration test of the example,
  \<open>src/example/dubbo/go-server/tests\<close>. An assertion of testify records whether it held and goes on, so a test
  returns the outcomes of its assertions in order; it passes when it does not panic and all of them held.
\<close>

section \<open>The options\<close>

definition NotNil :: "'a option \<Rightarrow> bool" where
  "NotNil p \<longleftrightarrow> p \<noteq> None"

text \<open>\<open>NewTripleOption\<close> returns a pointer to the option it builds, which is never nil.\<close>

definition opt_ptr :: "OptionFunction list \<Rightarrow> triple_option option" where
  "opt_ptr fs = Some (NewTripleOption fs)"

definition TestNewTripleOption :: "bool list" where
  "TestNewTripleOption = [NotNil (opt_ptr [])]"

definition TestWithClientTimeout :: "bool list" where
  "TestWithClientTimeout = [NotNil (opt_ptr [WithClientTimeout 120]), Timeout (NewTripleOption [WithClientTimeout 120]) = 120]"

definition TestWithSerializerType :: "bool list" where
  "TestWithSerializerType =
     [NotNil (opt_ptr [WithCodecType HessianCodecName]),
      CodecType (NewTripleOption [WithCodecType HessianCodecName]) = HessianCodecName,
      NotNil (opt_ptr [WithCodecType PBCodecName]),
      CodecType (NewTripleOption [WithCodecType PBCodecName]) = PBCodecName]"

definition TestWithBufferSize :: "bool list" where
  "TestWithBufferSize = [NotNil (opt_ptr [WithBufferSize 100000]), BufferSize (NewTripleOption [WithBufferSize 100000]) = 100000]"

definition TestOption_SetEmptyFieldDefaultConfig :: "bool list" where
  "TestOption_SetEmptyFieldDefaultConfig =
     [NotNil (opt_ptr [WithBufferSize 100000]), 100000 = BufferSize (NewTripleOption [WithBufferSize 100000]),
      DefaultTimeout = Timeout (NewTripleOption [WithBufferSize 100000]),
      DefaultHttp2ControllerReadBufferSize = BufferSize (NewTripleOption []), DefaultTimeout = Timeout (NewTripleOption [])]"

definition TestWithHeaderAppVersion :: "bool list" where
  "TestWithHeaderAppVersion = [NotNil (opt_ptr [WithHeaderAppVersion ''1.0.0'']),
     ''1.0.0'' = HeaderAppVersion (NewTripleOption [WithHeaderAppVersion ''1.0.0''])]"

definition TestWithHeaderAppGroup :: "bool list" where
  "TestWithHeaderAppGroup = [NotNil (opt_ptr [WithHeaderGroup ''dubbo'']),
     ''dubbo'' = HeaderGroup (NewTripleOption [WithHeaderGroup ''dubbo''])]"

definition TestWithLogger :: "bool list" where
  "TestWithLogger = [NotNil (opt_ptr [WithLogger (Some GetDefaultLogger)]),
     NotNil (Logger (NewTripleOption [WithLogger (Some GetDefaultLogger)]))]"

definition TestValidate :: "bool list" where
  "TestValidate = (let o1 = Validate (NewTripleOption []) in
     [NotNil (opt_ptr []), DefaultTimeout = Timeout o1, DefaultHttp2ControllerReadBufferSize = BufferSize o1,
      DefaultListeningAddress = Location o1, TRIPLE = Protocol o1, PBCodecName = CodecType o1])"

definition config_test :: "bool list list" where
  "config_test = [TestNewTripleOption, TestWithClientTimeout, TestWithSerializerType, TestWithBufferSize,
     TestOption_SetEmptyFieldDefaultConfig, TestWithHeaderAppVersion, TestWithHeaderAppGroup, TestWithLogger, TestValidate]"

lemmas config_test_defs = TestNewTripleOption_def TestWithClientTimeout_def TestWithSerializerType_def
  TestWithBufferSize_def TestOption_SetEmptyFieldDefaultConfig_def TestWithHeaderAppVersion_def
  TestWithHeaderAppGroup_def TestWithLogger_def TestValidate_def config_test_def NotNil_def opt_ptr_def

text \<open>The tests of the option package pass.\<close>

theorem config_tests_pass: "\<forall>t \<in> set config_test. \<forall>a \<in> set t. a"
  by (simp add: config_test_defs NewTripleOption_def with_defs zero_option_def NewLoggerWrapper_def Let_def
      HessianCodecName_def PBCodecName_def)

section \<open>The integration test\<close>

text \<open>\<open>TestSayHello\<close>. A nil user would panic in the assertions about its fields.\<close>

definition TestSayHello :: "'m GreeterClientImpl \<Rightarrow> ('m gstore, bool list) go" where
  "TestSayHello impl =
     go_bind (alloc_HelloRequest \<lparr> hello_Name = ''laurence'' \<rparr>) (\<lambda>req.
     go_bind (go_deref (impl_SayHello impl)) (\<lambda>SayHello.
     go_bind (SayHello Background (Some req)) (\<lambda>(user, err).
     go_bind (load_User user) (\<lambda>u.
     go_return [err = None, ''laurence'' = user_Name u, ''12345'' = user_Id u, 21 = user_Age u]))))"

text \<open>\<open>m.Run()\<close> runs the tests of the package, one here, and answers 0 when they pass and 1 otherwise;
  \<open>TestMain\<close> returns the status that it gives to \<open>os.Exit\<close>.\<close>

definition m_Run :: "('m gstore, bool list) go \<Rightarrow> ('m gstore, int) go" where
  "m_Run test = go_bind test (\<lambda>asserted. go_return (if list_all id asserted then 0 else 1))"

definition TestMain :: "('m GreeterClientImpl \<Rightarrow> ('m gstore, 'm GreeterClientImpl) go) \<Rightarrow> ('m gstore, int) go" where
  "TestMain Load =
     go_then (say SetConsumerService)
     (go_bind (Load greeterProvider) (\<lambda>impl.
      go_then (say (Sleep (second * 3))) (m_Run (TestSayHello impl))))"

lemma TestSayHello_run:
  assumes "impl_SayHello impl = Some f"
    and "f Background (Some (gfresh s)) (s\<lparr>greqs := (greqs s)(gfresh s \<mapsto> \<lparr>hello_Name = ''laurence''\<rparr>), gfresh := Suc (gfresh s)\<rparr>)
      = (Inr (Some a, err), s')" "gusers s' a = Some u"
  shows "TestSayHello impl s = (Inr [err = None, user_Name u = ''laurence'', user_Id u = ''12345'', user_Age u = 21], s')"
  using assms by (auto simp: TestSayHello_def load_User_def go_simps run_simps)

text \<open>The integration test passes, with exit status 0, when the framework connects \<open>SayHello\<close> to the provider's
  method; it fails with status 1 when the call answers a user with an error, and panics when the user is nil or
  nothing was connected.\<close>

theorem integration_test_outcome:
  fixes impl :: "'m GreeterClientImpl"
  assumes "Load greeterProvider (s\<lparr>gevents := gevents s @ [SetConsumerService]\<rparr>) = (Inr impl, s1)" "fresh_ok s1"
    and "answers_like f (gs_SayHello (GreeterProvider :: unit GreeterServer))"
    and "\<And>c p t. \<exists>a t' u. bad c (Some p) t = (Inr (Some a, Some e), t') \<and> gusers t' a = Some u"
    and "\<And>c p t. \<exists>t'. nil_user c (Some p) t = (Inr (None, err), t')"
  shows "(impl_SayHello impl = Some f \<longrightarrow> fst (TestMain Load s) = Inr 0) \<and>
    (impl_SayHello impl = Some bad \<longrightarrow> fst (TestMain Load s) = Inr 1) \<and>
    (impl_SayHello impl = Some nil_user \<or> impl_SayHello impl = None \<longrightarrow> fst (TestMain Load s) = Inl NilDereference)"
proof (intro conjI impI)
  let ?s2 = "s1\<lparr>gevents := gevents s1 @ [Sleep (second * 3)]\<rparr>"
  let ?s3 = "?s2\<lparr>greqs := (greqs s1)(gfresh s1 \<mapsto> \<lparr>hello_Name = ''laurence''\<rparr>), gfresh := Suc (gfresh s1)\<rparr>"
  have main: "TestMain Load s = m_Run (TestSayHello impl) ?s2"
    using assms(1) by (simp add: TestMain_def go_simps)
  {
    assume impl: "impl_SayHello impl = Some f"
    have "fresh_ok ?s3" "greqs ?s3 (gfresh s1) = Some \<lparr>hello_Name = ''laurence''\<rparr>"
      using assms(2) by (simp_all add: fresh_ok_def)
    from answers_like_SayHello [where ctx = Background, OF assms(3) this]
    obtain a s' where "f Background (Some (gfresh s1)) ?s3 = (Inr (Some a, None), s')"
        "gusers s' a = Some \<lparr>user_Name = ''laurence'', user_Id = ''12345'', user_Age = 21\<rparr>" by blast
    then show "fst (TestMain Load s) = Inr 0"
      using TestSayHello_run [OF impl, of ?s2] by (simp add: main m_Run_def go_simps)
  next
    assume impl: "impl_SayHello impl = Some bad"
    obtain a s' u where "bad Background (Some (gfresh s1)) ?s3 = (Inr (Some a, Some e), s')" "gusers s' a = Some u"
      using assms(4) by blast
    then show "fst (TestMain Load s) = Inr 1"
      using TestSayHello_run [OF impl, of ?s2] by (simp add: main m_Run_def go_simps)
  next
    obtain s' where "nil_user Background (Some (gfresh s1)) ?s3 = (Inr (None, err), s')" using assms(5) by blast
    moreover assume "impl_SayHello impl = Some nil_user \<or> impl_SayHello impl = None"
    ultimately show "fst (TestMain Load s) = Inl NilDereference"
      by (auto simp: main m_Run_def TestSayHello_def load_User_def go_simps run_simps)
  }
qed

theorem integration_test_outcome_witness:
  "fst (TestMain (\<lambda>_. go_return connected) unit_store) = Inr 0"
proof -
  have c: "impl_SayHello connected = Some (stand_in None)" by (simp add: connected_def)
  have l: "(\<lambda>_. go_return connected) (greeterProvider :: unit GreeterClientImpl)
      (unit_store\<lparr>gevents := gevents unit_store @ [SetConsumerService]\<rparr>) =
      (Inr connected, unit_store\<lparr>gevents := gevents unit_store @ [SetConsumerService]\<rparr>)"
    by (simp add: go_simps)
  have ok: "fresh_ok (unit_store\<lparr>gevents := gevents unit_store @ [SetConsumerService]\<rparr>)"
    by (simp add: unit_store_def fresh_ok_def)
  show ?thesis
    using integration_test_outcome [where Load = "\<lambda>_. go_return connected" and s = unit_store
        and bad = "\<lambda>_ _ t. (Inr (Some 0, Some EOF), t\<lparr>gusers := [0 \<mapsto> zero_User]\<rparr>)" and e = EOF
        and nil_user = "\<lambda>_ _ t. (Inr (None, None), t)" and err = None, OF l ok stand_in_answers(1)]
    by (simp add: c)
qed

end
