(* ===== verification/Wire_Format.thy ===== *)
theory Wire_Format
  imports Go_Monad
begin

text \<open>
  The protobuf wire format and the part of \<open>descriptor.proto\<close> that the example's descriptor uses, as a
  reference: what the bytes in a generated file are meant to say. A message is a list of numbered fields, a
  field is a varint or a run of bytes, and each kind of message is a pair of functions between records and
  field lists. The locale \<open>wire_message\<close> is their contract; decoding what was encoded is proved once in it, for
  one message and for a repeated field of messages, and the descriptors interpret it from the inside out.
\<close>

section \<open>Varints and fields\<close>

fun put_varint :: "nat \<Rightarrow> bytes" where
  "put_varint n =
     (if n < 128 then [of_nat n] else of_nat (n mod 128 + 128) # put_varint (n div 128))"

declare put_varint.simps [simp del]

fun get_varint :: "bytes \<Rightarrow> (nat \<times> bytes) option" where
  "get_varint [] = None"
| "get_varint (b # bs) =
     (if unat b < 128 then Some (unat b, bs)
      else case get_varint bs of None \<Rightarrow> None | Some (n, rest) \<Rightarrow> Some (unat b - 128 + 128 * n, rest))"

datatype wire_value = Varint nat | Bytes bytes

type_synonym wire_field = "nat \<times> wire_value"

fun put_field :: "wire_field \<Rightarrow> bytes" where
  "put_field (n, Varint v) = put_varint (8 * n) @ put_varint v"
| "put_field (n, Bytes b) = put_varint (8 * n + 2) @ put_varint (length b) @ b"

definition put_fields :: "wire_field list \<Rightarrow> bytes" where
  "put_fields fs = concat (map put_field fs)"

text \<open>One field from the front; wire types other than varints and bytes do not occur.\<close>

definition get_field :: "bytes \<Rightarrow> (wire_field \<times> bytes) option" where
  "get_field bs =
     (case get_varint bs of
        None \<Rightarrow> None
      | Some (tag, rest) \<Rightarrow>
          (case get_varint rest of
             None \<Rightarrow> None
           | Some (n, rest') \<Rightarrow>
               if tag mod 8 = 0 then Some ((tag div 8, Varint n), rest')
               else if tag mod 8 = 2 \<and> n \<le> length rest'
                 then Some ((tag div 8, Bytes (take n rest')), drop n rest')
               else None))"

lemma get_varint_shorter: "get_varint bs = Some (n, rest) \<Longrightarrow> length rest < length bs"
  by (induction bs arbitrary: n rest) (fastforce split: if_splits option.splits prod.splits)+

lemma get_field_shorter: "get_field bs = Some (f, rest) \<Longrightarrow> length rest < length bs"
  by (auto simp: get_field_def dest!: get_varint_shorter split: if_splits option.splits prod.splits)

function get_fields :: "bytes \<Rightarrow> wire_field list option" where
  "get_fields bs =
     (if bs = [] then Some []
      else case get_field bs of
             None \<Rightarrow> None
           | Some (f, rest) \<Rightarrow> (case get_fields rest of None \<Rightarrow> None | Some fs \<Rightarrow> Some (f # fs)))"
  by pat_completeness auto

termination get_fields
  by (relation "measure length") (auto dest: get_field_shorter)

declare get_fields.simps [simp del]

text \<open>Decoding what was encoded, followed by anything.\<close>

lemma get_put_varint: "get_varint (put_varint n @ rest) = Some (n, rest)"
proof (induction n rule: put_varint.induct)
  case (1 n)
  have byte: "unat (of_nat k :: 8 word) = k" if "k < 256" for k
    using that by (simp add: unat_of_nat)
  have low: "unat (of_nat (n mod 128 + 128) :: 8 word) = n mod 128 + 128" by (rule byte) simp
  show ?case
  proof (cases "n < 128")
    case True
    then show ?thesis by (subst put_varint.simps) (simp add: byte)
  next
    case False
    with 1 low show ?thesis by (subst put_varint.simps) (simp del: of_nat_add)
  qed
qed

lemma get_put_field: "get_field (put_field f @ rest) = Some (f, rest)"
proof (cases f rule: put_field.cases)
  case (1 n v)
  then show ?thesis by (simp add: get_field_def get_put_varint)
next
  case (2 n b)
  have "(8 * n + 2) div 8 = n" "(8 * n + 2) mod 8 = 2" by presburger+
  with 2 show ?thesis by (simp add: get_field_def get_put_varint)
qed

lemma put_field_ne: "put_field f \<noteq> []"
  by (cases f rule: put_field.cases) (simp_all add: put_varint.simps)

lemma get_put_fields: "get_fields (put_fields fs) = Some fs"
proof (induction fs)
  case Nil
  then show ?case by (simp add: put_fields_def get_fields.simps)
next
  case (Cons f fs)
  then show ?case
    by (simp add: put_fields_def get_fields.simps [of "put_field f @ _"] put_field_ne get_put_field)
qed

section \<open>Reading a message\<close>

definition put_text :: "string \<Rightarrow> bytes" where
  "put_text s = map (\<lambda>c. of_nat (of_char c)) s"

definition get_text :: "bytes \<Rightarrow> string" where
  "get_text bs = map (\<lambda>b. char_of (unat b)) bs"

fun bytes_at :: "nat \<Rightarrow> wire_field list \<Rightarrow> bytes list" where
  "bytes_at n [] = []"
| "bytes_at n ((m, Bytes b) # fs) = (if m = n then b # bytes_at n fs else bytes_at n fs)"
| "bytes_at n ((m, Varint v) # fs) = bytes_at n fs"

fun varints_at :: "nat \<Rightarrow> wire_field list \<Rightarrow> nat list" where
  "varints_at n [] = []"
| "varints_at n ((m, Bytes b) # fs) = varints_at n fs"
| "varints_at n ((m, Varint v) # fs) = (if m = n then v # varints_at n fs else varints_at n fs)"

text \<open>Of a field that is not repeated the last occurrence counts.\<close>

definition last_of :: "'a list \<Rightarrow> 'a option" where
  "last_of xs = (if xs = [] then None else Some (last xs))"

definition text_at :: "nat \<Rightarrow> wire_field list \<Rightarrow> string option" where
  "text_at n fs = map_option get_text (last_of (bytes_at n fs))"

definition number_at :: "nat \<Rightarrow> wire_field list \<Rightarrow> nat option" where
  "number_at n fs = last_of (varints_at n fs)"

definition flag_at :: "nat \<Rightarrow> wire_field list \<Rightarrow> bool" where
  "flag_at n fs = (case number_at n fs of None \<Rightarrow> False | Some v \<Rightarrow> v \<noteq> 0)"

definition put_message :: "('a \<Rightarrow> wire_field list) \<Rightarrow> 'a \<Rightarrow> bytes" where
  "put_message enc x = put_fields (enc x)"

definition get_message :: "(wire_field list \<Rightarrow> 'a option) \<Rightarrow> bytes \<Rightarrow> 'a option" where
  "get_message dec bs = Option.bind (get_fields bs) dec"

text \<open>A flag is written only when it is set.\<close>

definition put_flag :: "nat \<Rightarrow> bool \<Rightarrow> wire_field list" where
  "put_flag n b = (if b then [(n, Varint 1)] else [])"

named_theorems wire_simps \<open>reading fields that were just written\<close>

lemma get_put_text [wire_simps]: "get_text (put_text s) = s"
proof -
  have "unat (of_nat (of_char c :: nat) :: 8 word) = of_char c" for c
    by (simp add: unat_of_nat)
  then show ?thesis by (simp add: get_text_def put_text_def comp_def)
qed

lemma at_append [wire_simps]:
  "bytes_at n (fs @ gs) = bytes_at n fs @ bytes_at n gs"
  "varints_at n (fs @ gs) = varints_at n fs @ varints_at n gs"
  by (induction n fs rule: bytes_at.induct) auto

lemma at_repeated [wire_simps]:
  "bytes_at n (map (\<lambda>x. (m, Bytes (f x))) xs) = (if m = n then map f xs else [])"
  "varints_at n (map (\<lambda>x. (m, Bytes (f x))) xs) = []"
  by (induction xs) auto

lemma at_flag [wire_simps]:
  "bytes_at n (put_flag m b) = []"
  "varints_at n (put_flag m b) = (if m = n \<and> b then [1] else [])"
  by (simp_all add: put_flag_def)

lemmas wire_reads = text_at_def number_at_def flag_at_def last_of_def

locale wire_message =
  fixes enc :: "'a \<Rightarrow> wire_field list" and dec :: "wire_field list \<Rightarrow> 'a option"
  assumes dec_enc: "dec (enc x) = Some x"
begin

lemma get_put: "get_message dec (put_message enc x) = Some x"
  by (simp add: get_message_def put_message_def get_put_fields dec_enc)

lemma get_put_all: "those (map (get_message dec) (map (put_message enc) xs)) = Some xs"
  by (induction xs) (simp_all add: get_put)

text \<open>Two messages with the same bytes are the same message.\<close>

lemma put_inj: "put_message enc x = put_message enc y \<Longrightarrow> x = y"
  by (metis get_put option.inject)

end

section \<open>Descriptors\<close>

record field_desc =
  fd_name :: string
  fd_number :: nat
  fd_label :: nat
  fd_type :: nat
  fd_json_name :: string

definition put_field_desc :: "field_desc \<Rightarrow> wire_field list" where
  "put_field_desc f =
     [(1, Bytes (put_text (fd_name f))), (3, Varint (fd_number f)), (4, Varint (fd_label f)),
      (5, Varint (fd_type f)), (10, Bytes (put_text (fd_json_name f)))]"

definition get_field_desc :: "wire_field list \<Rightarrow> field_desc option" where
  "get_field_desc fs =
     Option.bind (text_at 1 fs) (\<lambda>name. Option.bind (number_at 3 fs) (\<lambda>num.
     Option.bind (number_at 4 fs) (\<lambda>label. Option.bind (number_at 5 fs) (\<lambda>ty.
     Option.bind (text_at 10 fs) (\<lambda>json. Some
       \<lparr> fd_name = name, fd_number = num, fd_label = label, fd_type = ty, fd_json_name = json \<rparr>)))))"

interpretation field_desc: wire_message put_field_desc get_field_desc
  by unfold_locales (simp add: put_field_desc_def get_field_desc_def wire_reads wire_simps)

record message_desc =
  md_name :: string
  md_fields :: "field_desc list"

definition put_message_desc :: "message_desc \<Rightarrow> wire_field list" where
  "put_message_desc m =
     (1, Bytes (put_text (md_name m))) # map (\<lambda>f. (2, Bytes (put_message put_field_desc f))) (md_fields m)"

definition get_message_desc :: "wire_field list \<Rightarrow> message_desc option" where
  "get_message_desc fs =
     Option.bind (text_at 1 fs) (\<lambda>name.
     Option.bind (those (map (get_message get_field_desc) (bytes_at 2 fs))) (\<lambda>fields. Some
       \<lparr> md_name = name, md_fields = fields \<rparr>))"

interpretation message_desc: wire_message put_message_desc get_message_desc
  by unfold_locales
    (simp add: put_message_desc_def get_message_desc_def wire_reads wire_simps field_desc.get_put_all del: map_map)

text \<open>The options of a method are an empty message, which \<open>{}\<close> after an rpc produces.\<close>

record method_desc =
  mtd_name :: string
  mtd_input :: string
  mtd_output :: string
  mtd_client_streaming :: bool
  mtd_server_streaming :: bool

definition put_method_desc :: "method_desc \<Rightarrow> wire_field list" where
  "put_method_desc m =
     [(1, Bytes (put_text (mtd_name m))), (2, Bytes (put_text (mtd_input m))),
      (3, Bytes (put_text (mtd_output m))), (4, Bytes [])] @
     put_flag 5 (mtd_client_streaming m) @ put_flag 6 (mtd_server_streaming m)"

definition get_method_desc :: "wire_field list \<Rightarrow> method_desc option" where
  "get_method_desc fs =
     Option.bind (text_at 1 fs) (\<lambda>name. Option.bind (text_at 2 fs) (\<lambda>inp. Option.bind (text_at 3 fs) (\<lambda>out. Some
       \<lparr> mtd_name = name, mtd_input = inp, mtd_output = out,
         mtd_client_streaming = flag_at 5 fs, mtd_server_streaming = flag_at 6 fs \<rparr>)))"

interpretation method_desc: wire_message put_method_desc get_method_desc
  by unfold_locales (simp add: put_method_desc_def get_method_desc_def wire_reads wire_simps)

record service_desc =
  sd_name :: string
  sd_methods :: "method_desc list"

definition put_service_desc :: "service_desc \<Rightarrow> wire_field list" where
  "put_service_desc s =
     (1, Bytes (put_text (sd_name s))) # map (\<lambda>m. (2, Bytes (put_message put_method_desc m))) (sd_methods s)"

definition get_service_desc :: "wire_field list \<Rightarrow> service_desc option" where
  "get_service_desc fs =
     Option.bind (text_at 1 fs) (\<lambda>name.
     Option.bind (those (map (get_message get_method_desc) (bytes_at 2 fs))) (\<lambda>ms. Some
       \<lparr> sd_name = name, sd_methods = ms \<rparr>))"

interpretation service_desc: wire_message put_service_desc get_service_desc
  by unfold_locales
    (simp add: put_service_desc_def get_service_desc_def wire_reads wire_simps method_desc.get_put_all del: map_map)

record file_options =
  java_package :: string
  java_outer_classname :: string
  java_multiple_files :: bool
  go_package :: string
  objc_class_prefix :: string

definition put_file_options :: "file_options \<Rightarrow> wire_field list" where
  "put_file_options p =
     [(1, Bytes (put_text (java_package p))), (8, Bytes (put_text (java_outer_classname p)))] @
     put_flag 10 (java_multiple_files p) @
     [(11, Bytes (put_text (go_package p))), (36, Bytes (put_text (objc_class_prefix p)))]"

definition get_file_options :: "wire_field list \<Rightarrow> file_options option" where
  "get_file_options fs =
     Option.bind (text_at 1 fs) (\<lambda>jp. Option.bind (text_at 8 fs) (\<lambda>jc.
     Option.bind (text_at 11 fs) (\<lambda>gp. Option.bind (text_at 36 fs) (\<lambda>oc. Some
       \<lparr> java_package = jp, java_outer_classname = jc, java_multiple_files = flag_at 10 fs,
         go_package = gp, objc_class_prefix = oc \<rparr>))))"

interpretation file_options: wire_message put_file_options get_file_options
  by unfold_locales (simp add: put_file_options_def get_file_options_def wire_reads wire_simps)

record file_desc =
  file_name :: string
  file_package :: string
  file_messages :: "message_desc list"
  file_services :: "service_desc list"
  file_opts :: file_options
  file_syntax :: string

definition put_file_desc :: "file_desc \<Rightarrow> wire_field list" where
  "put_file_desc f =
     [(1, Bytes (put_text (file_name f))), (2, Bytes (put_text (file_package f)))] @
     map (\<lambda>m. (4, Bytes (put_message put_message_desc m))) (file_messages f) @
     map (\<lambda>s. (6, Bytes (put_message put_service_desc s))) (file_services f) @
     [(8, Bytes (put_message put_file_options (file_opts f))), (12, Bytes (put_text (file_syntax f)))]"

definition get_file_desc :: "wire_field list \<Rightarrow> file_desc option" where
  "get_file_desc fs =
     Option.bind (text_at 1 fs) (\<lambda>name. Option.bind (text_at 2 fs) (\<lambda>package.
     Option.bind (those (map (get_message get_message_desc) (bytes_at 4 fs))) (\<lambda>ms.
     Option.bind (those (map (get_message get_service_desc) (bytes_at 6 fs))) (\<lambda>ss.
     Option.bind (Option.bind (last_of (bytes_at 8 fs)) (get_message get_file_options)) (\<lambda>opts.
     Option.bind (text_at 12 fs) (\<lambda>stx. Some
       \<lparr> file_name = name, file_package = package, file_messages = ms, file_services = ss,
         file_opts = opts, file_syntax = stx \<rparr>))))))"

interpretation file_desc: wire_message put_file_desc get_file_desc
  by unfold_locales
    (simp add: put_file_desc_def get_file_desc_def wire_reads wire_simps message_desc.get_put_all
      service_desc.get_put_all file_options.get_put del: map_map)

end
