(* ===== verification/Messages.thy ===== *)
theory Messages
  imports Greeter Wire_Format Schedules
begin

text \<open>
  The generated message types of the example, \<open>src/example/dubbo/proto/helloworld.pb.go\<close>, and the file they
  were generated from, \<open>helloworld.proto\<close>.

  A message struct extends the record of its exported fields (\<open>Greeter\<close>) by the three fields of the protobuf
  runtime. The package's variables and the objects behind message pointers are a state of their own, \<open>pbstate\<close>.
  The runtime itself (\<open>protoimpl\<close>) is outside the repository and is the argument \<open>pb_env\<close>: whether unsafe
  pointers are enabled, how a message state stores its type, compression, printing, and the type builder.
  \<open>sync.Once\<close> runs its function at most once, and a concurrent call waits for it.
\<close>

section \<open>The file the messages are generated from\<close>

datatype proto_type = ProtoString | ProtoInt32

record proto_field =
  pf_type :: proto_type
  pf_name :: string
  pf_number :: nat

record proto_message =
  pm_name :: string
  pm_fields :: "proto_field list"

record proto_rpc =
  rpc_name :: string
  rpc_in_stream :: bool
  rpc_in :: string
  rpc_out_stream :: bool
  rpc_out :: string

record proto_file =
  pfile_syntax :: string
  pfile_options :: file_options
  pfile_package :: string
  pfile_services :: "(string \<times> proto_rpc list) list"
  pfile_messages :: "proto_message list"

definition helloworld_proto :: proto_file where
  "helloworld_proto =
     \<lparr> pfile_syntax = ''proto3'',
       pfile_options =
         \<lparr> java_package = ''org.apache.dubbo'', java_outer_classname = ''HelloWorldProto'',
           java_multiple_files = True, go_package = ''./;proto'', objc_class_prefix = ''DEMOSRV'' \<rparr>,
       pfile_package = ''main'',
       pfile_services = [(''Greeter'',
         [\<lparr> rpc_name = ''SayHelloStream'', rpc_in_stream = True, rpc_in = ''HelloRequest'',
            rpc_out_stream = True, rpc_out = ''User'' \<rparr>,
          \<lparr> rpc_name = ''SayHello'', rpc_in_stream = False, rpc_in = ''HelloRequest'',
            rpc_out_stream = False, rpc_out = ''User'' \<rparr>,
          \<lparr> rpc_name = ''SayHelloWithError'', rpc_in_stream = False, rpc_in = ''HelloRequest'',
            rpc_out_stream = False, rpc_out = ''User'' \<rparr>])],
       pfile_messages =
         [\<lparr> pm_name = ''HelloRequest'',
            pm_fields = [\<lparr> pf_type = ProtoString, pf_name = ''name'', pf_number = 1 \<rparr>] \<rparr>,
          \<lparr> pm_name = ''User'',
            pm_fields = [\<lparr> pf_type = ProtoString, pf_name = ''name'', pf_number = 1 \<rparr>,
              \<lparr> pf_type = ProtoString, pf_name = ''id'', pf_number = 2 \<rparr>,
              \<lparr> pf_type = ProtoInt32, pf_name = ''age'', pf_number = 3 \<rparr>] \<rparr>] \<rparr>"

text \<open>The descriptor that a file stands for: types by their numbers in \<open>descriptor.proto\<close>, every field
  optional, JSON names in lower camel case, type names fully qualified.\<close>

fun type_number :: "proto_type \<Rightarrow> nat" where
  "type_number ProtoString = 9"
| "type_number ProtoInt32 = 5"

definition upper_char :: "char \<Rightarrow> char" where
  "upper_char c = (let n = of_char c :: nat in if 97 \<le> n \<and> n \<le> 122 then char_of (n - 32) else c)"

fun lower_camel :: "string \<Rightarrow> string" where
  "lower_camel [] = []"
| "lower_camel [c] = (if c = CHR ''_'' then [] else [c])"
| "lower_camel (c # d # cs) =
     (if c = CHR ''_'' then lower_camel (upper_char d # cs) else c # lower_camel (d # cs))"

definition full_name :: "proto_file \<Rightarrow> string \<Rightarrow> string" where
  "full_name p n = ''.'' @ pfile_package p @ ''.'' @ n"

definition field_descriptor :: "proto_field \<Rightarrow> field_desc" where
  "field_descriptor f =
     \<lparr> fd_name = pf_name f, fd_number = pf_number f, fd_label = 1, fd_type = type_number (pf_type f),
       fd_json_name = lower_camel (pf_name f) \<rparr>"

definition rpc_descriptor :: "proto_file \<Rightarrow> proto_rpc \<Rightarrow> method_desc" where
  "rpc_descriptor p r =
     \<lparr> mtd_name = rpc_name r, mtd_input = full_name p (rpc_in r), mtd_output = full_name p (rpc_out r),
       mtd_client_streaming = rpc_in_stream r, mtd_server_streaming = rpc_out_stream r \<rparr>"

definition file_descriptor :: "string \<Rightarrow> proto_file \<Rightarrow> file_desc" where
  "file_descriptor name p =
     \<lparr> file_name = name, file_package = pfile_package p,
       file_messages = map (\<lambda>m. \<lparr> md_name = pm_name m, md_fields = map field_descriptor (pm_fields m) \<rparr>)
         (pfile_messages p),
       file_services = map (\<lambda>(n, rpcs). \<lparr> sd_name = n, sd_methods = map (rpc_descriptor p) rpcs \<rparr>)
         (pfile_services p),
       file_opts = pfile_options p, file_syntax = pfile_syntax p \<rparr>"

section \<open>Message structs and package variables\<close>

record 'st HelloRequest_struct = HelloRequest +
  req_state :: 'st
  req_sizeCache :: i32
  req_unknownFields :: bytes

record 'st User_struct = User +
  user_state :: 'st
  user_sizeCache :: i32
  user_unknownFields :: bytes

text \<open>Interface values that the runtime is given: pointers to the two messages, which may be nil, and the
  addresses of their runtime fields.\<close>

datatype pbval = ReqPtr "nat option" | UserPtr "nat option" | OtherVal nat

datatype hidden_field = StateField | SizeCacheField | UnknownFieldsField

type_synonym exporter = "pbval \<Rightarrow> int \<Rightarrow> panic + (nat \<times> hidden_field) option"

record 'lib MessageInfo =
  Exporter :: "exporter option"
  info_rest :: 'lib

record 'lib TypeBuilder =
  GoPackagePath :: string
  RawDescriptor :: "bytes option"
  NumEnums :: nat
  NumMessages :: nat
  NumExtensions :: nat
  NumServices :: nat
  GoTypes :: "pbval list option"
  DependencyIndexes :: "i32 list option"
  MessageInfos :: "'lib MessageInfo list"

record ('st, 'fd, 'lib) pbstate =
  pb_reqs :: "nat \<Rightarrow> 'st HelloRequest_struct option"
  pb_users :: "nat \<Rightarrow> 'st User_struct option"
  File_helloworld_proto :: "'fd option"
  var_rawDesc :: "bytes option"
  var_rawDescOnce :: bool
  var_rawDescData :: bytes
  var_msgTypes :: "'lib MessageInfo list"
  var_goTypes :: "pbval list option"
  var_depIdxs :: "i32 list option"
  gzips :: "bytes list"
  builds :: "'lib TypeBuilder list"

text \<open>What the runtime does. \<open>Build\<close> fills the message infos it is given and may panic.\<close>

record ('st, 'fd, 'lib) pb_env =
  UnsafeEnabled :: bool
  zero_state :: 'st
  LoadMessageInfo :: "'st \<Rightarrow> nat option"
  StoreMessageInfo :: "nat \<Rightarrow> 'st \<Rightarrow> 'st"
  CompressGZIP :: "bytes \<Rightarrow> bytes"
  MessageStringOf :: "pbval \<Rightarrow> (('st, 'fd, 'lib) pbstate, string) go"
  zero_info :: 'lib
  PkgPath :: string
  Build :: "'lib TypeBuilder \<Rightarrow> (panic + 'fd option) \<times> 'lib MessageInfo list"

definition file_helloworld_proto_rawDesc :: bytes where
  "file_helloworld_proto_rawDesc = [
     0x0a, 0x10, 0x68, 0x65, 0x6c, 0x6c, 0x6f, 0x77, 0x6f, 0x72, 0x6c, 0x64, 0x2e, 0x70, 0x72, 0x6f,
     0x74, 0x6f, 0x12, 0x04, 0x6d, 0x61, 0x69, 0x6e, 0x22, 0x22, 0x0a, 0x0c, 0x48, 0x65, 0x6c, 0x6c,
     0x6f, 0x52, 0x65, 0x71, 0x75, 0x65, 0x73, 0x74, 0x12, 0x12, 0x0a, 0x04, 0x6e, 0x61, 0x6d, 0x65,
     0x18, 0x01, 0x20, 0x01, 0x28, 0x09, 0x52, 0x04, 0x6e, 0x61, 0x6d, 0x65, 0x22, 0x3c, 0x0a, 0x04,
     0x55, 0x73, 0x65, 0x72, 0x12, 0x12, 0x0a, 0x04, 0x6e, 0x61, 0x6d, 0x65, 0x18, 0x01, 0x20, 0x01,
     0x28, 0x09, 0x52, 0x04, 0x6e, 0x61, 0x6d, 0x65, 0x12, 0x0e, 0x0a, 0x02, 0x69, 0x64, 0x18, 0x02,
     0x20, 0x01, 0x28, 0x09, 0x52, 0x02, 0x69, 0x64, 0x12, 0x10, 0x0a, 0x03, 0x61, 0x67, 0x65, 0x18,
     0x03, 0x20, 0x01, 0x28, 0x05, 0x52, 0x03, 0x61, 0x67, 0x65, 0x32, 0xa6, 0x01, 0x0a, 0x07, 0x47,
     0x72, 0x65, 0x65, 0x74, 0x65, 0x72, 0x12, 0x36, 0x0a, 0x0e, 0x53, 0x61, 0x79, 0x48, 0x65, 0x6c,
     0x6c, 0x6f, 0x53, 0x74, 0x72, 0x65, 0x61, 0x6d, 0x12, 0x12, 0x2e, 0x6d, 0x61, 0x69, 0x6e, 0x2e,
     0x48, 0x65, 0x6c, 0x6c, 0x6f, 0x52, 0x65, 0x71, 0x75, 0x65, 0x73, 0x74, 0x1a, 0x0a, 0x2e, 0x6d,
     0x61, 0x69, 0x6e, 0x2e, 0x55, 0x73, 0x65, 0x72, 0x22, 0x00, 0x28, 0x01, 0x30, 0x01, 0x12, 0x2c,
     0x0a, 0x08, 0x53, 0x61, 0x79, 0x48, 0x65, 0x6c, 0x6c, 0x6f, 0x12, 0x12, 0x2e, 0x6d, 0x61, 0x69,
     0x6e, 0x2e, 0x48, 0x65, 0x6c, 0x6c, 0x6f, 0x52, 0x65, 0x71, 0x75, 0x65, 0x73, 0x74, 0x1a, 0x0a,
     0x2e, 0x6d, 0x61, 0x69, 0x6e, 0x2e, 0x55, 0x73, 0x65, 0x72, 0x22, 0x00, 0x12, 0x35, 0x0a, 0x11,
     0x53, 0x61, 0x79, 0x48, 0x65, 0x6c, 0x6c, 0x6f, 0x57, 0x69, 0x74, 0x68, 0x45, 0x72, 0x72, 0x6f,
     0x72, 0x12, 0x12, 0x2e, 0x6d, 0x61, 0x69, 0x6e, 0x2e, 0x48, 0x65, 0x6c, 0x6c, 0x6f, 0x52, 0x65,
     0x71, 0x75, 0x65, 0x73, 0x74, 0x1a, 0x0a, 0x2e, 0x6d, 0x61, 0x69, 0x6e, 0x2e, 0x55, 0x73, 0x65,
     0x72, 0x22, 0x00, 0x42, 0x39, 0x0a, 0x10, 0x6f, 0x72, 0x67, 0x2e, 0x61, 0x70, 0x61, 0x63, 0x68,
     0x65, 0x2e, 0x64, 0x75, 0x62, 0x62, 0x6f, 0x42, 0x0f, 0x48, 0x65, 0x6c, 0x6c, 0x6f, 0x57, 0x6f,
     0x72, 0x6c, 0x64, 0x50, 0x72, 0x6f, 0x74, 0x6f, 0x50, 0x01, 0x5a, 0x08, 0x2e, 0x2f, 0x3b, 0x70,
     0x72, 0x6f, 0x74, 0x6f, 0xa2, 0x02, 0x07, 0x44, 0x45, 0x4d, 0x4f, 0x53, 0x52, 0x56, 0x62, 0x06,
     0x70, 0x72, 0x6f, 0x74, 0x6f, 0x33]"

definition file_helloworld_proto_goTypes :: "pbval list" where
  "file_helloworld_proto_goTypes = [ReqPtr None, UserPtr None]"

definition file_helloworld_proto_depIdxs :: "i32 list" where
  "file_helloworld_proto_depIdxs = [0, 0, 0, 1, 1, 1, 3, 0, 0, 0, 0]"

text \<open>The variables before any \<open>init\<close> has run.\<close>

definition fresh_pbstate :: "('st, 'fd, 'lib) pb_env \<Rightarrow> ('st, 'fd, 'lib) pbstate" where
  "fresh_pbstate env =
     \<lparr> pb_reqs = Map.empty, pb_users = Map.empty, File_helloworld_proto = None,
       var_rawDesc = Some file_helloworld_proto_rawDesc, var_rawDescOnce = False,
       var_rawDescData = file_helloworld_proto_rawDesc,
       var_msgTypes = replicate 2 \<lparr> Exporter = None, info_rest = zero_info env \<rparr>,
       var_goTypes = Some file_helloworld_proto_goTypes, var_depIdxs = Some file_helloworld_proto_depIdxs,
       gzips = [], builds = [] \<rparr>"

section \<open>The generated methods\<close>

definition HelloRequest_GetName :: "'st HelloRequest_struct option \<Rightarrow> string" where
  "HelloRequest_GetName x = (case x of Some r \<Rightarrow> hello_Name r | None \<Rightarrow> '''')"

definition User_GetName :: "'st User_struct option \<Rightarrow> string" where
  "User_GetName x = (case x of Some u \<Rightarrow> user_Name u | None \<Rightarrow> '''')"

definition User_GetId :: "'st User_struct option \<Rightarrow> string" where
  "User_GetId x = (case x of Some u \<Rightarrow> user_Id u | None \<Rightarrow> '''')"

definition User_GetAge :: "'st User_struct option \<Rightarrow> i32" where
  "User_GetAge x = (case x of Some u \<Rightarrow> user_Age u | None \<Rightarrow> 0)"

definition zero_HelloRequest_struct :: "('st, 'fd, 'lib) pb_env \<Rightarrow> 'st HelloRequest_struct" where
  "zero_HelloRequest_struct env = HelloRequest.extend zero_HelloRequest
     (HelloRequest_struct.fields (zero_state env) 0 [])"

definition zero_User_struct :: "('st, 'fd, 'lib) pb_env \<Rightarrow> 'st User_struct" where
  "zero_User_struct env = User.extend zero_User (User_struct.fields (zero_state env) 0 [])"

text \<open>Writes and reads of a whole struct through a pointer.\<close>

definition set_req :: "nat option \<Rightarrow> 'st HelloRequest_struct \<Rightarrow> (('st, 'fd, 'lib) pbstate, unit) go" where
  "set_req x r = go_bind (go_deref x) (\<lambda>a. go_modify (\<lambda>s. s\<lparr>pb_reqs := (pb_reqs s)(a \<mapsto> r)\<rparr>))"

definition get_req :: "nat option \<Rightarrow> (('st, 'fd, 'lib) pbstate, 'st HelloRequest_struct) go" where
  "get_req x = go_bind (go_deref x) (\<lambda>a. go_bind (go_gets (\<lambda>s. pb_reqs s a)) go_deref)"

definition set_user :: "nat option \<Rightarrow> 'st User_struct \<Rightarrow> (('st, 'fd, 'lib) pbstate, unit) go" where
  "set_user x u = go_bind (go_deref x) (\<lambda>a. go_modify (\<lambda>s. s\<lparr>pb_users := (pb_users s)(a \<mapsto> u)\<rparr>))"

definition get_user :: "nat option \<Rightarrow> (('st, 'fd, 'lib) pbstate, 'st User_struct) go" where
  "get_user x = go_bind (go_deref x) (\<lambda>a. go_bind (go_gets (\<lambda>s. pb_users s a)) go_deref)"

definition HelloRequest_Reset ::
    "('st, 'fd, 'lib) pb_env \<Rightarrow> nat option \<Rightarrow> (('st, 'fd, 'lib) pbstate, unit) go" where
  "HelloRequest_Reset env x =
     go_then (set_req x (zero_HelloRequest_struct env))
     (if UnsafeEnabled env
      then go_bind (get_req x) (\<lambda>r. set_req x (r\<lparr>req_state := StoreMessageInfo env 0 (req_state r)\<rparr>))
      else go_return ())"

definition User_Reset ::
    "('st, 'fd, 'lib) pb_env \<Rightarrow> nat option \<Rightarrow> (('st, 'fd, 'lib) pbstate, unit) go" where
  "User_Reset env x =
     go_then (set_user x (zero_User_struct env))
     (if UnsafeEnabled env
      then go_bind (get_user x) (\<lambda>u. set_user x (u\<lparr>user_state := StoreMessageInfo env 1 (user_state u)\<rparr>))
      else go_return ())"

definition HelloRequest_String ::
    "('st, 'fd, 'lib) pb_env \<Rightarrow> nat option \<Rightarrow> (('st, 'fd, 'lib) pbstate, string) go" where
  "HelloRequest_String env x = MessageStringOf env (ReqPtr x)"

definition User_String ::
    "('st, 'fd, 'lib) pb_env \<Rightarrow> nat option \<Rightarrow> (('st, 'fd, 'lib) pbstate, string) go" where
  "User_String env x = MessageStringOf env (UserPtr x)"

text \<open>The reflective view of a message: its own message state, or one made by the message info.\<close>

datatype reflected = StateOf pbval | MessageOf nat pbval

definition HelloRequest_ProtoReflect ::
    "('st, 'fd, 'lib) pb_env \<Rightarrow> nat option \<Rightarrow> (('st, 'fd, 'lib) pbstate, reflected) go" where
  "HelloRequest_ProtoReflect env x =
     (if UnsafeEnabled env \<and> x \<noteq> None
      then go_bind (get_req x) (\<lambda>r.
        go_then
          (if LoadMessageInfo env (req_state r) = None
           then set_req x (r\<lparr>req_state := StoreMessageInfo env 0 (req_state r)\<rparr>) else go_return ())
          (go_return (StateOf (ReqPtr x))))
      else go_return (MessageOf 0 (ReqPtr x)))"

definition User_ProtoReflect ::
    "('st, 'fd, 'lib) pb_env \<Rightarrow> nat option \<Rightarrow> (('st, 'fd, 'lib) pbstate, reflected) go" where
  "User_ProtoReflect env x =
     (if UnsafeEnabled env \<and> x \<noteq> None
      then go_bind (get_user x) (\<lambda>u.
        go_then
          (if LoadMessageInfo env (user_state u) = None
           then set_user x (u\<lparr>user_state := StoreMessageInfo env 1 (user_state u)\<rparr>) else go_return ())
          (go_return (StateOf (UserPtr x))))
      else go_return (MessageOf 1 (UserPtr x)))"

definition file_helloworld_proto_rawDescGZIP ::
    "('st, 'fd, 'lib) pb_env \<Rightarrow> (('st, 'fd, 'lib) pbstate, bytes) go" where
  "file_helloworld_proto_rawDescGZIP env =
     go_bind (go_gets var_rawDescOnce) (\<lambda>already.
     go_then
       (go_when (\<not> already) (go_modify (\<lambda>s.
          s\<lparr>gzips := gzips s @ [var_rawDescData s], var_rawDescData := CompressGZIP env (var_rawDescData s),
            var_rawDescOnce := True\<rparr>)))
       (go_gets var_rawDescData))"

definition HelloRequest_Descriptor ::
    "('st, 'fd, 'lib) pb_env \<Rightarrow> (('st, 'fd, 'lib) pbstate, bytes \<times> int list) go" where
  "HelloRequest_Descriptor env = go_bind (file_helloworld_proto_rawDescGZIP env) (\<lambda>d. go_return (d, [0]))"

definition User_Descriptor ::
    "('st, 'fd, 'lib) pb_env \<Rightarrow> (('st, 'fd, 'lib) pbstate, bytes \<times> int list) go" where
  "User_Descriptor env = go_bind (file_helloworld_proto_rawDescGZIP env) (\<lambda>d. go_return (d, [1]))"

text \<open>The exporters that \<open>init\<close> installs when unsafe pointers are disabled. The address of a field of a nil
  message cannot be taken.\<close>

definition hidden_at :: "nat option \<Rightarrow> int \<Rightarrow> panic + (nat \<times> hidden_field) option" where
  "hidden_at p i =
     (case (if i = 0 then Some StateField else if i = 1 then Some SizeCacheField
            else if i = 2 then Some UnknownFieldsField else None) of
        None \<Rightarrow> Inr None
      | Some f \<Rightarrow> (case p of None \<Rightarrow> Inl NilDereference | Some a \<Rightarrow> Inr (Some (a, f))))"

fun HelloRequest_exporter :: exporter where
  "HelloRequest_exporter (ReqPtr p) i = hidden_at p i"
| "HelloRequest_exporter v i = Inl BadTypeAssertion"

fun User_exporter :: exporter where
  "User_exporter (UserPtr p) i = hidden_at p i"
| "User_exporter v i = Inl BadTypeAssertion"

definition install_exporters :: "'lib MessageInfo list \<Rightarrow> 'lib MessageInfo list" where
  "install_exporters infos =
     (let infos0 = infos[0 := (infos ! 0)\<lparr>Exporter := Some HelloRequest_exporter\<rparr>]
      in infos0[1 := (infos0 ! 1)\<lparr>Exporter := Some User_exporter\<rparr>])"

definition helloworld_builder :: "('st, 'fd, 'lib) pb_env \<Rightarrow> ('st, 'fd, 'lib) pbstate \<Rightarrow> 'lib TypeBuilder" where
  "helloworld_builder env s =
     \<lparr> GoPackagePath = PkgPath env, RawDescriptor = var_rawDesc s, NumEnums = 0, NumMessages = 2,
       NumExtensions = 0, NumServices = 1, GoTypes = var_goTypes s, DependencyIndexes = var_depIdxs s,
       MessageInfos = var_msgTypes s \<rparr>"

definition file_helloworld_proto_init ::
    "('st, 'fd, 'lib) pb_env \<Rightarrow> (('st, 'fd, 'lib) pbstate, unit) go" where
  "file_helloworld_proto_init env =
     go_bind (go_gets File_helloworld_proto) (\<lambda>file.
       if file \<noteq> None then go_return ()
       else
         go_then (go_when (\<not> UnsafeEnabled env)
           (go_modify (\<lambda>s. s\<lparr>var_msgTypes := install_exporters (var_msgTypes s)\<rparr>)))
        (go_bind (go_gets (helloworld_builder env)) (\<lambda>b.
         go_then (go_modify (\<lambda>s. s\<lparr>builds := builds s @ [b], var_msgTypes := snd (Build env b)\<rparr>))
        (go_bind (go_lift (fst (Build env b))) (\<lambda>out.
         go_modify (\<lambda>s. s\<lparr>File_helloworld_proto := out, var_rawDesc := None, var_goTypes := None,
           var_depIdxs := None\<rparr>))))))"

text \<open>The same function called by several goroutines: a caller enters \<open>Do\<close>, runs the closure if it is the
  first, waits while another one (\<open>Running g\<close>) runs it, and reads the variable afterwards.\<close>

datatype once_state = Fresh | Running nat | Done

datatype gz_pc = Enter | Body | Leave | Read | Got bytes

record gz_world =
  once :: once_state
  gz_data :: bytes
  gz_calls :: "bytes list"
  gz_pcs :: "gz_pc list"

definition goto_gz :: "nat \<Rightarrow> gz_pc \<Rightarrow> gz_world \<Rightarrow> gz_world" where
  "goto_gz g pc w = w\<lparr>gz_pcs := (gz_pcs w)[g := pc]\<rparr>"

definition gz_step :: "(bytes \<Rightarrow> bytes) \<Rightarrow> nat \<Rightarrow> gz_world \<Rightarrow> gz_world option" where
  "gz_step compress g w =
     (if g < length (gz_pcs w) then
        (case gz_pcs w ! g of
           Enter \<Rightarrow>
             (case once w of
                Fresh \<Rightarrow> Some (goto_gz g Body (w\<lparr>once := Running g\<rparr>))
              | Running _ \<Rightarrow> None
              | Done \<Rightarrow> Some (goto_gz g Read w))
         | Body \<Rightarrow> Some (goto_gz g Leave
             (w\<lparr>gz_data := compress (gz_data w), gz_calls := gz_calls w @ [gz_data w]\<rparr>))
         | Leave \<Rightarrow> Some (goto_gz g Read (w\<lparr>once := Done\<rparr>))
         | Read \<Rightarrow> Some (goto_gz g (Got (gz_data w)) w)
         | Got _ \<Rightarrow> None)
      else None)"

definition gz_start :: "bytes \<Rightarrow> nat \<Rightarrow> gz_world" where
  "gz_start raw n = \<lparr> once = Fresh, gz_data = raw, gz_calls = [], gz_pcs = replicate n Enter \<rparr>"

section \<open>Facts: compressing once\<close>

text \<open>What a goroutine may rely on at each point.\<close>

fun gz_ok :: "(bytes \<Rightarrow> bytes) \<Rightarrow> bytes \<Rightarrow> gz_world \<Rightarrow> nat \<Rightarrow> gz_pc \<Rightarrow> bool" where
  "gz_ok compress raw w i Enter \<longleftrightarrow> True"
| "gz_ok compress raw w i Body \<longleftrightarrow> once w = Running i \<and> gz_data w = raw \<and> gz_calls w = []"
| "gz_ok compress raw w i Leave \<longleftrightarrow> once w = Running i \<and> gz_data w = compress raw \<and> gz_calls w = [raw]"
| "gz_ok compress raw w i Read \<longleftrightarrow> once w = Done"
| "gz_ok compress raw w i (Got d) \<longleftrightarrow> once w = Done \<and> d = compress raw"

definition gz_inv :: "(bytes \<Rightarrow> bytes) \<Rightarrow> bytes \<Rightarrow> gz_world \<Rightarrow> bool" where
  "gz_inv compress raw w \<longleftrightarrow>
     (\<forall>i < length (gz_pcs w). gz_ok compress raw w i (gz_pcs w ! i)) \<and>
     (case once w of
        Fresh \<Rightarrow> gz_data w = raw \<and> gz_calls w = []
      | Running i \<Rightarrow> i < length (gz_pcs w) \<and> gz_pcs w ! i \<in> {Body, Leave}
      | Done \<Rightarrow> gz_data w = compress raw \<and> gz_calls w = [raw])"

fun gz_left_pc :: "gz_pc \<Rightarrow> nat" where
  "gz_left_pc Enter = 4"
| "gz_left_pc Body = 3"
| "gz_left_pc Leave = 2"
| "gz_left_pc Read = 1"
| "gz_left_pc (Got _) = 0"

definition gz_left :: "gz_world \<Rightarrow> nat" where
  "gz_left w = sum_list (map gz_left_pc (gz_pcs w))"

lemma gz_step_cases:
  assumes "gz_step compress g w = Some w'"
  obtains
    (first) "g < length (gz_pcs w)" "gz_pcs w ! g = Enter" "once w = Fresh"
      "w' = goto_gz g Body (w\<lparr>once := Running g\<rparr>)"
  | (later) "g < length (gz_pcs w)" "gz_pcs w ! g = Enter" "once w = Done" "w' = goto_gz g Read w"
  | (body) "g < length (gz_pcs w)" "gz_pcs w ! g = Body"
      "w' = goto_gz g Leave (w\<lparr>gz_data := compress (gz_data w), gz_calls := gz_calls w @ [gz_data w]\<rparr>)"
  | (leave) "g < length (gz_pcs w)" "gz_pcs w ! g = Leave" "w' = goto_gz g Read (w\<lparr>once := Done\<rparr>)"
  | (read) "g < length (gz_pcs w)" "gz_pcs w ! g = Read" "w' = goto_gz g (Got (gz_data w)) w"
  using assms by (auto simp: gz_step_def split: if_splits gz_pc.splits once_state.splits)

lemma gz_left_goto:
  assumes "g < length (gz_pcs w)" "gz_pcs v = gz_pcs w" "gz_left_pc pc < gz_left_pc (gz_pcs w ! g)"
  shows "gz_left (goto_gz g pc v) < gz_left w"
proof -
  have "gz_left_pc (gz_pcs w ! g) \<le> sum_list (map gz_left_pc (gz_pcs w))"
    using assms(1) by (intro member_le_sum_list) simp_all
  then show ?thesis
    using assms by (simp add: gz_left_def goto_gz_def map_update sum_list_update)
qed

lemma gz_left_decreases: "gz_step compress g w = Some w' \<Longrightarrow> gz_left w' < gz_left w"
  by (erule gz_step_cases) (auto intro!: gz_left_goto)

text \<open>Nobody else relies on the state of a goroutine that is alone in the closure.\<close>

lemma gz_inv_goto:
  assumes "gz_inv compress raw w" "g < length (gz_pcs w)" "gz_pcs v = gz_pcs w" "gz_ok compress raw v g pc"
    and others: "\<And>i p. gz_ok compress raw w i p \<Longrightarrow> i \<noteq> g \<Longrightarrow> gz_ok compress raw v i p"
    and once: "case once v of Fresh \<Rightarrow> gz_data v = raw \<and> gz_calls v = []
      | Running i \<Rightarrow> i = g \<and> pc \<in> {Body, Leave}
      | Done \<Rightarrow> gz_data v = compress raw \<and> gz_calls v = [raw]"
  shows "gz_inv compress raw (goto_gz g pc v)"
proof -
  have ok: "gz_ok compress raw (v\<lparr>gz_pcs := ps\<rparr>) i p = gz_ok compress raw v i p" for ps i p
    by (cases p) simp_all
  show ?thesis
    using assms(1-4) others once
    by (auto simp: gz_inv_def goto_gz_def nth_list_update ok split: once_state.splits)
qed

lemma gz_inv_step:
  assumes "gz_step compress g w = Some w'" "gz_inv compress raw w"
  shows "gz_inv compress raw w'"
proof -
  have here: "g < length (gz_pcs w) \<Longrightarrow> gz_ok compress raw w g (gz_pcs w ! g)"
    and o: "case once w of Fresh \<Rightarrow> gz_data w = raw \<and> gz_calls w = []
      | Running i \<Rightarrow> i < length (gz_pcs w) \<and> gz_pcs w ! i \<in> {Body, Leave}
      | Done \<Rightarrow> gz_data w = compress raw \<and> gz_calls w = [raw]"
    using assms(2) by (auto simp: gz_inv_def)
  have ok: "gz_ok compress raw v i p" if "gz_ok compress raw w i p" "i \<noteq> g" "once w = Fresh \<or> once w = Running g" for v i p
    using that by (cases p) auto
  from assms(1) show ?thesis
  proof (cases rule: gz_step_cases)
    case first
    then show ?thesis using assms(2) o ok by (simp add: gz_inv_goto)
  next
    case later
    then show ?thesis using assms(2) o by (simp add: gz_inv_goto)
  next
    case body
    then show ?thesis using assms(2) o ok here by (simp add: gz_inv_goto)
  next
    case leave
    then show ?thesis using assms(2) o ok here by (simp add: gz_inv_goto)
  next
    case read
    then show ?thesis using assms(2) o here by (simp add: gz_inv_goto)
  qed
qed

interpretation compressing: step_variant "gz_step compress" "gz_inv compress raw" gz_left for compress raw
  by unfold_locales (blast intro: gz_inv_step gz_left_decreases)+

lemma gz_start_inv: "gz_inv compress raw (gz_start raw n)" "gz_left (gz_start raw n) = 4 * n"
  by (simp_all add: gz_inv_def gz_start_def gz_left_def map_replicate_const sum_list_replicate)

text \<open>As long as somebody has no result, somebody can go on: a waiting caller waits for the one in the closure.\<close>

lemma gz_progress:
  assumes "gz_inv compress raw w" "gz_left w \<noteq> 0"
  shows "\<exists>g. gz_step compress g w \<noteq> None"
proof -
  from assms(2) obtain g where g: "g < length (gz_pcs w)" "gz_left_pc (gz_pcs w ! g) \<noteq> 0"
    by (auto simp: gz_left_def in_set_conv_nth)
  show ?thesis
  proof (cases "once w")
    case (Running i)
    then show ?thesis using assms(1) by (intro exI [of _ i]) (auto simp: gz_inv_def gz_step_def)
  qed (use g in \<open>auto intro!: exI [of _ g] simp: gz_step_def split: gz_pc.splits\<close>)
qed

lemma gz_length_run:
  assumes "run_schedule (gz_step compress) gs w = Some w'"
  shows "length (gz_pcs w') = length (gz_pcs w)"
proof -
  have step: "length (gz_pcs w') = length (gz_pcs w)" if "gz_step compress g w = Some w'" for g w w'
    using that by (cases rule: gz_step_cases) (simp_all add: goto_gz_def)
  with assms show ?thesis by (induction gs arbitrary: w) (auto split: bind_splits)
qed

lemma gz_length: "run_schedule (gz_step compress) gs (gz_start raw n) = Some w \<Longrightarrow> length (gz_pcs w) = n"
  by (drule gz_length_run) (simp add: gz_start_def)

text \<open>The variables of the package as the callers of \<open>rawDescGZIP\<close> see them.\<close>

definition once_view :: "nat \<Rightarrow> ('st, 'fd, 'lib) pbstate \<Rightarrow> gz_world" where
  "once_view n s =
     \<lparr> once = (if var_rawDescOnce s then Done else Fresh), gz_data = var_rawDescData s, gz_calls = gzips s,
       gz_pcs = replicate n Enter \<rparr>"

lemma once_view_fresh: "once_view n (fresh_pbstate env) = gz_start file_helloworld_proto_rawDesc n"
  by (simp add: once_view_def fresh_pbstate_def gz_start_def)

lemma rawDescGZIP_run [run_simps]:
  "file_helloworld_proto_rawDescGZIP env s =
     (if var_rawDescOnce s then (Inr (var_rawDescData s), s)
      else (Inr (CompressGZIP env (var_rawDescData s)),
        s\<lparr>gzips := gzips s @ [var_rawDescData s], var_rawDescData := CompressGZIP env (var_rawDescData s),
          var_rawDescOnce := True\<rparr>))"
  by (simp add: file_helloworld_proto_rawDescGZIP_def go_simps)

text \<open>A single caller does what the function does.\<close>

lemma rawDescGZIP_steps:
  assumes "file_helloworld_proto_rawDescGZIP env s = (Inr d, s')"
  shows "run_schedule (gz_step (CompressGZIP env)) (replicate (if var_rawDescOnce s then 2 else 4) 0) (once_view 1 s) =
    Some ((once_view 1 s')\<lparr>gz_pcs := [Got d]\<rparr>)"
  using assms by (auto simp: rawDescGZIP_run once_view_def gz_step_def goto_gz_def numeral_eq_Suc)

text \<open>C18: The descriptor is compressed once. Any number of goroutines call \<open>rawDescGZIP\<close> for the first time, in
  any interleaving: the raw descriptor is handed to the compressor at most once, everybody who returns has the
  compressed descriptor and never the raw one, a schedule has at most four actions per caller, and unless all
  have returned somebody can go on. One caller alone does what the function does when it is called
  sequentially.\<close>

theorem descriptor_compressed_once:
  assumes "run_schedule (gz_step (CompressGZIP env)) gs (once_view n (fresh_pbstate env)) = Some w"
  shows "gz_calls w \<in> {[], [file_helloworld_proto_rawDesc]} \<and>
    (\<forall>d. Got d \<in> set (gz_pcs w) \<longrightarrow> d = CompressGZIP env file_helloworld_proto_rawDesc) \<and>
    length gs \<le> 4 * n \<and>
    ((\<exists>g. gz_step (CompressGZIP env) g w \<noteq> None) \<or>
      gz_pcs w = replicate n (Got (CompressGZIP env file_helloworld_proto_rawDesc))) \<and>
    (\<forall>s d s'. file_helloworld_proto_rawDescGZIP env s = (Inr d, s') \<longrightarrow>
      (\<exists>gs. run_schedule (gz_step (CompressGZIP env)) gs (once_view 1 s) = Some ((once_view 1 s')\<lparr>gz_pcs := [Got d]\<rparr>)))"
proof -
  let ?c = "CompressGZIP env" and ?raw = file_helloworld_proto_rawDesc
  note run = assms [unfolded once_view_fresh]
  have inv: "gz_inv ?c ?raw w" by (rule compressing.run_keeps [OF run gz_start_inv(1)])
  have "gz_calls w \<in> {[], [?raw]}"
    using inv by (cases "once w") (force simp: gz_inv_def)+
  moreover have got: "d = ?c ?raw" if "Got d \<in> set (gz_pcs w)" for d
    using inv that by (auto simp: gz_inv_def in_set_conv_nth)
  moreover have "length gs \<le> 4 * n"
    using compressing.run_bounded [OF run gz_start_inv(1)] gz_start_inv(2) by simp
  moreover have "gz_pcs w = replicate n (Got (?c ?raw))" if "gz_left w = 0"
  proof -
    have "length (gz_pcs w) = n" by (rule gz_length [OF run])
    moreover have "p = Got (?c ?raw)" if p: "p \<in> set (gz_pcs w)" for p
      using \<open>gz_left w = 0\<close> p got by (cases p) (auto simp: gz_left_def)
    ultimately show ?thesis by (metis replicate_length_same)
  qed
  ultimately show ?thesis
    using gz_progress [OF inv] rawDescGZIP_steps by blast
qed

text \<open>A runtime, and two callers of which the second arrives while the first is compressing.\<close>

definition sample_pb_env :: "(nat option, string, bool) pb_env" where
  "sample_pb_env =
     \<lparr> UnsafeEnabled = True, zero_state = None, LoadMessageInfo = (\<lambda>st. st), StoreMessageInfo = (\<lambda>i _. Some i),
       CompressGZIP = (\<lambda>b. 0x1f # b), MessageStringOf = (\<lambda>_. go_return ''message''), zero_info = False,
       PkgPath = ''proto'', Build = (\<lambda>b. (Inr (Some ''file''), MessageInfos b)) \<rparr>"

lemma sample_two_callers:
  "run_schedule (gz_step (CompressGZIP sample_pb_env)) [0, 0, 0, 1, 0, 1] (once_view 2 (fresh_pbstate sample_pb_env)) =
     Some \<lparr> once = Done, gz_data = 0x1f # file_helloworld_proto_rawDesc, gz_calls = [file_helloworld_proto_rawDesc],
       gz_pcs = [Got (0x1f # file_helloworld_proto_rawDesc), Got (0x1f # file_helloworld_proto_rawDesc)] \<rparr>"
  by (simp add: once_view_fresh gz_start_def gz_step_def goto_gz_def sample_pb_env_def numeral_2_eq_2)

theorem descriptor_compressed_once_witness:
  "\<exists>w. run_schedule (gz_step (CompressGZIP sample_pb_env)) [0, 0, 0, 1, 0, 1]
        (once_view 2 (fresh_pbstate sample_pb_env)) = Some w \<and>
     gz_calls w \<noteq> [] \<and> gz_calls w \<in> {[], [file_helloworld_proto_rawDesc]} \<and>
     (\<forall>d. Got d \<in> set (gz_pcs w) \<longrightarrow> d = CompressGZIP sample_pb_env file_helloworld_proto_rawDesc)"
  using descriptor_compressed_once [OF sample_two_callers] sample_two_callers by simp

section \<open>Facts: what the raw descriptor says\<close>

definition helloworld_descriptor :: file_desc where
  "helloworld_descriptor = file_descriptor ''helloworld.proto'' helloworld_proto"

lemma raw_descriptor_bytes: "put_message put_file_desc helloworld_descriptor = file_helloworld_proto_rawDesc"
  by code_simp

text \<open>The Go type of a pointer in the table of Go types, as the name of its message.\<close>

fun message_name :: "pbval \<Rightarrow> string" where
  "message_name (ReqPtr _) = ''HelloRequest''"
| "message_name (UserPtr _) = ''User''"
| "message_name (OtherVal _) = []"

text \<open>The dependency table, as the type builder documents it: five lists one after the other, of which the
  fourth and the fifth are the input and the output types of the methods; the offsets of the lists follow at
  the end in reverse order. An entry is an index into the table of Go types.\<close>

definition dependency :: "i32 list \<Rightarrow> nat \<Rightarrow> nat \<Rightarrow> nat" where
  "dependency deps sublist k = unat (deps ! (unat (deps ! (length deps - 1 - sublist)) + k))"

definition dependency_name :: "nat \<Rightarrow> nat \<Rightarrow> string" where
  "dependency_name sublist k =
     message_name (file_helloworld_proto_goTypes ! dependency file_helloworld_proto_depIdxs sublist k)"

lemma dependency_names:
  "map (dependency_name 3) [0..<3] = [''HelloRequest'', ''HelloRequest'', ''HelloRequest'']"
  "map (dependency_name 4) [0..<3] = [''User'', ''User'', ''User'']"
  by code_simp+

text \<open>C17: The generated files agree with the file they were generated from. The bytes of the raw descriptor
  are the wire encoding of the descriptor of \<open>helloworld.proto\<close>, so decoding them gives that descriptor and no
  other file has these bytes; the dependency table gives every method of the service the Go types of its input
  and output; and the service descriptor in the stub lists, in order, the methods that do not stream with
  their names, and those that do with their names and directions, under the full name of the service.\<close>

theorem raw_descriptor_of_proto_file:
  "get_message get_file_desc file_helloworld_proto_rawDesc = Some helloworld_descriptor \<and>
   (\<forall>f. put_message put_file_desc f = file_helloworld_proto_rawDesc \<longleftrightarrow> f = helloworld_descriptor) \<and>
   (\<exists>greeter. file_services helloworld_descriptor = [greeter] \<and>
      map mtd_input (sd_methods greeter) = map (full_name helloworld_proto) (map (dependency_name 3) [0..<3]) \<and>
      map mtd_output (sd_methods greeter) = map (full_name helloworld_proto) (map (dependency_name 4) [0..<3]) \<and>
      map md_name (file_messages helloworld_descriptor) = map message_name file_helloworld_proto_goTypes \<and>
      ServiceName Greeter_ServiceDesc = file_package helloworld_descriptor @ ''.'' @ sd_name greeter \<and>
      map fst (Methods Greeter_ServiceDesc) =
        [mtd_name m. m \<leftarrow> sd_methods greeter, \<not> mtd_client_streaming m \<and> \<not> mtd_server_streaming m] \<and>
      map (\<lambda>d. (StreamName d, ClientStreams d, ServerStreams d)) (Streams Greeter_ServiceDesc) =
        [(mtd_name m, mtd_client_streaming m, mtd_server_streaming m). m \<leftarrow> sd_methods greeter,
           mtd_client_streaming m \<or> mtd_server_streaming m] \<and>
      Metadata Greeter_ServiceDesc = Some (file_name helloworld_descriptor))"
proof (intro conjI)
  show "get_message get_file_desc file_helloworld_proto_rawDesc = Some helloworld_descriptor"
    by (simp flip: raw_descriptor_bytes add: file_desc.get_put)
  show "\<forall>f. put_message put_file_desc f = file_helloworld_proto_rawDesc \<longleftrightarrow> f = helloworld_descriptor"
    using raw_descriptor_bytes file_desc.put_inj by metis
qed (simp add: helloworld_descriptor_def file_descriptor_def helloworld_proto_def rpc_descriptor_def full_name_def
  dependency_names file_helloworld_proto_goTypes_def Greeter_ServiceDesc_def del: upt_conv_Cons map_map upt_rec_numeral)

section \<open>Facts: the package over its life\<close>

text \<open>Any sequence of \<open>init\<close> calls (even ones that panic), descriptor requests and changes of messages.\<close>

inductive pb_reach :: "('st, 'fd, 'lib) pb_env \<Rightarrow> ('st, 'fd, 'lib) pbstate \<Rightarrow> bool" for env where
  fresh: "pb_reach env (fresh_pbstate env)"
| init: "pb_reach env s \<Longrightarrow> pb_reach env (snd (file_helloworld_proto_init env s))"
| descriptor: "pb_reach env s \<Longrightarrow> pb_reach env (snd (file_helloworld_proto_rawDescGZIP env s))"
| messages: "pb_reach env s \<Longrightarrow> pb_reach env (s\<lparr>pb_reqs := reqs, pb_users := users\<rparr>)"

text \<open>A type builder that returns has built a file; it fills the message infos in place.\<close>

definition build_contract :: "('st, 'fd, 'lib) pb_env \<Rightarrow> bool" where
  "build_contract env \<longleftrightarrow> 
     (\<forall>b. fst (Build env b) \<noteq> Inr None \<and> length (snd (Build env b)) = length (MessageInfos b))"

definition builder_ok :: "('st, 'fd, 'lib) pb_env \<Rightarrow> 'lib TypeBuilder \<Rightarrow> bool" where
  "builder_ok env b \<longleftrightarrow>
     RawDescriptor b = Some file_helloworld_proto_rawDesc \<and> GoTypes b = Some file_helloworld_proto_goTypes \<and>
     DependencyIndexes b = Some file_helloworld_proto_depIdxs \<and>
     NumMessages b = length (file_messages helloworld_descriptor) \<and>
     NumServices b = length (file_services helloworld_descriptor) \<and> NumEnums b = 0 \<and> NumExtensions b = 0 \<and>
     (\<not> UnsafeEnabled env \<longrightarrow> map Exporter (MessageInfos b) = [Some HelloRequest_exporter, Some User_exporter])"

definition pb_inv :: "('st, 'fd, 'lib) pb_env \<Rightarrow> ('st, 'fd, 'lib) pbstate \<Rightarrow> bool" where
  "pb_inv env s \<longleftrightarrow>
     (if var_rawDescOnce s
      then var_rawDescData s = CompressGZIP env file_helloworld_proto_rawDesc \<and> gzips s = [file_helloworld_proto_rawDesc]
      else var_rawDescData s = file_helloworld_proto_rawDesc \<and> gzips s = []) \<and>
     (File_helloworld_proto s = None \<longrightarrow>
        var_rawDesc s = Some file_helloworld_proto_rawDesc \<and> var_goTypes s = Some file_helloworld_proto_goTypes \<and>
        var_depIdxs s = Some file_helloworld_proto_depIdxs \<and> (\<forall>b \<in> set (builds s). \<exists>p. fst (Build env b) = Inl p)) \<and>
     (\<forall>b \<in> set (builds s). builder_ok env b) \<and> length (var_msgTypes s) = 2"

lemma helloworld_builder_ok:
  "var_rawDesc s = Some file_helloworld_proto_rawDesc \<Longrightarrow> var_goTypes s = Some file_helloworld_proto_goTypes \<Longrightarrow>
   var_depIdxs s = Some file_helloworld_proto_depIdxs \<Longrightarrow>
   (\<not> UnsafeEnabled env \<longrightarrow> map Exporter (var_msgTypes s) = [Some HelloRequest_exporter, Some User_exporter]) \<Longrightarrow>
   builder_ok env (helloworld_builder env s)"
  by (simp add: builder_ok_def helloworld_builder_def helloworld_descriptor_def file_descriptor_def helloworld_proto_def)

lemma install_exporters_run:
  "length infos = 2 \<Longrightarrow> map Exporter (install_exporters infos) = [Some HelloRequest_exporter, Some User_exporter]"
  by (auto simp: install_exporters_def Let_def numeral_2_eq_2 length_Suc_conv)

lemma pb_inv_init:
  assumes "build_contract env" "pb_inv env s"
  shows "pb_inv env (snd (file_helloworld_proto_init env s))"
proof (cases "File_helloworld_proto s")
  case (Some f)
  with assms(2) show ?thesis by (simp add: file_helloworld_proto_init_def go_simps)
next
  case None
  define s1 where "s1 = (if UnsafeEnabled env then s else s\<lparr>var_msgTypes := install_exporters (var_msgTypes s)\<rparr>)"
  define b where "b = helloworld_builder env s1"
  have s1: "pb_inv env s1" "File_helloworld_proto s1 = None" "length (var_msgTypes s) = 2"
    using assms(2) None by (simp_all add: s1_def pb_inv_def install_exporters_def Let_def)
  then have "builder_ok env b"
    unfolding b_def by (intro helloworld_builder_ok) (simp_all add: pb_inv_def s1_def install_exporters_run)
  moreover have "length (snd (Build env b)) = 2"
    using assms(1) s1(1) by (simp add: build_contract_def b_def helloworld_builder_def pb_inv_def)
  moreover have "file_helloworld_proto_init env s =
      (case fst (Build env b) of
         Inl p \<Rightarrow> (Inl p, s1\<lparr>builds := builds s1 @ [b], var_msgTypes := snd (Build env b)\<rparr>)
       | Inr out \<Rightarrow> (Inr (), s1\<lparr>builds := builds s1 @ [b], var_msgTypes := snd (Build env b), File_helloworld_proto := out,
            var_rawDesc := None, var_goTypes := None, var_depIdxs := None\<rparr>))"
    using None by (auto simp: file_helloworld_proto_init_def go_simps s1_def b_def split: sum.split)
  ultimately show ?thesis
    using s1 assms(1) by (auto simp: pb_inv_def build_contract_def split: sum.split) (metis option.exhaust)+
qed

lemma pb_reach_inv:
  assumes "pb_reach env s" "build_contract env"
  shows "pb_inv env s"
  using assms(1)
proof induction
  case fresh
  then show ?case by (simp add: pb_inv_def fresh_pbstate_def)
next
  case (init s)
  with pb_inv_init assms(2) show ?case by blast
next
  case (descriptor s)
  then show ?case by (auto simp: pb_inv_def rawDescGZIP_run)
next
  case (messages s)
  then show ?case by (simp add: pb_inv_def)
qed

text \<open>C29: Descriptors and registration over the life of the package. After any sequence of \<open>init\<close> calls,
  descriptor requests and changes of messages, \<open>Descriptor\<close> of either message returns the compressed raw
  descriptor with the index of the message, also after \<open>init\<close> has dropped the raw descriptor, and compressed it
  at most once; every call of the type builder gets the raw descriptor, the Go types and the dependencies, with
  the numbers of messages and services that the descriptor has, and without unsafe pointers the two exporters,
  each for its own message; once a file is registered, \<open>init\<close> does nothing;
  as long as none is, every build has panicked and the next one gets the same input.\<close>

theorem descriptor_over_package_life:
  assumes "pb_reach env s" "build_contract env"
  shows "fst (HelloRequest_Descriptor env s) = Inr (CompressGZIP env file_helloworld_proto_rawDesc, [0]) \<and>
    fst (User_Descriptor env s) = Inr (CompressGZIP env file_helloworld_proto_rawDesc, [1]) \<and>
    length (gzips s) \<le> 1 \<and>
    (\<forall>b \<in> set (builds s). builder_ok env b) \<and>
    (File_helloworld_proto s \<noteq> None \<longrightarrow> file_helloworld_proto_init env s = (Inr (), s)) \<and>
    (File_helloworld_proto s = None \<longrightarrow> (\<forall>b \<in> set (builds s). \<exists>p. fst (Build env b) = Inl p))"
proof -
  have inv: "pb_inv env s" by (rule pb_reach_inv [OF assms])
  then have "fst (file_helloworld_proto_rawDescGZIP env s) = Inr (CompressGZIP env file_helloworld_proto_rawDesc)"
    "length (gzips s) \<le> 1"
    by (auto simp: pb_inv_def rawDescGZIP_run split: if_splits)
  moreover have "file_helloworld_proto_init env s = (Inr (), s)" if "File_helloworld_proto s \<noteq> None"
    using that by (simp add: file_helloworld_proto_init_def go_simps)
  ultimately show ?thesis
    using inv
    by (cases "file_helloworld_proto_rawDescGZIP env s")
      (simp add: pb_inv_def HelloRequest_Descriptor_def User_Descriptor_def go_simps)
qed

theorem descriptor_over_package_life_witness:
  "fst (User_Descriptor sample_pb_env (snd (file_helloworld_proto_init sample_pb_env (fresh_pbstate sample_pb_env)))) =
     Inr (0x1f # file_helloworld_proto_rawDesc, [1])"
  using descriptor_over_package_life [OF pb_reach.init [OF pb_reach.fresh], of sample_pb_env]
  by (simp add: build_contract_def sample_pb_env_def)

section \<open>Facts: messages and their reflective view\<close>

text \<open>A message state starts without a type and holds the type stored last.\<close>

definition message_state_contract :: "('st, 'fd, 'lib) pb_env \<Rightarrow> bool" where
  "message_state_contract env \<longleftrightarrow>
     LoadMessageInfo env (zero_state env) = None \<and> (\<forall>i st. LoadMessageInfo env (StoreMessageInfo env i st) = Some i)"

lemma struct_run [run_simps]:
  "set_req x r s = (case x of None \<Rightarrow> (Inl NilDereference, s) | Some a \<Rightarrow> (Inr (), s\<lparr>pb_reqs := (pb_reqs s)(a \<mapsto> r)\<rparr>))"
  "set_user x u s = (case x of None \<Rightarrow> (Inl NilDereference, s) | Some a \<Rightarrow> (Inr (), s\<lparr>pb_users := (pb_users s)(a \<mapsto> u)\<rparr>))"
  "get_req x s = (case Option.bind x (pb_reqs s) of None \<Rightarrow> (Inl NilDereference, s) | Some r \<Rightarrow> (Inr r, s))"
  "get_user x s = (case Option.bind x (pb_users s) of None \<Rightarrow> (Inl NilDereference, s) | Some u \<Rightarrow> (Inr u, s))"
  by (cases x; simp add: set_req_def set_user_def get_req_def get_user_def go_simps split: option.split)+

lemmas message_defs = HelloRequest_Reset_def User_Reset_def HelloRequest_ProtoReflect_def User_ProtoReflect_def
  zero_HelloRequest_struct_def zero_User_struct_def zero_HelloRequest_def zero_User_def
  HelloRequest.defs User.defs HelloRequest_struct.defs User_struct.defs

lemma reset_run [run_simps]:
  "HelloRequest_Reset env x s =
     (case x of
        None \<Rightarrow> (Inl NilDereference, s)
      | Some a \<Rightarrow> (Inr (), s\<lparr>pb_reqs := (pb_reqs s)(a \<mapsto> (zero_HelloRequest_struct env)\<lparr>req_state :=
          (if UnsafeEnabled env then StoreMessageInfo env 0 (zero_state env) else zero_state env)\<rparr>)\<rparr>))"
  "User_Reset env x s =
     (case x of
        None \<Rightarrow> (Inl NilDereference, s)
      | Some a \<Rightarrow> (Inr (), s\<lparr>pb_users := (pb_users s)(a \<mapsto> (zero_User_struct env)\<lparr>user_state :=
          (if UnsafeEnabled env then StoreMessageInfo env 1 (zero_state env) else zero_state env)\<rparr>)\<rparr>))"
  by (simp_all add: message_defs run_simps go_simps split: option.split)

text \<open>The state of a message after reflection, given the index of its message info.\<close>

definition typed :: "('st, 'fd, 'lib) pb_env \<Rightarrow> nat \<Rightarrow> 'st \<Rightarrow> 'st" where
  "typed env i st = (if UnsafeEnabled env \<and> LoadMessageInfo env st = None then StoreMessageInfo env i st else st)"

lemma typed_facts:
  assumes "message_state_contract env"
  shows "typed env i (typed env i st) = typed env i st"
    and "UnsafeEnabled env \<Longrightarrow>
      LoadMessageInfo env (typed env i st) = Some (case LoadMessageInfo env st of None \<Rightarrow> i | Some j \<Rightarrow> j)"
  using assms by (auto simp: typed_def message_state_contract_def split: option.split)

lemma reflect_run [run_simps]:
  "pb_reqs s a = Some r \<Longrightarrow> HelloRequest_ProtoReflect env (Some a) s =
     (Inr (if UnsafeEnabled env then StateOf (ReqPtr (Some a)) else MessageOf 0 (ReqPtr (Some a))),
      s\<lparr>pb_reqs := (pb_reqs s)(a \<mapsto> r\<lparr>req_state := typed env 0 (req_state r)\<rparr>)\<rparr>)"
  "pb_users s b = Some u \<Longrightarrow> User_ProtoReflect env (Some b) s =
     (Inr (if UnsafeEnabled env then StateOf (UserPtr (Some b)) else MessageOf 1 (UserPtr (Some b))),
      s\<lparr>pb_users := (pb_users s)(b \<mapsto> u\<lparr>user_state := typed env 1 (user_state u)\<rparr>)\<rparr>)"
  by (simp_all add: HelloRequest_ProtoReflect_def User_ProtoReflect_def run_simps go_simps typed_def fun_upd_idem)

text \<open>C30: Messages and reflection. \<open>Reset\<close> of a message empties it, its runtime fields included, and touches no
  other message; with unsafe pointers it leaves the message typed. \<open>ProtoReflect\<close> changes no exported field and
  types the message on first use, so a second call returns the same view and changes nothing; a nil message is
  reflected through the message info, is read as empty by every getter, and cannot be reset.\<close>

theorem messages_and_reflection:
  fixes s :: "('st, 'fd, 'lib) pbstate"
  assumes "message_state_contract env" "pb_reqs s a = Some r" "pb_users s b = Some u"
  shows "(\<exists>r'. HelloRequest_Reset env (Some a) s = (Inr (), s\<lparr>pb_reqs := (pb_reqs s)(a \<mapsto> r')\<rparr>) \<and>
      HelloRequest.truncate r' = zero_HelloRequest \<and> req_sizeCache r' = 0 \<and> req_unknownFields r' = [] \<and>
      LoadMessageInfo env (req_state r') = (if UnsafeEnabled env then Some 0 else None)) \<and>
    (\<exists>u'. User_Reset env (Some b) s = (Inr (), s\<lparr>pb_users := (pb_users s)(b \<mapsto> u')\<rparr>) \<and>
      User.truncate u' = zero_User \<and> user_sizeCache u' = 0 \<and> user_unknownFields u' = [] \<and>
      LoadMessageInfo env (user_state u') = (if UnsafeEnabled env then Some 1 else None)) \<and>
    (\<exists>v st. let s' = s\<lparr>pb_reqs := (pb_reqs s)(a \<mapsto> r\<lparr>req_state := st\<rparr>)\<rparr> in
      HelloRequest_ProtoReflect env (Some a) s = (Inr v, s') \<and> HelloRequest_ProtoReflect env (Some a) s' = (Inr v, s') \<and>
      (if UnsafeEnabled env
       then v = StateOf (ReqPtr (Some a)) \<and> LoadMessageInfo env st = Some (case LoadMessageInfo env (req_state r) of None \<Rightarrow> 0 | Some i \<Rightarrow> i)
       else v = MessageOf 0 (ReqPtr (Some a)) \<and> st = req_state r)) \<and>
    (\<exists>v st. let s' = s\<lparr>pb_users := (pb_users s)(b \<mapsto> u\<lparr>user_state := st\<rparr>)\<rparr> in
      User_ProtoReflect env (Some b) s = (Inr v, s') \<and> User_ProtoReflect env (Some b) s' = (Inr v, s') \<and>
      (if UnsafeEnabled env
       then v = StateOf (UserPtr (Some b)) \<and> LoadMessageInfo env st = Some (case LoadMessageInfo env (user_state u) of None \<Rightarrow> 1 | Some i \<Rightarrow> i)
       else v = MessageOf 1 (UserPtr (Some b)) \<and> st = user_state u)) \<and>
    HelloRequest_Reset env None s = (Inl NilDereference, s) \<and> User_Reset env None s = (Inl NilDereference, s) \<and>
    HelloRequest_ProtoReflect env None s = (Inr (MessageOf 0 (ReqPtr None)), s) \<and>
    User_ProtoReflect env None s = (Inr (MessageOf 1 (UserPtr None)), s) \<and>
    HelloRequest_GetName (None :: 'st HelloRequest_struct option) = hello_Name zero_HelloRequest \<and>
    User_GetName (None :: 'st User_struct option) = user_Name zero_User \<and>
    User_GetId (None :: 'st User_struct option) = user_Id zero_User \<and>
    User_GetAge (None :: 'st User_struct option) = user_Age zero_User \<and>
    HelloRequest_GetName (pb_reqs s a) = hello_Name r \<and> User_GetName (pb_users s b) = user_Name u \<and>
    User_GetId (pb_users s b) = user_Id u \<and> User_GetAge (pb_users s b) = user_Age u"
  using assms
proof (intro conjI, goal_cases)
  case 3
  with typed_facts [of env 0 "req_state r"] show ?case
    by (intro exI [where x = "if UnsafeEnabled env then StateOf (ReqPtr (Some a)) else MessageOf 0 (ReqPtr (Some a))"]
      exI [where x = "typed env 0 (req_state r)"]) (auto simp: run_simps Let_def typed_def)
next
  case 4
  with typed_facts [of env 1 "user_state u"] show ?case
    by (intro exI [where x = "if UnsafeEnabled env then StateOf (UserPtr (Some b)) else MessageOf 1 (UserPtr (Some b))"]
      exI [where x = "typed env 1 (user_state u)"]) (auto simp: run_simps Let_def typed_def)
qed (auto simp: run_simps message_defs message_state_contract_def HelloRequest_GetName_def User_GetName_def
  User_GetId_def User_GetAge_def)

theorem messages_and_reflection_witness:
  "fst (HelloRequest_ProtoReflect sample_pb_env (Some 3)
     ((fresh_pbstate sample_pb_env)\<lparr>pb_reqs := [3 \<mapsto> zero_HelloRequest_struct sample_pb_env],
        pb_users := [4 \<mapsto> zero_User_struct sample_pb_env]\<rparr>)) = Inr (StateOf (ReqPtr (Some 3)))"
proof -
  have "message_state_contract sample_pb_env" by (simp add: message_state_contract_def sample_pb_env_def)
  from messages_and_reflection [OF this, where s = "(fresh_pbstate sample_pb_env)\<lparr>pb_reqs :=
      [3 \<mapsto> zero_HelloRequest_struct sample_pb_env], pb_users := [4 \<mapsto> zero_User_struct sample_pb_env]\<rparr>"
      and a = 3 and b = 4 and r = "zero_HelloRequest_struct sample_pb_env" and u = "zero_User_struct sample_pb_env"]
  have "\<exists>v s'. HelloRequest_ProtoReflect sample_pb_env (Some 3)
     ((fresh_pbstate sample_pb_env)\<lparr>pb_reqs := [3 \<mapsto> zero_HelloRequest_struct sample_pb_env],
        pb_users := [4 \<mapsto> zero_User_struct sample_pb_env]\<rparr>) = (Inr v, s') \<and> v = StateOf (ReqPtr (Some 3))"
    by (auto simp: Let_def sample_pb_env_def)
  then show ?thesis by auto
qed

end
