(* ===== verification/Triple_Error.thy ===== *)
theory Triple_Error
  imports Trace_Base
begin

text \<open>
  \<open>src/pkg/common/error.go\<close>: the interface \<open>TripleError\<close>. The repository has no type that implements it; values
  of it come from user code. What the library does with such an error is to ask gRPC's \<open>status.FromError\<close> for its
  status when it tags a span (\<open>ErrorClass\<close>, \<open>SetSpanTags\<close>); \<open>FromError\<close> calls the method \<open>GRPCStatus\<close> of an error that
  has one.
\<close>

text \<open>The answers of the four methods. A status is a pointer, which may be nil.\<close>

record TripleError =
  te_Stacks :: string
  te_Code :: Code
  te_Message :: string
  te_GRPCStatus :: "(Code \<times> string) option"

text \<open>\<open>(*Status).Code()\<close> of gRPC answers \<open>codes.OK\<close> for a nil status.\<close>

definition status_Code :: "(Code \<times> string) option \<Rightarrow> Code" where
  "status_Code st = (case st of None \<Rightarrow> codes_OK | Some (c, m) \<Rightarrow> c)"

text \<open>\<open>as_te\<close> says which errors implement the interface. The contract is what \<open>status.FromError\<close> documents for
  errors with a method \<open>GRPCStatus\<close>.\<close>

definition grpc_status_contract :: "tenv \<Rightarrow> (goerror \<Rightarrow> TripleError option) \<Rightarrow> bool" where
  "grpc_status_contract env as_te \<longleftrightarrow>
     (\<forall>e te. as_te e = Some te \<longrightarrow> FromError env (Some e) = (status_Code (te_GRPCStatus te), True))"

text \<open>An implementation is consistent when its status is the code and message that it reports itself.\<close>

definition consistent_error :: "TripleError \<Rightarrow> bool" where
  "consistent_error te \<longleftrightarrow> te_GRPCStatus te = Some (te_Code te, te_Message te)"

lemma SetSpanTags_cong:
  assumes "FromError env (Some e) = FromError env (Some e')"
  shows "SetSpanTags env sid (Some e) client s = SetSpanTags env sid (Some e') client s"
  using assms by (simp add: tag_events_def ErrorClass_def)

text \<open>A consistent \<open>TripleError\<close> is tagged like the status error with its code, whatever its stacks; only the status
  counts, not \<open>Code()\<close>; and one whose \<open>GRPCStatus\<close> is nil has its span tagged as a success and never flagged.\<close>

theorem triple_error_tags:
  assumes "status_contract env" "grpc_status_contract env as_te" "as_te e = Some te"
  shows "(consistent_error te \<longrightarrow> te_Code te \<noteq> codes_OK \<longrightarrow>
      SetSpanTags env sid (Some e) client s = SetSpanTags env sid (Some (StatusError (te_Code te) (te_Message te))) client s) \<and>
    (as_te e' = Some (te\<lparr>te_Code := c, te_Stacks := st, te_Message := msg\<rparr>) \<longrightarrow>
      SetSpanTags env sid (Some e') client s = SetSpanTags env sid (Some e) client s) \<and>
    (te_GRPCStatus te = None \<longrightarrow> SetSpanTags env sid (Some e) client s =
      (Inr (), s\<lparr>trace := trace s @ [SetTag sid ''response_code'' (TagCode codes_OK),
        SetTag sid ''response_class'' (TagClass ''2xx'')]\<rparr>))"
proof -
  have e: "FromError env (Some e) = (status_Code (te_GRPCStatus te), True)"
    using assms(2,3) by (simp add: grpc_status_contract_def)
  have "SetSpanTags env sid (Some e) client s = SetSpanTags env sid (Some (StatusError (te_Code te) (te_Message te))) client s"
    if "consistent_error te" "te_Code te \<noteq> codes_OK"
    using that e assms(1)
    by (intro SetSpanTags_cong) (simp add: consistent_error_def status_Code_def status_contract_def)
  moreover have "SetSpanTags env sid (Some e') client s = SetSpanTags env sid (Some e) client s"
    if "as_te e' = Some (te\<lparr>te_Code := c, te_Stacks := st, te_Message := msg\<rparr>)"
    using that e assms(2) by (intro SetSpanTags_cong) (simp add: grpc_status_contract_def)
  moreover have "SetSpanTags env sid (Some e) client s =
      (Inr (), s\<lparr>trace := trace s @ [SetTag sid ''response_code'' (TagCode codes_OK),
        SetTag sid ''response_class'' (TagClass ''2xx'')]\<rparr>)"
    if "te_GRPCStatus te = None"
    using that e by (simp add: tag_events_def ErrorClass_def status_Code_def class_defs)
  ultimately show ?thesis by blast
qed

text \<open>Concrete instances: an error that reports \<open>NotFound\<close> with its status, and one that reports it without.\<close>

definition not_found :: TripleError where
  "not_found = \<lparr> te_Stacks = ''main.go:1'', te_Code = codes_NotFound, te_Message = ''gone'',
     te_GRPCStatus = Some (codes_NotFound, ''gone'') \<rparr>"

definition sample_as_te :: "goerror \<Rightarrow> TripleError option" where
  "sample_as_te e = (case e of ForeignError 0 \<Rightarrow> Some not_found
     | ForeignError (Suc 0) \<Rightarrow> Some (not_found\<lparr>te_GRPCStatus := None\<rparr>) | _ \<Rightarrow> None)"

definition te_env :: tenv where
  "te_env = sample_env\<lparr>FromError := (\<lambda>err. case Option.bind err sample_as_te of
     Some te \<Rightarrow> (status_Code (te_GRPCStatus te), True) | None \<Rightarrow> FromError sample_env err)\<rparr>"

lemma te_env_contracts: "status_contract te_env" "grpc_status_contract te_env sample_as_te"
  using sample_status_contract
  by (auto simp: status_contract_def grpc_status_contract_def te_env_def sample_as_te_def)

theorem triple_error_tags_witness:
  "SetSpanTags te_env 0 (Some (ForeignError 0)) True \<lparr>trace = [], next_span = 1, ext = ()\<rparr> =
     SetSpanTags te_env 0 (Some (StatusError codes_NotFound ''gone'')) True \<lparr>trace = [], next_span = 1, ext = ()\<rparr> \<and>
   SetSpanTags te_env 0 (Some (ForeignError 1)) True \<lparr>trace = [], next_span = 1, ext = ()\<rparr> =
     (Inr (), \<lparr>trace = [SetTag 0 ''response_code'' (TagCode codes_OK), SetTag 0 ''response_class'' (TagClass ''2xx'')],
       next_span = 1, ext = ()\<rparr>)"
proof -
  have te: "sample_as_te (ForeignError 0) = Some not_found"
      "sample_as_te (ForeignError 1) = Some (not_found\<lparr>te_GRPCStatus := None\<rparr>)"
    by (simp_all add: sample_as_te_def)
  have c: "consistent_error not_found" "te_Code not_found = codes_NotFound" "te_Message not_found = ''gone''"
    by (simp_all add: consistent_error_def not_found_def)
  show ?thesis
    using triple_error_tags [OF te_env_contracts te(1), of 0 True "\<lparr>trace = [], next_span = 1, ext = ()\<rparr>"]
      triple_error_tags [OF te_env_contracts te(2), of 0 True "\<lparr>trace = [], next_span = 1, ext = ()\<rparr>"]
    by (simp add: c)
qed

end
