(* ===== verification/Spec2Isabelle.thy ===== *)
theory Spec2Isabelle
  imports Concurrent_Tracing Distributed_Trace Server_Concurrency Package_Tests Messages Triple_Error
begin

text \<open>
  \<^bold>\<open>Triple, a gRPC-based RPC library for dubbo-go.\<close> This is the root of a verification
  development of the library's code, \<open>src/pkg\<close>, and of the example that uses it, \<open>src/example/dubbo\<close>.

  \<^bold>\<open>The program.\<close> A client (\<open>pkg/triple/dubbo3_client.go\<close>) is built from an option
  struct (\<open>pkg/config\<close>), dials a gRPC connection that it wraps (\<open>pkg/triple/dubbo3_conn.go\<close>),
  and invokes methods either through a generated stub found by reflection (protobuf) or directly, with
  a codec from a process-wide registry (\<open>pkg/common/codec.go\<close>). A server
  (\<open>pkg/triple/dubbo3_server.go\<close>) builds a gRPC server from the same options, registers the
  services of a map on it, and can replace itself by a refreshed server. Both install the tracing
  interceptors of \<open>pkg/tracing\<close> when a Jaeger address is set, and log through a wrapped logger
  (\<open>pkg/common/logger\<close>).

  The example consists of a generated stub (\<open>example/dubbo/proto\<close>), a server process that provides a
  greeter service and waits for signals, and a client process that calls it, once or from two thousand
  goroutines.

  \<^bold>\<open>How Go is written here\<close> (theory \<open>Go_Monad\<close>). A function that may panic and changes
  state is a state transformer that returns a panic or a result, and keeps the state of a panicking
  run; \<open>defer\<close>, \<open>recover\<close> and \<open>for range\<close> are combinators. Three kinds of
  reasoning are built on it once: results that do not depend on the state (\<open>yields\<close>), triples
  with a separate postcondition for panics (\<open>triple\<close>, \<open>keeps\<close>), and loops that fold the
  state. The locale \<open>key_store\<close> is the contract of a keyed table. Values that cross interfaces
  (errors, contexts, \<open>interface{}\<close>, the error with attachments of \<open>pkg/common/service.go\<close>)
  are the datatypes of \<open>Go_Values\<close>. Machine integers are words.

  \<^bold>\<open>The theories, in the order of the code.\<close>
  \<^item> \<open>Constants\<close>, \<open>Logger\<close>, \<open>Config\<close>: names and defaults; the logger interface and its
    wrapper; the option struct, \<open>Validate\<close>, \<open>NewTripleOption\<close> and its eighteen functional options.
    Shown: every method of a wrapped logger reaches the innermost one; every built option is completely
    filled; options about different fields commute. Each functional option interprets the locale
    \<open>option_field\<close>.
  \<^item> \<open>Codec\<close>: the registry, a refinement of a finite map (\<open>key_store\<close> on \<open>SetTripleCodec\<close>).
  \<^item> \<open>Trace_Base\<close>, \<open>Server_Interceptor\<close>, \<open>Client_Interceptor\<close>: metadata carrier, error
    classes, span tags, and the four interceptors. Shown: the interceptors neither change nor repeat
    the call they wrap, and every span that is started is finished once and last, panics included
    (locale \<open>instrumented\<close>).
  \<^item> \<open>Client_Stream\<close>: the instrumented client stream with its concurrent users, watcher goroutine and
    finalizer, as a transition system with one atomic action per step. Shown by rule induction over
    all interleavings: the span is finished at most once, and exactly once when everybody is done;
    \<open>finishFunc\<close> returns; the first caller decides the outcome (locale \<open>one_shot\<close>).
  \<^item> \<open>Concurrent_Tracing\<close>: many goroutines under one tracer. A process is the tracer's log and a list of
    activities, calls that still have something to report and open streams; their steps interleave. Shown, by rule
    induction over all interleavings, for client and server processes: every span is started first, started and
    finished at most once and not touched afterwards (locale \<open>span_source\<close>); nobody is stuck; at rest, what is open is
    what the code leaves open, on a server nothing (locale \<open>closed_source\<close>).
  \<^item> \<open>Propagation\<close>: client and server interceptor, in two processes: a trace continues across the wire.
  \<^item> \<open>Triple_Error\<close>: the error interface of \<open>pkg/common/error.go\<close>, and what span tags make of such an error.
  \<^item> \<open>Jaeger\<close>, \<open>Tls\<close>: tracer construction; the two TLS loaders, instances of one locale
    (\<open>tls_loader\<close>).
  \<^item> \<open>Conn\<close>, \<open>Client\<close>: the connection and the client. Shown: which dial happens with which
    options; the outcome of a call on every branch of both codec paths; the deadline of a call.
  \<^item> \<open>Unary_Handler\<close>, \<open>Server\<close>, \<open>Server_Lifecycle\<close>: the generic codec and the handler of a
    unary service; the server; its life under any sequence of operations. Shown: arguments reach the
    service in order, failures never do; each service is registered under its own key although
    descriptors are shared and renamed; registration always precedes serving (locale
    \<open>server_operation\<close>, rule induction over \<open>life\<close>).
  \<^item> \<open>Server_Concurrency\<close>: one server object used by several goroutines. \<open>Start\<close>, \<open>Stop\<close> and \<open>RefreshService\<close> are
    cut into their statements and interleaved. Shown: the statements of one goroutine refine the operations of
    \<open>Server\<close>, and every call ends; the order of creating, registering, serving and stopping survives any
    interleaving; used by one goroutine at a time the object owns its listener, while two concurrent refreshes can lose a
    running server or register a service under a wrong key.
  \<^item> \<open>End_To_End\<close>: client, gRPC, server and service together: the arguments of a call reach the service that the
    started server registered, once and in order, and its response and error come back.
  \<^item> \<open>Greeter\<close>: the generated stub. Its messages live in a store of their own (\<open>gstore\<close>). Shown: a call through a
    client built around the stub is one RPC on the dialled connection with the outcome of each case; the
    generated handlers go through the framework's proxy without an interceptor and around it with one.
  \<^item> \<open>Wire_Format\<close>, \<open>Messages\<close>: protobuf's wire format with a reader and a writer for file descriptors (the locale
    \<open>wire_message\<close>: the reader inverts the writer), as the reference for the generated messages; the message
    structs, their methods, the package variables and \<open>init\<close>. Shown: the raw descriptor is the encoding of
    \<open>helloworld.proto\<close>, and stub and dependency table agree with it; it is compressed once under any interleaving;
    \<open>Reset\<close>, \<open>ProtoReflect\<close> and the getters do what they say, on nil messages too.
  \<^item> \<open>Schedules\<close>: transition systems run by schedules, with the locales \<open>step_invariant\<close> and \<open>step_variant\<close>
    (an invariant, and a bound on the length of schedules), which the server process, the load test, the concurrent
    server and the descriptor's \<open>sync.Once\<close> interpret.
  \<^item> \<open>Example_Server\<close>: the provider's methods, and the server process as a transition system (main goroutine,
    timer, clock, signals). Shown: what the provider answers; by which signals and after how much time the process
    ends, over all interleavings; that a terminating signal in the channel ends it.
  \<^item> \<open>Greeter_End_To_End\<close>: the generated stub, the client, gRPC, a started and traced server and the provider together:
    what one call of the example does at both ends.
  \<^item> \<open>Distributed_Trace\<close>: the same call with tracing configured at both ends: from the constructors of client and
    server to one span at each tracer, the server's the child of the client's.
  \<^item> \<open>Example_Client\<close>: the client's calls, and its load test as a transition system of main and its goroutines.
    Shown: the counters account for every call in every interleaving, every round ends, and the two example
    programs together produce the answers that the integration test expects.
  \<^item> \<open>Package_Tests\<close>: the repository's tests as programs, and their outcomes.
  \<^item> this theory: the codec of a client and that of a server are the same.

  \<^bold>\<open>What is a parameter.\<close> gRPC, the OpenTracing and Jaeger libraries, Hessian and protobuf, the file
  system, the network and user code (handlers, factories, decorators, stubs) are arguments:
  \<open>tenv\<close>, \<open>tls_env\<close>, \<open>grpc_env\<close>, \<open>client_env\<close>, \<open>codec_env\<close>, \<open>server_env\<close>, \<open>pb_env\<close> (protobuf's runtime).
  What is done to them is recorded (spans, dials, RPCs, server calls), what they do to the process is an
  arbitrary change of a state component. Where a property needs more, a named hypothesis says so:
  \<open>status_contract\<close> and \<open>outgoing_contract\<close> (gRPC's \<open>status\<close> and \<open>metadata\<close>),
  \<open>grpc_status_contract\<close> (errors with a method \<open>GRPCStatus\<close>),
  \<open>propagation_contract\<close> (the tracer's round trip), \<open>delivered\<close>, \<open>serves\<close> and \<open>serves_generated\<close> (gRPC's transport),
  \<open>intercepts\<close> (a connection runs the interceptor it was dialled with) and \<open>arrives\<close> (the server's context of a call),
  \<open>exclusive\<close> (an address is bound once), \<open>message_state_contract\<close> and \<open>build_contract\<close> (protobuf's message state
  and type builder) and \<open>answers_like\<close> (the framework between the example's client and provider); concrete instances at the
  end of the theories show that they can hold.

  \<^bold>\<open>Bounds.\<close> Nothing is cut off: every loop of the source is structural recursion over a slice or a map in
  iteration order, and the order is universally quantified. The only fuel is that of \<open>run_finish\<close> in
  \<open>Client_Stream\<close>, which runs one goroutine through \<open>finishFunc\<close>; six steps suffice, and the
  theorem \<open>finishFunc_returns\<close> proves that it returns. The two endless loops of the example programs are
  transition systems, so they are not bounded either: a run of them is any sequence of steps.

  \<^bold>\<open>What is not modelled.\<close> The text that format directives produce, except in the errors that are
  returned; the goroutines inside gRPC; the memory model below the atomicity of Go's channel and
  compare-and-swap operations and of single statements of the server; data races on the codec registry's maps,
  on which Go gives no guarantee. Of the
  example: protobuf's runtime behind the generated messages, the version assertions that only the compiler
  evaluates, and the dubbo-go framework, which appears as the arguments \<open>Invoker\<close> and \<open>Load\<close>, and as whether \<open>config.Load\<close> panics. The client's expression
  \<open>err.(*common.TripleError).StacksTrace()\<close> does not type-check against \<open>pkg/common/error.go\<close> and is an
  argument. The interface \<open>TripleError\<close> has no implementation in the repository; its values are arguments. Of
  testify and \<open>testing\<close> only the outcomes of assertions and the exit status are kept.
\<close>

section \<open>Client and server together\<close>

lemma server_inner_codec_client:
  assumes "codecFactoryMap wc ct = codecFactoryMap ws ct" "inner_codec ct wc = (ic, err)"
  shows "server_inner_codec ct ws = ic"
  using assms
  by (auto simp: server_inner_codec_def inner_codec_def GetTripleCodec_def split: if_splits option.splits)

text \<open>C11: Both ends speak the same codec. For a client and a server configured with the same codec
  name (not protobuf) and the same registration under it, the RPC that \<open>Invoke\<close> makes forces
  exactly the wrapping codec that the server is built with. When nothing is registered under the
  name, the client refuses the call with the Unimplemented status and makes no RPC, while the server
  is built all the same, around a nil codec.\<close>

theorem both_ends_same_codec:
  fixes wc :: "'n kworld" and ws :: "'w sworld"
  assumes "CodecType (opt t) = ct" "CodecType so = ct" "ct \<noteq> PBCodecName"
    and "codecFactoryMap wc ct = codecFactoryMap ws ct"
    and "usable (Logger (opt t))" "triplConn t = Some c" "ctx_lookup_string ctx InterfaceKey = Some interfaceKey"
    and "\<not> tls_requested so"
  shows "\<exists>sopts codec.
    calls (snd (newGrpcServerWithCodec senv so ws)) =
      calls ws @ codec_notice ct ws @ [NewServer (next_server ws) (sopts @ [ForceServerCodec codec])] \<and>
    (if unsupported ct ws
     then codec = PBWrapperTwoWayCodec ct None ProtobufCodec \<and>
       fst (TripleClient_Invoke cenv t methodName (VCtx ctx # args) reply wc) =
         Inr (NewErrorWithAttachment (Some (unimplemented_codec ct)) Map.empty) \<and>
       rpcs (snd (TripleClient_Invoke cenv t methodName (VCtx ctx # args) reply wc)) = rpcs wc
     else (\<exists>ctx'. rpcs (snd (TripleClient_Invoke cenv t methodName (VCtx ctx # args) reply wc)) =
       rpcs wc @ [(grpcConn c, ctx', ''/'' @ interfaceKey @ ''/'' @ methodName, VSlice args, [ForceCodec codec])]))"
proof -
  obtain k where k: "log_sink (Logger (opt t)) = Some k" using assms(5) by (auto simp: usable_sink)
  obtain ic err where ic: "inner_codec ct wc = (ic, err)" by force
  have err: "unsupported ct ws \<longleftrightarrow> err \<noteq> None" "err \<noteq> None \<longrightarrow> ic = None"
    using ic assms(3,4) by (auto simp: unsupported_def inner_codec_def GetTripleCodec_def split: if_splits option.splits)
  have "getServerTlsCertificate (sv_tls senv) so = (None, None)" by (rule server_tls.off [OF assms(8)])
  then have server: "calls (snd (newGrpcServerWithCodec senv so ws)) = calls ws @ codec_notice ct ws @
      [NewServer (next_server ws) ((base_server_opts so @ [Creds InsecureCredentials]) @
        [ForceServerCodec (PBWrapperTwoWayCodec ct ic ProtobufCodec)])]"
    using assms(2,3) server_inner_codec_client [OF assms(4) ic]
    by (simp add: newGrpcServerWithCodec_run server_opts_def creds_opts_def codec_opts_def)
  note client = TripleClient_Invoke_wrapped [where env = cenv and t = t and w = wc, OF _ k assms(6) assms(7) [unfolded ctx_lookup_string_iff],
      unfolded assms(1), OF assms(3) ic]
  show ?thesis
    by (intro exI conjI, rule server) (auto simp: client err run_simps Let_def split: prod.split)
qed

theorem both_ends_same_codec_witness:
  "\<exists>sopts codec ctx'.
     calls (snd (newGrpcServerWithCodec sample_server_env hessian_option (sample_sworld zero_option))) =
       [NewServer 0 (sopts @ [ForceServerCodec codec])] \<and>
     rpcs (snd (TripleClient_Invoke sample_client_env sample_client ''Hi''
         [VCtx (ctx_string InterfaceKey ''g.Greeter'' Background), VObj 1] VNil sample_kworld)) =
       [(Some 5, ctx', ''/'' @ ''g.Greeter'' @ ''/'' @ ''Hi'', VSlice [VObj 1], [ForceCodec codec])]"
proof -
  have sup: "\<not> unsupported HessianCodecName (sample_sworld zero_option)" by (simp add: unsupported_def)
  have w: "codecFactoryMap sample_kworld = Map.empty" "rpcs sample_kworld = []" by (simp_all add: sample_kworld_def)
  show ?thesis
    using both_ends_same_codec [where t = sample_client and so = hessian_option and ct = HessianCodecName
        and c = "\<lparr>timeout = DefaultTimeout, grpcConn = Some 5\<rparr>" and wc = sample_kworld
        and ws = "sample_sworld zero_option" and ctx = "ctx_string InterfaceKey ''g.Greeter'' Background"
        and interfaceKey = "''g.Greeter''" and senv = sample_server_env and cenv = sample_client_env
        and methodName = "''Hi''" and args = "[VObj 1]" and reply = VNil]
    by (simp add: sample_client_def ctxstore.lookup_insert_same tls_request_defs sup w codec_notice_def)
qed

end
